(* ===== verification/Prelude.thy ===== *)
theory Prelude
  imports Complex_Main "HOL-Library.Monad_Syntax" "HOL-Library.State_Monad" "HOL-Library.Stream"
begin

text \<open>
  Shared vocabulary of the development: the result type of operations that can
  throw, the JavaScript array operations the source uses (indexing, indexed
  assignment, \<^verbatim>\<open>includes\<close>, \<^verbatim>\<open>reduce\<close> with \<open>+\<close>), the random source behind
  \<^verbatim>\<open>Math.random()\<close>, and the theorem collections the component theories fill.
  Nothing here models a line of \<^verbatim>\<open>src/app/page.tsx\<close>; it models the language
  the lines are written in.
\<close>

section \<open>Theorem collections\<close>

named_theorems model_defs "defining equations of the operations of the model"
named_theorems inv_defs "defining equations of the invariants"
named_theorems frame "fields an operation leaves unchanged"

section \<open>Errors as values\<close>

text \<open>
  \<open>TypeError\<close> is JavaScript's exception for reading a property of
  \<^verbatim>\<open>undefined\<close>. \<open>ArrayHole\<close> is not an exception of the program: it marks
  an assignment that would leave a hole in an array, a state the model's lists
  cannot hold (the render that follows reads the hole and throws).
\<close>

datatype error = TypeError | ArrayHole

type_synonym 'a result = "error + 'a"

definition rbind :: "'a result \<Rightarrow> ('a \<Rightarrow> 'b result) \<Rightarrow> 'b result" where
  "rbind r f = (case r of Inl e \<Rightarrow> Inl e | Inr x \<Rightarrow> f x)"

definition is_ok :: "'a result \<Rightarrow> bool" where
  "is_ok r = (case r of Inl _ \<Rightarrow> False | Inr _ \<Rightarrow> True)"

lemma rbind_Inl [simp]: "rbind (Inl e) f = Inl e"
  by (simp add: rbind_def)

lemma rbind_Inr [simp]: "rbind (Inr x) f = f x"
  by (simp add: rbind_def)

lemma rbind_eq_Inr_iff: "rbind r f = Inr y \<longleftrightarrow> (\<exists>x. r = Inr x \<and> f x = Inr y)"
  by (cases r) simp_all

lemma rbind_eq_Inl_iff:
  "rbind r f = Inl e \<longleftrightarrow> r = Inl e \<or> (\<exists>x. r = Inr x \<and> f x = Inl e)"
  by (cases r) simp_all

lemma rbind_assoc: "rbind (rbind r f) g = rbind r (\<lambda>x. rbind (f x) g)"
  by (cases r) simp_all

lemma is_ok_simps [simp]: "is_ok (Inr x)" "\<not> is_ok (Inl e)"
  by (simp_all add: is_ok_def)

lemma is_ok_iff: "is_ok r \<longleftrightarrow> (\<exists>x. r = Inr x)"
  by (cases r) simp_all

lemma is_ok_rbind: "is_ok (rbind r f) \<longleftrightarrow> (\<exists>x. r = Inr x \<and> is_ok (f x))"
  by (cases r) simp_all

section \<open>JavaScript arrays\<close>

text \<open>
  \<open>js_nth xs i\<close> is \<^verbatim>\<open>xs[i]\<close>: the element, or \<open>None\<close> for \<^verbatim>\<open>undefined\<close>
  when \<open>i\<close> is not an index of the array. An index is an \<open>int\<close>, so that a
  negative argument is a value of the model; a fractional one behaves like any
  other number that is not an index.
\<close>

definition js_nth :: "'a list \<Rightarrow> int \<Rightarrow> 'a option" where
  "js_nth xs i = (if 0 \<le> i \<and> nat i < length xs then Some (xs ! nat i) else None)"

text \<open>
  \<open>js_set xs i v\<close> is \<^verbatim>\<open>xs[i] = v\<close> on a copy: an index of the array is
  overwritten, the index \<open>length xs\<close> appends, and a larger one would leave a hole.
  A negative index sets a property and leaves the elements as they are.
\<close>

definition js_set :: "'a list \<Rightarrow> int \<Rightarrow> 'a \<Rightarrow> 'a list result" where
  "js_set xs i v =
    (if i < 0 then Inr xs
     else if nat i < length xs then Inr (xs[nat i := v])
     else if nat i = length xs then Inr (xs @ [v])
     else Inl ArrayHole)"

definition js_includes :: "'a list \<Rightarrow> 'a \<Rightarrow> bool" where
  "js_includes xs x = List.member xs x"

lemma js_nth_Nil [simp]: "js_nth [] i = None"
  by (simp add: js_nth_def)

lemma js_nth_Cons [simp]:
  "js_nth (x # xs) i = (if i = 0 then Some x else if i < 0 then None else js_nth xs (i - 1))"
  by (auto simp: js_nth_def nth_Cons' nat_diff_distrib' nat_eq_iff2)

lemma js_nth_eq_Some_iff:
  "js_nth xs i = Some x \<longleftrightarrow> 0 \<le> i \<and> nat i < length xs \<and> xs ! nat i = x"
  by (auto simp: js_nth_def)

lemma js_nth_eq_None_iff: "js_nth xs i = None \<longleftrightarrow> i < 0 \<or> length xs \<le> nat i"
  by (auto simp: js_nth_def)

lemma js_nth_in_range: "0 \<le> i \<Longrightarrow> nat i < length xs \<Longrightarrow> js_nth xs i = Some (xs ! nat i)"
  by (simp add: js_nth_def)

lemma js_nth_of_nat [simp]: "js_nth xs (int n) = (if n < length xs then Some (xs ! n) else None)"
  by (simp add: js_nth_def)

lemma js_nth_in_set: "js_nth xs i = Some x \<Longrightarrow> x \<in> set xs"
  by (auto simp: js_nth_def split: if_splits)

lemma js_nth_list_update:
  "js_nth (xs[n := v]) i =
    (if i = int n \<and> n < length xs then Some v else js_nth xs i)"
  by (auto simp: js_nth_def)

lemma js_set_in_range [simp]:
  "0 \<le> i \<Longrightarrow> nat i < length xs \<Longrightarrow> js_set xs i v = Inr (xs[nat i := v])"
  by (simp add: js_set_def)

lemma js_set_eq_Inr_length:
  "js_set xs i v = Inr ys \<Longrightarrow> 0 \<le> i \<Longrightarrow> nat i < length xs \<Longrightarrow> length ys = length xs"
  by (auto simp: js_set_def split: if_splits)

lemma js_includes_iff [simp]: "js_includes xs x \<longleftrightarrow> x \<in> set xs"
  by (simp add: js_includes_def)

lemma index_cases4: "0 \<le> i \<Longrightarrow> nat i < 4 \<Longrightarrow> i = 0 \<or> i = 1 \<or> i = 2 \<or> i = 3"
  for i :: int
  by arith

lemma index_cases2: "0 \<le> i \<Longrightarrow> nat i < 2 \<Longrightarrow> i = 0 \<or> i = 1"
  for i :: int
  by arith

section \<open>Indexed updates of lists\<close>

lemma map_update_same: "f v = f (xs ! i) \<Longrightarrow> map f (xs[i := v]) = map f xs"
  by (cases "i < length xs") (simp_all add: map_update list_update_same_conv list_update_beyond)

lemma list_all_update: "list_all P xs \<Longrightarrow> P v \<Longrightarrow> list_all P (xs[i := v])"
  by (auto simp: list_all_iff dest: set_update_subset_insert [THEN subsetD])

lemma ball_set_update:
  "\<forall>x \<in> set xs. P x \<Longrightarrow> P v \<Longrightarrow> \<forall>x \<in> set (xs[i := v]). P x"
  by (auto dest: set_update_subset_insert [THEN subsetD])

section \<open>reduce with an accumulator\<close>

text \<open>
  \<^verbatim>\<open>xs.reduce((acc, m) => acc + f(m), 0)\<close> is a left fold; its value is the sum
  of \<open>f\<close> over the array.
\<close>

lemma foldl_add_map: "foldl (\<lambda>acc x. acc + f x) a xs = a + sum_list (map f xs)"
  for a :: nat
  by (induction xs arbitrary: a) simp_all

lemma sum_list_le_length: "(\<And>x. x \<in> set xs \<Longrightarrow> f x \<le> k) \<Longrightarrow> sum_list (map f xs) \<le> k * length xs"
  for k :: nat
  by (induction xs) (simp_all add: add_mono)

section \<open>Numbers in template strings\<close>

text \<open>
  \<^verbatim>\<open>`${n}`\<close> for a natural number \<open>n\<close>: its decimal digits, most
  significant first, with no leading zero.
\<close>

definition digit :: "nat \<Rightarrow> char" where
  "digit d = char_of (48 + d)"

fun show_nat :: "nat \<Rightarrow> string" where
  "show_nat n = (if n < 10 then [digit n] else show_nat (n div 10) @ [digit (n mod 10)])"

declare show_nat.simps [simp del]

lemma show_nat_digit: "n < 10 \<Longrightarrow> show_nat n = [digit n]"
  by (simp add: show_nat.simps)

lemma show_nat_step: "10 \<le> n \<Longrightarrow> show_nat n = show_nat (n div 10) @ [digit (n mod 10)]"
  by (subst show_nat.simps) simp

lemma show_nat_nonempty [simp]: "show_nat n \<noteq> []"
  by (subst show_nat.simps) simp

lemma length_show_nat_small: "n < 100 \<Longrightarrow> length (show_nat n) = (if n < 10 then 1 else 2)"
  by (simp add: show_nat_digit show_nat_step)

section \<open>The random source\<close>

text \<open>
  \<^verbatim>\<open>Math.random()\<close> takes the next number of a stream that the caller supplies:
  the model is deterministic in the stream, and a statement about every stream
  is a statement about every outcome of the draws. The numbers of the stream
  are meant to lie in \<open>[0, 1)\<close>; no theorem needs it.
\<close>

type_synonym rng = "real stream"

definition Math_random :: "(rng, real) state" where
  "Math_random = State (\<lambda>s. (shd s, stl s))"

lemma run_Math_random [simp]: "run_state Math_random s = (shd s, stl s)"
  by (simp add: Math_random_def)

definition draws :: "nat \<Rightarrow> rng \<Rightarrow> rng" where
  "draws n s = sdrop n s"

lemma draws_simps [simp]: "draws 0 s = s" "draws (Suc n) s = draws n (stl s)"
  by (simp_all add: draws_def)

lemma stl_draws [simp]: "stl (draws n s) = draws n (stl s)"
  by (induction n arbitrary: s) simp_all

lemma shd_draws: "shd (draws n s) = s !! n"
  by (simp add: draws_def)

lemma draws_add: "draws m (draws n s) = draws (n + m) s"
  by (simp add: draws_def sdrop_add add.commute)

section \<open>Lists of four and of two\<close>

lemma list4: "length xs = 4 \<Longrightarrow> xs = [xs ! 0, xs ! 1, xs ! 2, xs ! 3]"
  by (auto simp: list_eq_iff_nth_eq less_Suc_eq numeral_eq_Suc)

lemma list2: "length xs = 2 \<Longrightarrow> xs = [xs ! 0, xs ! 1]"
  by (auto simp: list_eq_iff_nth_eq less_Suc_eq numeral_eq_Suc)

lemma map_four: "length xs = 4 \<Longrightarrow> map f xs = [f (xs ! 0), f (xs ! 1), f (xs ! 2), f (xs ! 3)]"
  using list4 [of "map f xs"] by simp

end
