(* ===== verification/Bracket.thy ===== *)
theory Bracket
  imports Prelude
begin

text \<open>
  The data of \<^verbatim>\<open>src/app/page.tsx\<close>: the types \<^verbatim>\<open>Team\<close> and \<^verbatim>\<open>Match\<close>, the
  registry \<^verbatim>\<open>initialTeams\<close>, the four state variables of the component
  \<^verbatim>\<open>Home\<close> with their initial values, and the well-formedness predicates the
  operations are shown to keep. An optional property (\<^verbatim>\<open>teamA?: Team\<close>) is an
  \<open>option\<close>: \<open>None\<close> stands for a property that is absent and for one that
  holds \<^verbatim>\<open>undefined\<close>, which no expression of the source tells apart.
\<close>

section \<open>Teams and matches\<close>

record Team =
  team_id :: int
  team_name :: string

record Match =
  match_id :: string
  teamA :: "Team option"
  teamB :: "Team option"
  winner :: "Team option"
  outcome :: "Team option"

definition initialTeams :: "Team list" where
  "initialTeams =
    [\<lparr>team_id = 1, team_name = ''papaneus''\<rparr>,
     \<lparr>team_id = 2, team_name = ''morrog''\<rparr>,
     \<lparr>team_id = 3, team_name = ''faralley''\<rparr>,
     \<lparr>team_id = 4, team_name = ''puxque''\<rparr>,
     \<lparr>team_id = 5, team_name = ''sejecem''\<rparr>,
     \<lparr>team_id = 6, team_name = ''salina''\<rparr>,
     \<lparr>team_id = 7, team_name = ''issy''\<rparr>,
     \<lparr>team_id = 8, team_name = ''milan''\<rparr>]"

text \<open>
  The object literals \<^verbatim>\<open>{ id: i }\<close> and \<^verbatim>\<open>{ id: i, teamA: a, teamB: b }\<close>:
  every property the literal does not name is absent.
\<close>

definition emptyMatch :: "string \<Rightarrow> Match" where
  "emptyMatch i = \<lparr>match_id = i, teamA = None, teamB = None, winner = None, outcome = None\<rparr>"

definition seededMatch :: "string \<Rightarrow> Team option \<Rightarrow> Team option \<Rightarrow> Match" where
  "seededMatch i a b = \<lparr>match_id = i, teamA = a, teamB = b, winner = None, outcome = None\<rparr>"

section \<open>The state of the component\<close>

text \<open>
  One field per \<^verbatim>\<open>useState\<close> hook of \<^verbatim>\<open>Home\<close>. The derived values
  (\<^verbatim>\<open>points\<close>, \<^verbatim>\<open>champion\<close>) are functions of this record and are not stored.
\<close>

record home_state =
  qf :: "Match list"
  sf :: "Match list"
  finalMatch :: Match
  announced :: "nat list"

definition initialQf :: "Match list" where
  "initialQf =
    [seededMatch ''QF1'' (js_nth initialTeams 0) (js_nth initialTeams 1),
     seededMatch ''QF2'' (js_nth initialTeams 2) (js_nth initialTeams 3),
     seededMatch ''QF3'' (js_nth initialTeams 4) (js_nth initialTeams 5),
     seededMatch ''QF4'' (js_nth initialTeams 6) (js_nth initialTeams 7)]"

definition initialSf :: "Match list" where
  "initialSf = [emptyMatch ''SF1'', emptyMatch ''SF2'']"

definition initialFinal :: Match where
  "initialFinal = emptyMatch ''F''"

definition init_state :: home_state where
  "init_state = \<lparr>qf = initialQf, sf = initialSf, finalMatch = initialFinal, announced = []\<rparr>"

lemmas init_defs =
  init_state_def initialQf_def initialSf_def initialFinal_def initialTeams_def
  emptyMatch_def seededMatch_def

text \<open>The seven matches in the order the score and the simulation visit them.\<close>

definition matches :: "home_state \<Rightarrow> Match list" where
  "matches s = qf s @ sf s @ [finalMatch s]"

section \<open>Well-formedness\<close>

text \<open>
  \<open>shape_ok\<close>: four quarterfinals, two semifinals, one final, each under its own
  identifier. \<open>seeded\<close>: the quarterfinals hold the registry's teams pairwise.
\<close>

definition shape_ok :: "home_state \<Rightarrow> bool" where
  [inv_defs]: "shape_ok s \<longleftrightarrow>
    map match_id (qf s) = [''QF1'', ''QF2'', ''QF3'', ''QF4''] \<and>
    map match_id (sf s) = [''SF1'', ''SF2''] \<and>
    match_id (finalMatch s) = ''F''"

definition seeded :: "home_state \<Rightarrow> bool" where
  [inv_defs]: "seeded s \<longleftrightarrow>
    map teamA (qf s) = map teamA initialQf \<and> map teamB (qf s) = map teamB initialQf"

text \<open>
  A recorded team (a pick or an outcome) is consistent with a match when it is
  absent or occupies one of the two slots.
\<close>

definition in_slots :: "Team option \<Rightarrow> Match \<Rightarrow> bool" where
  [inv_defs]: "in_slots t m \<longleftrightarrow> t = None \<or> t = teamA m \<or> t = teamB m"

definition pick_ok :: "Match \<Rightarrow> bool" where
  [inv_defs]: "pick_ok m \<longleftrightarrow> in_slots (winner m) m"

definition outcome_ok :: "Match \<Rightarrow> bool" where
  [inv_defs]: "outcome_ok m \<longleftrightarrow> in_slots (outcome m) m"

text \<open>Every team a match mentions is one of the registry.\<close>

definition teams_of :: "Match \<Rightarrow> Team set" where
  "teams_of m = set_option (teamA m) \<union> set_option (teamB m) \<union>
    set_option (winner m) \<union> set_option (outcome m)"

definition known :: "Match \<Rightarrow> bool" where
  [inv_defs]: "known m \<longleftrightarrow> teams_of m \<subseteq> set initialTeams"

text \<open>
  The slots of the later rounds agree with the picks of the earlier ones.
  \<open>feeds\<close>: each semifinal slot holds exactly the pick of its quarterfinal.
  \<open>final_fed\<close>: a filled slot of the final holds the pick of its semifinal
  (an empty one says nothing: a quarterfinal pick empties the final).
\<close>

definition feeds :: "home_state \<Rightarrow> bool" where
  [inv_defs]: "feeds s \<longleftrightarrow>
    teamA (sf s ! 0) = winner (qf s ! 0) \<and> teamB (sf s ! 0) = winner (qf s ! 1) \<and>
    teamA (sf s ! 1) = winner (qf s ! 2) \<and> teamB (sf s ! 1) = winner (qf s ! 3)"

definition final_fed :: "home_state \<Rightarrow> bool" where
  [inv_defs]: "final_fed s \<longleftrightarrow>
    (teamA (finalMatch s) \<noteq> None \<longrightarrow> teamA (finalMatch s) = winner (sf s ! 0)) \<and>
    (teamB (finalMatch s) \<noteq> None \<longrightarrow> teamB (finalMatch s) = winner (sf s ! 1))"

text \<open>The predicates on matches, lifted to the seven matches of a state.\<close>

definition outcomes_ok :: "home_state \<Rightarrow> bool" where
  [inv_defs]: "outcomes_ok s \<longleftrightarrow> list_all outcome_ok (qf s) \<and> outcome_ok (finalMatch s)"


definition picks_ok :: "home_state \<Rightarrow> bool" where
  [inv_defs]: "picks_ok s \<longleftrightarrow> list_all pick_ok (matches s)"

definition registered :: "home_state \<Rightarrow> bool" where
  [inv_defs]: "registered s \<longleftrightarrow> list_all known (matches s)"

lemma list_all_matches:
  "list_all P (matches s) \<longleftrightarrow> list_all P (qf s) \<and> list_all P (sf s) \<and> P (finalMatch s)"
  by (simp add: matches_def)

lemmas picks_ok_iff = picks_ok_def [unfolded list_all_matches]
lemmas registered_iff = registered_def [unfolded list_all_matches]

section \<open>Facts about the registry and the initial state\<close>

lemma length_initialTeams [simp]: "length initialTeams = 8"
  by (simp add: initialTeams_def)

lemma js_nth_initialTeams:
  "js_nth initialTeams i = (if 0 \<le> i \<and> i < 8 then Some (initialTeams ! nat i) else None)"
  by (auto simp: js_nth_def)

lemma distinct_team_ids: "distinct (map team_id initialTeams)"
  by (simp add: initialTeams_def)

lemma team_id_inj:
  assumes "t \<in> set initialTeams" "u \<in> set initialTeams"
  shows "team_id t = team_id u \<longleftrightarrow> t = u"
  using assms distinct_team_ids by (auto simp: distinct_map dest: inj_onD)

lemma shape_ok_lengths: "shape_ok s \<Longrightarrow> length (qf s) = 4 \<and> length (sf s) = 2"
  by (auto simp: shape_ok_def dest: arg_cong [where f = length])

lemma length_matches: "shape_ok s \<Longrightarrow> length (matches s) = 7"
  by (simp add: matches_def shape_ok_lengths)

lemma shape_ok_init [simp]: "shape_ok init_state"
  by (simp add: shape_ok_def init_defs)

lemma seeded_init [simp]: "seeded init_state"
  by (simp add: seeded_def init_state_def)

lemma known_empty [simp]: "known (emptyMatch i)"
  by (simp add: known_def teams_of_def emptyMatch_def)

lemma known_seeded [simp]:
  "known (seededMatch i (js_nth initialTeams j) (js_nth initialTeams k))"
  by (auto simp: known_def teams_of_def seededMatch_def dest: js_nth_in_set)

lemma registered_init [simp]: "registered init_state"
  by (simp add: registered_iff init_state_def initialQf_def initialSf_def initialFinal_def)

lemma list_all_nthD: "list_all P xs \<Longrightarrow> n < length xs \<Longrightarrow> P (xs ! n)"
  by (simp add: list_all_length)

lemma pick_ok_empty [simp]: "pick_ok (emptyMatch i)" "pick_ok (seededMatch i a b)"
  by (simp_all add: inv_defs emptyMatch_def seededMatch_def)

lemma outcome_ok_empty [simp]: "outcome_ok (emptyMatch i)" "outcome_ok (seededMatch i a b)"
  by (simp_all add: inv_defs emptyMatch_def seededMatch_def)

lemma picks_ok_init [simp]: "picks_ok init_state"
  by (simp add: picks_ok_iff init_state_def initialQf_def initialSf_def initialFinal_def)

lemma feeds_init [simp]: "feeds init_state"
  by (simp add: feeds_def init_state_def initialQf_def initialSf_def seededMatch_def emptyMatch_def)

lemma final_fed_init [simp]: "final_fed init_state"
  by (simp add: final_fed_def init_state_def initialFinal_def emptyMatch_def)

lemma outcomes_ok_init [simp]: "outcomes_ok init_state"
  by (simp add: outcomes_ok_def init_state_def initialQf_def initialFinal_def)

lemma announced_init [simp]: "announced init_state = []"
  by (simp add: init_state_def)

lemma inv_announced_update [simp]:
  "shape_ok (s\<lparr>announced := a\<rparr>) = shape_ok s" "seeded (s\<lparr>announced := a\<rparr>) = seeded s"
  "picks_ok (s\<lparr>announced := a\<rparr>) = picks_ok s" "registered (s\<lparr>announced := a\<rparr>) = registered s"
  "feeds (s\<lparr>announced := a\<rparr>) = feeds s" "final_fed (s\<lparr>announced := a\<rparr>) = final_fed s"
  "outcomes_ok (s\<lparr>announced := a\<rparr>) = outcomes_ok s"
  by (simp_all add: inv_defs matches_def)

lemma seeded_slots:
  assumes "seeded s" "shape_ok s" "m \<in> set (qf s)"
  shows "teamA m \<noteq> None \<and> teamB m \<noteq> None"
proof -
  from assms(3) obtain k where k: "k < length (qf s)" "m = qf s ! k"
    by (auto simp: in_set_conv_nth)
  with assms(2) have "k < 4" by (simp add: shape_ok_lengths)
  moreover from assms(1) k have "teamA m = map teamA initialQf ! k" "teamB m = map teamB initialQf ! k"
    by (auto simp: seeded_def dest: arg_cong [where f = "\<lambda>xs. xs ! k"])
  ultimately show ?thesis
    by (auto simp: init_defs less_Suc_eq numeral_eq_Suc)
qed

end
