(* ===== verification/Propagation.thy ===== *)
theory Propagation
  imports Bracket
begin

text \<open>
  The handlers \<^verbatim>\<open>handlePick\<close> and \<^verbatim>\<open>handleReset\<close> of \<^verbatim>\<open>src/app/page.tsx\<close>.
  \<^verbatim>\<open>handlePick\<close> queues one updater per state variable it touches; each updater
  is a definition here (\<open>setWinner\<close>, \<open>propagateToSf\<close>, \<open>clearFinal\<close>,
  \<open>propagateToFinal\<close>, \<open>pickFinal\<close>), and \<open>handlePick_seen\<close> composes them as
  the handler does. Two of the updaters read \<^verbatim>\<open>qf\<close> and \<^verbatim>\<open>sf\<close> from the
  closure of the render that created the handler, not from the state they
  update: \<open>handlePick_seen\<close> takes that closure as its first argument, and
  \<open>handlePick\<close> is the handler of a render that has seen the current state.
  An updater that reads a property of \<^verbatim>\<open>undefined\<close> throws; the handler's
  result is then \<open>Inl TypeError\<close>. The rounds are ordered as they are
  played (\<open>round\<close> is a linear order): a pick changes nothing in an earlier
  round, and picks in different matches of one round commute.
\<close>

section \<open>Arguments of the handler\<close>

datatype round = QF | SF | F

datatype side = A | B

section \<open>The updaters\<close>

definition pickedTeam :: "side \<Rightarrow> Match \<Rightarrow> Team option" where
  "pickedTeam p m = (if p = A then teamA m else teamB m)"

definition setWinner :: "int \<Rightarrow> side \<Rightarrow> Match list \<Rightarrow> Match list result" where
  "setWinner i p prev =
    (case js_nth prev i of
       None \<Rightarrow> Inl TypeError
     | Some m \<Rightarrow> js_set prev i (m\<lparr>winner := pickedTeam p m\<rparr>))"

definition propagateToSf :: "Match list \<Rightarrow> int \<Rightarrow> side \<Rightarrow> Match list \<Rightarrow> Match list result" where
  "propagateToSf qf_seen i p prev =
    (case js_nth qf_seen i of
       None \<Rightarrow> Inl TypeError
     | Some sourceMatch \<Rightarrow>
         (let w = pickedTeam p sourceMatch;
              targetIndex = (if i < 2 then 0 else 1);
              isFirstSlot = (i mod 2 = 0);
              target = (case js_nth prev targetIndex of
                          Some t \<Rightarrow> t
                        | None \<Rightarrow> emptyMatch (if targetIndex = 0 then ''SF1'' else ''SF2''))
          in js_set prev targetIndex
               (target\<lparr>teamA := if isFirstSlot then w else teamA target,
                       teamB := if \<not> isFirstSlot then w else teamB target,
                       winner := None\<rparr>)))"

definition clearFinal :: "Match \<Rightarrow> Match" where
  "clearFinal prev = emptyMatch (match_id prev)"

definition propagateToFinal :: "Match list \<Rightarrow> int \<Rightarrow> side \<Rightarrow> Match \<Rightarrow> Match result" where
  "propagateToFinal sf_seen i p prev =
    (case js_nth sf_seen i of
       None \<Rightarrow> Inl TypeError
     | Some sourceMatch \<Rightarrow>
         (let w = pickedTeam p sourceMatch;
              isFirstSlot = (i = 0)
          in Inr \<lparr>match_id = ''F'',
                  teamA = if isFirstSlot then w else teamA prev,
                  teamB = if \<not> isFirstSlot then w else teamB prev,
                  winner = None,
                  outcome = None\<rparr>))"

definition pickFinal :: "side \<Rightarrow> Match \<Rightarrow> Match" where
  "pickFinal p prev = prev\<lparr>winner := pickedTeam p prev\<rparr>"

section \<open>The handlers\<close>

fun handlePick_seen :: "home_state \<Rightarrow> round \<Rightarrow> int \<Rightarrow> side \<Rightarrow> home_state \<Rightarrow> home_state result" where
  "handlePick_seen seen QF i p s =
     rbind (setWinner i p (qf s)) (\<lambda>qf'.
     rbind (propagateToSf (qf seen) i p (sf s)) (\<lambda>sf'.
     Inr (s\<lparr>qf := qf', sf := sf', finalMatch := clearFinal (finalMatch s)\<rparr>)))"
| "handlePick_seen seen SF i p s =
     rbind (setWinner i p (sf s)) (\<lambda>sf'.
     rbind (propagateToFinal (sf seen) i p (finalMatch s)) (\<lambda>f'.
     Inr (s\<lparr>sf := sf', finalMatch := f'\<rparr>)))"
| "handlePick_seen seen F i p s =
     Inr (s\<lparr>finalMatch := pickFinal p (finalMatch s)\<rparr>)"

definition handlePick :: "round \<Rightarrow> int \<Rightarrow> side \<Rightarrow> home_state \<Rightarrow> home_state result" where
  "handlePick r i p s = handlePick_seen s r i p s"

definition handleReset :: "home_state \<Rightarrow> home_state" where
  "handleReset s =
    s\<lparr>qf := [seededMatch ''QF1'' (js_nth initialTeams 0) (js_nth initialTeams 1),
              seededMatch ''QF2'' (js_nth initialTeams 2) (js_nth initialTeams 3),
              seededMatch ''QF3'' (js_nth initialTeams 4) (js_nth initialTeams 5),
              seededMatch ''QF4'' (js_nth initialTeams 6) (js_nth initialTeams 7)],
      sf := [emptyMatch ''SF1'', emptyMatch ''SF2''],
      finalMatch := emptyMatch ''F''\<rparr>"

lemmas updater_defs [model_defs] =
  setWinner_def propagateToSf_def clearFinal_def propagateToFinal_def pickFinal_def

fun_cases handlePick_seen_QF_E: "handlePick_seen seen QF i p s = Inr t"
fun_cases handlePick_seen_SF_E: "handlePick_seen seen SF i p s = Inr t"
fun_cases handlePick_seen_F_E: "handlePick_seen seen F i p s = Inr t"

section \<open>The slot a match feeds\<close>

text \<open>
  The topology of the bracket as the handler computes it: quarterfinal \<open>i\<close>
  feeds semifinal \<open>target i\<close>, in the first slot when \<open>i\<close> is even; semifinal
  \<open>i\<close> feeds the final, in the first slot when \<open>i = 0\<close>.
\<close>

definition target :: "int \<Rightarrow> nat" where
  "target i = (if i < 2 then 0 else 1)"

definition slot :: "side \<Rightarrow> Match \<Rightarrow> Team option" where
  "slot p m = (case p of A \<Rightarrow> teamA m | B \<Rightarrow> teamB m)"

definition feedSide :: "int \<Rightarrow> side" where
  "feedSide i = (if i mod 2 = 0 then A else B)"

text \<open>The position of a slot in its match.\<close>

definition offset :: "side \<Rightarrow> nat" where
  "offset p = (if p = A then 0 else 1)"

lemma offset_less: "offset p < 2"
  by (simp add: offset_def)

lemma pickedTeam_eq_slot: "pickedTeam p m = slot p m"
  by (cases p) (simp_all add: pickedTeam_def slot_def)

lemma pickedTeam_simps [simp]: "pickedTeam A m = teamA m" "pickedTeam B m = teamB m"
  by (simp_all add: pickedTeam_def)

lemma slot_simps [simp]: "slot A m = teamA m" "slot B m = teamB m"
  by (simp_all add: slot_def)

lemma pickedTeam_in_slots: "in_slots (pickedTeam p m) m"
  by (cases p) (simp_all add: in_slots_def)

lemma target_less [simp]: "target i < 2"
  by (simp add: target_def)

section \<open>What an updater writes\<close>

text \<open>
  \<open>picked p m\<close> is the match with the pick recorded, \<open>fed first w t\<close> the
  match that received \<open>w\<close> in its first or second slot and lost its pick.
  The updaters are these two functions applied at an index, when the index
  is one of the array.
\<close>

definition picked :: "side \<Rightarrow> Match \<Rightarrow> Match" where
  "picked p m = m\<lparr>winner := pickedTeam p m\<rparr>"

definition fed :: "bool \<Rightarrow> Team option \<Rightarrow> Match \<Rightarrow> Match" where
  "fed first w t = t\<lparr>teamA := if first then w else teamA t,
                     teamB := if \<not> first then w else teamB t,
                     winner := None\<rparr>"

lemma picked_fields [simp]:
  "match_id (picked p m) = match_id m" "teamA (picked p m) = teamA m"
  "teamB (picked p m) = teamB m" "outcome (picked p m) = outcome m"
  "winner (picked p m) = slot p m"
  by (simp_all add: picked_def pickedTeam_eq_slot)

lemma fed_fields [simp]:
  "match_id (fed first w t) = match_id t" "outcome (fed first w t) = outcome t"
  "winner (fed first w t) = None"
  "teamA (fed first w t) = (if first then w else teamA t)"
  "teamB (fed first w t) = (if first then teamB t else w)"
  by (simp_all add: fed_def)

lemma pick_ok_picked [simp]: "pick_ok (picked p m)"
  by (cases p) (simp_all add: pick_ok_def in_slots_def)

lemma pick_ok_fed [simp]: "pick_ok (fed first w t)"
  by (simp add: pick_ok_def in_slots_def)

lemma pick_ok_relabel [simp]: "pick_ok (m\<lparr>match_id := x, outcome := y\<rparr>) = pick_ok m"
  by (simp add: pick_ok_def in_slots_def)

lemma known_picked [simp]: "known m \<Longrightarrow> known (picked p m)"
  by (cases p) (auto simp: known_def teams_of_def)

lemma known_fed [simp]: "known m \<Longrightarrow> known t \<Longrightarrow> known (fed first (pickedTeam p m) t)"
  by (cases p) (auto simp: known_def teams_of_def)

lemma known_relabel [simp]: "known m \<Longrightarrow> known (m\<lparr>match_id := x, outcome := None\<rparr>)"
  by (auto simp: known_def teams_of_def)

lemma setWinner_eq:
  "setWinner i p prev =
    (if 0 \<le> i \<and> nat i < length prev then Inr (prev[nat i := picked p (prev ! nat i)])
     else Inl TypeError)"
  by (simp add: setWinner_def js_nth_def picked_def)

lemma propagateToSf_eq:
  assumes "length prev = 2"
  shows "propagateToSf qs i p prev =
    (if 0 \<le> i \<and> nat i < length qs
     then Inr (prev[target i := fed (i mod 2 = 0) (pickedTeam p (qs ! nat i)) (prev ! target i)])
     else Inl TypeError)"
  using assms by (simp add: propagateToSf_def js_nth_def fed_def target_def Let_def)

lemma propagateToFinal_eq:
  "propagateToFinal ss i p prev =
    (if 0 \<le> i \<and> nat i < length ss
     then Inr ((fed (i = 0) (pickedTeam p (ss ! nat i)) prev)\<lparr>match_id := ''F'', outcome := None\<rparr>)
     else Inl TypeError)"
  by (simp add: propagateToFinal_def js_nth_def fed_def Let_def)

section \<open>What the handler returns\<close>

lemma handlePick_QF_eq:
  assumes "length (sf s) = 2"
  shows "handlePick QF i p s =
    (if 0 \<le> i \<and> nat i < length (qf s)
     then Inr (s\<lparr>qf := (qf s)[nat i := picked p (qf s ! nat i)],
               sf := (sf s)[target i :=
                       fed (i mod 2 = 0) (pickedTeam p (qf s ! nat i)) (sf s ! target i)],
               finalMatch := emptyMatch (match_id (finalMatch s))\<rparr>)
     else Inl TypeError)"
  using assms by (simp add: handlePick_def setWinner_eq propagateToSf_eq clearFinal_def)

lemma handlePick_SF_eq:
  "handlePick SF i p s =
    (if 0 \<le> i \<and> nat i < length (sf s)
     then Inr (s\<lparr>sf := (sf s)[nat i := picked p (sf s ! nat i)],
               finalMatch := (fed (i = 0) (pickedTeam p (sf s ! nat i)) (finalMatch s))
                               \<lparr>match_id := ''F'', outcome := None\<rparr>\<rparr>)
     else Inl TypeError)"
  by (simp add: handlePick_def setWinner_eq propagateToFinal_eq)

lemma handlePick_F_eq:
  "handlePick F i p s = Inr (s\<lparr>finalMatch := picked p (finalMatch s)\<rparr>)"
  by (simp add: handlePick_def pickFinal_def picked_def)

lemmas handlePick_eqs = handlePick_QF_eq handlePick_SF_eq handlePick_F_eq

lemma handlePick_cases [consumes 2, case_names QF SF F]:
  assumes "handlePick r i p s = Inr s'" "length (sf s) = 2"
    and "\<lbrakk>r = QF; 0 \<le> i; nat i < length (qf s); length (sf s) = 2;
          s' = s\<lparr>qf := (qf s)[nat i := picked p (qf s ! nat i)],
               sf := (sf s)[target i :=
                       fed (i mod 2 = 0) (pickedTeam p (qf s ! nat i)) (sf s ! target i)],
               finalMatch := emptyMatch (match_id (finalMatch s))\<rparr>\<rbrakk> \<Longrightarrow> P"
    and "\<lbrakk>r = SF; 0 \<le> i; nat i < 2; length (sf s) = 2;
          s' = s\<lparr>sf := (sf s)[nat i := picked p (sf s ! nat i)],
               finalMatch := (fed (i = 0) (pickedTeam p (sf s ! nat i)) (finalMatch s))
                               \<lparr>match_id := ''F'', outcome := None\<rparr>\<rparr>\<rbrakk> \<Longrightarrow> P"
    and "\<lbrakk>r = F; s' = s\<lparr>finalMatch := picked p (finalMatch s)\<rparr>\<rbrakk> \<Longrightarrow> P"
  shows P
  using assms by (cases r) (auto simp: handlePick_eqs split: if_splits)

lemma picked_picked [simp]: "picked p (picked p m) = picked p m"
  by (cases p) (simp_all add: picked_def)

lemma pickedTeam_picked [simp]: "pickedTeam p (picked q m) = pickedTeam p m"
  by (cases p) (simp_all add: picked_def)

lemma fed_fed [simp]: "fed b w (fed b w t) = fed b w t"
  by (simp add: fed_def)

lemma fed_relabel:
  "fed b w ((fed b w t)\<lparr>match_id := x, outcome := None\<rparr>) =
    (fed b w t)\<lparr>match_id := x, outcome := None\<rparr>"
  by (simp add: fed_def)

section \<open>The match a pick addresses\<close>

definition match_at :: "round \<Rightarrow> home_state \<Rightarrow> int \<Rightarrow> Match option" where
  "match_at r s i =
    (case r of QF \<Rightarrow> js_nth (qf s) i | SF \<Rightarrow> js_nth (sf s) i | F \<Rightarrow> Some (finalMatch s))"

definition valid_index :: "round \<Rightarrow> int \<Rightarrow> bool" where
  "valid_index r i =
    (case r of QF \<Rightarrow> 0 \<le> i \<and> i < 4 | SF \<Rightarrow> 0 \<le> i \<and> i < 2 | F \<Rightarrow> True)"

lemma match_at_simps [simp]:
  "match_at QF s i = js_nth (qf s) i" "match_at SF s i = js_nth (sf s) i"
  "match_at F s i = Some (finalMatch s)"
  by (simp_all add: match_at_def)

lemma valid_index_simps [simp]:
  "valid_index QF i \<longleftrightarrow> 0 \<le> i \<and> i < 4" "valid_index SF i \<longleftrightarrow> 0 \<le> i \<and> i < 2"
  "valid_index F i"
  by (simp_all add: valid_index_def)

section \<open>The order of the rounds\<close>

text \<open>
  The rounds in the order in which they are played. A pick moves teams into
  later rounds only, which the order lets the lemmas say.
\<close>

fun rank :: "round \<Rightarrow> nat" where
  "rank QF = 0"
| "rank SF = 1"
| "rank F = 2"

lemma rank_inj: "rank r = rank r' \<Longrightarrow> r = r'"
  by (cases r; cases r') simp_all

instantiation round :: linorder
begin

definition less_eq_round :: "round \<Rightarrow> round \<Rightarrow> bool" where
  "less_eq_round r r' \<longleftrightarrow> rank r \<le> rank r'"

definition less_round :: "round \<Rightarrow> round \<Rightarrow> bool" where
  "less_round r r' \<longleftrightarrow> rank r < rank r'"

instance
  by standard (auto simp: less_eq_round_def less_round_def dest: rank_inj)

end

lemma round_less_simps [simp]:
  "r < QF \<longleftrightarrow> False" "r < SF \<longleftrightarrow> r = QF" "r < F \<longleftrightarrow> r \<noteq> F"
  by (cases r; simp add: less_round_def)+

lemma js_nth_update_other:
  "0 \<le> i \<Longrightarrow> j \<noteq> i \<Longrightarrow> js_nth (xs[nat i := v]) j = js_nth xs j"
  by (auto simp: js_nth_def)

section \<open>Preservation of well-formedness\<close>

lemma handlePick_shape_ok:
  assumes "handlePick r i p s = Inr s'" "shape_ok s"
  shows "shape_ok s'"
proof -
  from assms(2) have len: "length (sf s) = 2" by (simp add: shape_ok_lengths)
  from assms(1) len show ?thesis
    using assms(2)
    by (cases rule: handlePick_cases) (simp_all add: shape_ok_def map_update_same emptyMatch_def)
qed

lemma handlePick_seeded:
  assumes "handlePick r i p s = Inr s'" "shape_ok s" "seeded s"
  shows "seeded s'"
proof -
  from assms(2) have len: "length (sf s) = 2" by (simp add: shape_ok_lengths)
  from assms(1) len show ?thesis
    using assms(3) by (cases rule: handlePick_cases) (simp_all add: seeded_def map_update_same)
qed

lemma handlePick_picks_ok:
  assumes "handlePick r i p s = Inr s'" "shape_ok s" "picks_ok s"
  shows "picks_ok s'"
proof -
  from assms(2) have len: "length (sf s) = 2" by (simp add: shape_ok_lengths)
  from assms(1) len show ?thesis
    using assms(3)
    by (cases rule: handlePick_cases) (simp_all add: picks_ok_iff list_all_update)
qed

lemma handlePick_registered:
  assumes "handlePick r i p s = Inr s'" "shape_ok s" "registered s"
  shows "registered s'"
proof -
  from assms(2) have len: "length (sf s) = 2" by (simp add: shape_ok_lengths)
  from assms(1) len show ?thesis
    using assms(3)
    by (cases rule: handlePick_cases)
       (simp_all add: registered_iff list_all_update list_all_nthD)
qed

lemma handlePick_feeds:
  assumes "handlePick r i p s = Inr s'" "shape_ok s" "feeds s"
  shows "feeds s'"
proof -
  from assms(2) have len: "length (sf s) = 2" "length (qf s) = 4"
    by (simp_all add: shape_ok_lengths)
  from assms(1) len(1) show ?thesis
  proof (cases rule: handlePick_cases)
    case QF
    from QF(2,3) len have "i = 0 \<or> i = 1 \<or> i = 2 \<or> i = 3"
      by (auto dest: index_cases4)
    with QF assms(3) len show ?thesis
      by (auto simp: feeds_def target_def pickedTeam_eq_slot)
  next
    case SF
    from SF(2,3) have "i = 0 \<or> i = 1"
      by (auto dest: index_cases2)
    with SF assms(3) len show ?thesis
      by (auto simp: feeds_def)
  next
    case F
    with assms(3) show ?thesis by (simp add: feeds_def)
  qed
qed

lemma handlePick_final_fed:
  assumes "handlePick r i p s = Inr s'" "shape_ok s" "final_fed s"
  shows "final_fed s'"
proof -
  from assms(2) have len: "length (sf s) = 2" "length (qf s) = 4"
    by (simp_all add: shape_ok_lengths)
  from assms(1) len(1) show ?thesis
  proof (cases rule: handlePick_cases)
    case QF
    from QF(5) show ?thesis by (simp add: final_fed_def emptyMatch_def)
  next
    case SF
    from SF(2,3) have "i = 0 \<or> i = 1"
      by (auto dest: index_cases2)
    with SF assms(3) len show ?thesis
      by (auto simp: final_fed_def pickedTeam_eq_slot)
  next
    case F
    with assms(3) show ?thesis by (simp add: final_fed_def)
  qed
qed

lemma outcome_ok_picked [simp]: "outcome_ok (picked p m) = outcome_ok m"
  by (simp add: outcome_ok_def in_slots_def)

lemma outcome_ok_cleared [simp]: "outcome_ok (m\<lparr>match_id := x, outcome := None\<rparr>)"
  by (simp add: outcome_ok_def in_slots_def)

lemma handlePick_outcomes_ok:
  assumes "handlePick r i p s = Inr s'" "shape_ok s" "outcomes_ok s"
  shows "outcomes_ok s'"
proof -
  from assms(2) have len: "length (sf s) = 2" by (simp add: shape_ok_lengths)
  from assms(1) len show ?thesis
    using assms(3)
    by (cases rule: handlePick_cases)
       (simp_all add: outcomes_ok_def list_all_update list_all_nthD)
qed

lemma handlePick_announced [frame]:
  assumes "handlePick r i p s = Inr s'" "length (sf s) = 2"
  shows "announced s' = announced s"
  using assms by (cases rule: handlePick_cases) simp_all

lemma handleReset_eq_init: "handleReset s = init_state\<lparr>announced := announced s\<rparr>"
  by (simp add: handleReset_def init_state_def initialQf_def initialSf_def initialFinal_def)

lemma handleReset_fields [simp]:
  "qf (handleReset s) = initialQf" "sf (handleReset s) = initialSf"
  "finalMatch (handleReset s) = initialFinal" "announced (handleReset s) = announced s"
  by (simp_all add: handleReset_def initialQf_def initialSf_def initialFinal_def)

section \<open>A run of picks\<close>

text \<open>
  \<open>pickAll\<close> applies the handler to a list of picks, each on the state the
  previous one returned, and stops at the first that throws.
\<close>

definition pickAll :: "(round \<times> int \<times> side) list \<Rightarrow> home_state \<Rightarrow> home_state result" where
  "pickAll ps s = foldl (\<lambda>r (rd, i, p). rbind r (handlePick rd i p)) (Inr s) ps"

lemma pickAll_Nil [simp]: "pickAll [] s = Inr s"
  by (simp add: pickAll_def)

lemma foldl_rbind_Inl: "foldl (\<lambda>r (rd, i, p). rbind r (handlePick rd i p)) (Inl e) ps = Inl e"
  by (induction ps) auto

lemma pickAll_Cons [simp]:
  "pickAll ((rd, i, p) # ps) s = rbind (handlePick rd i p s) (pickAll ps)"
  by (cases "handlePick rd i p s") (simp_all add: pickAll_def foldl_rbind_Inl)

lemma pickAll_shape_ok: "pickAll ps s = Inr s' \<Longrightarrow> shape_ok s \<Longrightarrow> shape_ok s'"
proof (induction ps arbitrary: s)
  case Nil
  then show ?case by simp
next
  case (Cons x ps)
  obtain rd i p where x: "x = (rd, i, p)" by (cases x)
  with Cons.prems obtain s1 where "handlePick rd i p s = Inr s1" "pickAll ps s1 = Inr s'"
    by (auto simp: rbind_eq_Inr_iff)
  with Cons.IH Cons.prems(2) show ?case
    by (blast intro: handlePick_shape_ok)
qed

text \<open>The equations that evaluate the handlers on the initial state.\<close>

lemmas run_simps =
  handlePick_eqs init_state_def initialQf_def initialSf_def initialFinal_def
  seededMatch_def emptyMatch_def target_def feedSide_def picked_def fed_def

section \<open>Picks in different matches of a round\<close>

lemma fed_commute: "b \<noteq> c \<Longrightarrow> fed b v (fed c w t) = fed c w (fed b v t)"
  by (auto simp: fed_def)

lemma same_target_parity:
  assumes "0 \<le> i" "i < 4" "0 \<le> j" "j < 4" "i \<noteq> j" "target i = target j"
  shows "(i mod 2 = 0) \<noteq> (j mod 2 = 0)"
  using assms by (auto simp: target_def split: if_splits) presburger+

lemma QF_picks_commute:
  assumes "shape_ok s" "i \<noteq> j"
  shows "rbind (handlePick QF i p s) (handlePick QF j q) =
         rbind (handlePick QF j q s) (handlePick QF i p)"
proof -
  from assms(1) have len: "length (qf s) = 4" "length (sf s) = 2"
    by (simp_all add: shape_ok_lengths)
  show ?thesis
  proof (cases "valid_index QF i \<and> valid_index QF j")
    case True
    with assms(2) have ne: "nat i \<noteq> nat j" by auto
    show ?thesis
    proof (cases "target i = target j")
      case same: True
      from True assms(2) same have "(i mod 2 = 0) \<noteq> (j mod 2 = 0)"
        by (intro same_target_parity) simp_all
      with True ne same show ?thesis
        by (simp add: handlePick_eqs len list_update_swap [of "nat i" "nat j"] fed_commute)
    next
      case False
      with True ne show ?thesis
        by (simp add: handlePick_eqs len list_update_swap [of "nat i" "nat j"]
            list_update_swap [of "target i" "target j"])
    qed
  next
    case False
    then show ?thesis
      by (auto simp: handlePick_eqs len)
  qed
qed

lemma SF_picks_commute:
  assumes "shape_ok s" "i \<noteq> j"
  shows "rbind (handlePick SF i p s) (handlePick SF j q) =
         rbind (handlePick SF j q s) (handlePick SF i p)"
proof -
  from assms(1) have len: "length (sf s) = 2"
    by (simp add: shape_ok_lengths)
  show ?thesis
  proof (cases "valid_index SF i \<and> valid_index SF j")
    case True
    with assms(2) have ne: "nat i \<noteq> nat j" "(i = 0) \<noteq> (j = 0)" by auto
    with True show ?thesis
      by (simp add: handlePick_eqs len list_update_swap [of "nat i" "nat j"] fed_commute)
  next
    case False
    then show ?thesis
      by (auto simp: handlePick_eqs len)
  qed
qed

section \<open>Properties of a pick\<close>

text \<open>
  C2. A pick in quarterfinal \<open>i\<close> of a well-shaped bracket succeeds, puts the
  team of the chosen slot into the semifinal \<open>target i\<close>, in its first slot
  for \<open>i\<close> even and its second for \<open>i\<close> odd, and leaves that semifinal
  without a pick.
\<close>

theorem QF_pick_feeds_semifinal:
  assumes "shape_ok s" "0 \<le> i" "i < 4"
  shows "\<exists>s'. handlePick QF i p s = Inr s' \<and>
           slot (feedSide i) (sf s' ! target i) = slot p (qf s ! nat i) \<and>
           winner (sf s' ! target i) = None"
  using assms
  by (simp add: handlePick_eqs shape_ok_lengths feedSide_def nat_less_iff pickedTeam_eq_slot)

theorem QF_pick_feeds_semifinal_witness:
  "shape_ok init_state \<and> (0::int) \<le> 3 \<and> (3::int) < 4 \<and>
   (\<exists>s'. handlePick QF 3 A init_state = Inr s' \<and>
      teamB (sf s' ! 1) = js_nth initialTeams 6 \<and> winner (sf s' ! 1) = None)"
proof -
  have "\<exists>s'. handlePick QF 3 A init_state = Inr s' \<and>
      teamB (sf s' ! 1) = js_nth initialTeams 6 \<and> winner (sf s' ! 1) = None"
    using QF_pick_feeds_semifinal [OF shape_ok_init, of 3 A]
    by (simp add: feedSide_def target_def init_state_def initialQf_def seededMatch_def)
  then show ?thesis by simp
qed

text \<open>
  C3. A pick in semifinal \<open>i\<close> succeeds, puts the team of the chosen slot into
  the final, in its first slot for \<open>i = 0\<close> and its second for \<open>i = 1\<close>,
  keeps the final's other slot, and leaves the final without pick and without
  outcome.
\<close>

theorem SF_pick_feeds_final:
  assumes "shape_ok s" "0 \<le> i" "i < 2"
  shows "\<exists>s'. handlePick SF i p s = Inr s' \<and>
           slot (if i = 0 then A else B) (finalMatch s') = slot p (sf s ! nat i) \<and>
           slot (if i = 0 then B else A) (finalMatch s') =
             slot (if i = 0 then B else A) (finalMatch s) \<and>
           winner (finalMatch s') = None \<and> outcome (finalMatch s') = None"
  using assms by (simp add: handlePick_eqs shape_ok_lengths nat_less_iff pickedTeam_eq_slot)

theorem SF_pick_feeds_final_witness:
  "\<exists>s1. handlePick QF 0 B init_state = Inr s1 \<and> shape_ok s1 \<and> (0::int) \<le> 0 \<and> (0::int) < 2 \<and>
     (\<exists>s'. handlePick SF 0 A s1 = Inr s' \<and> teamA (finalMatch s') = js_nth initialTeams 1 \<and>
        teamB (finalMatch s') = None \<and> winner (finalMatch s') = None)"
proof -
  obtain s1 where s1: "handlePick QF 0 B init_state = Inr s1"
    and t: "teamA (sf s1 ! 0) = js_nth initialTeams 1" "finalMatch s1 = emptyMatch ''F''"
    by (simp add: run_simps)
  from s1 have sh: "shape_ok s1"
    using handlePick_shape_ok shape_ok_init by blast
  from SF_pick_feeds_final [OF sh, of 0 A] s1 t sh show ?thesis
    by (auto simp: emptyMatch_def)
qed

text \<open>
  C7. In every round a pick at a valid index succeeds and records, as the
  match's pick, the team of the chosen slot; the slots and the outcome of
  that match are as before.
\<close>

theorem pick_recorded:
  assumes "shape_ok s" "valid_index r i"
  shows "\<exists>s' m m'. handlePick r i p s = Inr s' \<and> match_at r s i = Some m \<and>
           match_at r s' i = Some m' \<and> winner m' = slot p m \<and>
           teamA m' = teamA m \<and> teamB m' = teamB m \<and> outcome m' = outcome m"
  using assms
  by (cases r) (auto simp: handlePick_eqs shape_ok_lengths js_nth_def)

theorem pick_recorded_witness:
  "shape_ok init_state \<and> valid_index QF 2 \<and>
   (\<exists>s' m'. handlePick QF 2 B init_state = Inr s' \<and> js_nth (qf s') 2 = Some m' \<and>
      winner m' = js_nth initialTeams 5 \<and> teamA m' = js_nth initialTeams 4)"
proof -
  have "js_nth (qf init_state) 2 =
      Some (seededMatch ''QF3'' (js_nth initialTeams 4) (js_nth initialTeams 5))"
    by (simp add: init_state_def initialQf_def)
  with pick_recorded [OF shape_ok_init, of QF 2 B] show ?thesis
    by (auto simp: seededMatch_def)
qed

text \<open>
  C17. On a well-shaped bracket the handler throws exactly when the index is
  not one of the round's matches, and what it throws is a \<open>TypeError\<close>; a
  pick in the final ignores the index and never throws.
\<close>

theorem handlePick_throws_iff:
  assumes "shape_ok s"
  shows "handlePick r i p s = Inl e \<longleftrightarrow> e = TypeError \<and> \<not> valid_index r i"
  using assms by (cases r) (auto simp: handlePick_eqs shape_ok_lengths)

theorem handlePick_throws_iff_witness:
  "shape_ok init_state \<and> handlePick QF 4 B init_state = Inl TypeError \<and>
   handlePick SF (- 1) A init_state = Inl TypeError"
  using handlePick_throws_iff [of init_state QF 4 B TypeError]
    handlePick_throws_iff [of init_state SF "- 1" A TypeError]
  by simp

text \<open>
  C21. A pick keeps the bracket well formed: the shape, the seeding of the
  quarterfinals, every pick being a team of its own match, and every team
  being one of the registry.
\<close>

theorem handlePick_keeps_wellformed:
  assumes "handlePick r i p s = Inr s'"
    and "shape_ok s" "seeded s" "picks_ok s" "registered s"
  shows "shape_ok s' \<and> seeded s' \<and> picks_ok s' \<and> registered s'"
  using assms
  by (simp add: handlePick_shape_ok handlePick_seeded handlePick_picks_ok handlePick_registered)

theorem handlePick_keeps_wellformed_witness:
  "\<exists>s'. handlePick SF 1 A init_state = Inr s' \<and> shape_ok init_state \<and> seeded init_state \<and>
     picks_ok init_state \<and> registered init_state \<and>
     shape_ok s' \<and> seeded s' \<and> picks_ok s' \<and> registered s'"
proof -
  obtain s' where s': "handlePick SF 1 A init_state = Inr s'"
    by (simp add: handlePick_eqs init_state_def initialSf_def)
  from handlePick_keeps_wellformed [OF s'] s' show ?thesis
    by simp
qed

text \<open>
  C22. A pick in a quarterfinal empties the final: both slots, the pick and the
  outcome. The semifinal that the quarterfinal does not feed keeps its pick,
  so the final can be left without the team that semifinal had sent.
\<close>

theorem QF_pick_clears_final:
  assumes "shape_ok s" "handlePick QF i p s = Inr s'"
  shows "finalMatch s' = emptyMatch ''F'' \<and>
         winner (sf s' ! (1 - target i)) = winner (sf s ! (1 - target i))"
  using assms
  by (auto simp: handlePick_eqs shape_ok_lengths shape_ok_def target_def split: if_splits)

theorem QF_pick_clears_final_witness:
  "\<exists>s s'. pickAll [(QF, 2, A), (QF, 3, A), (SF, 1, A)] init_state = Inr s \<and> shape_ok s \<and>
     handlePick QF 0 A s = Inr s' \<and> teamB (finalMatch s) = js_nth initialTeams 4 \<and>
     finalMatch s' = emptyMatch ''F'' \<and> winner (sf s' ! 1) = js_nth initialTeams 4"
proof -
  obtain s where s: "pickAll [(QF, 2, A), (QF, 3, A), (SF, 1, A)] init_state = Inr s"
    and t: "teamB (finalMatch s) = js_nth initialTeams 4"
      "winner (sf s ! 1) = js_nth initialTeams 4"
    by (simp add: run_simps)
  from s have sh: "shape_ok s"
    using pickAll_shape_ok shape_ok_init by blast
  then obtain s' where s': "handlePick QF 0 A s = Inr s'"
    by (auto simp: handlePick_eqs shape_ok_lengths)
  from QF_pick_clears_final [OF sh s'] s s' t sh show ?thesis
    by (auto simp: target_def)
qed

text \<open>
  Repeating a pick changes nothing: the handler applied again with the
  same arguments returns the state it was applied to.
\<close>

lemma handlePick_idempotent:
  assumes "shape_ok s" "handlePick r i p s = Inr s'"
  shows "handlePick r i p s' = Inr s'"
proof -
  from assms(1) have len: "length (sf s) = 2" by (simp add: shape_ok_lengths)
  from assms(2) len show ?thesis
    by (cases rule: handlePick_cases)
       (simp_all add: handlePick_eqs emptyMatch_def fed_relabel)
qed

section \<open>Reset\<close>

text \<open>
  Reset restores the three matches arrays to their initial values and
  keeps the list of announced checkpoints: the state after a reset is the
  initial state with \<open>announced\<close> as it was, and it is the initial state
  only if nothing had been announced.
\<close>

lemma handleReset_fresh:
  "handleReset s = init_state\<lparr>announced := announced s\<rparr> \<and>
   (handleReset s = init_state \<longleftrightarrow> announced s = [])"
proof -
  have "init_state\<lparr>announced := a\<rparr> = init_state \<longleftrightarrow> a = []" for a
    by (auto simp: init_state_def dest: arg_cong [where f = announced])
  then show ?thesis
    by (simp add: handleReset_eq_init)
qed

section \<open>Slots in a seeded and fed bracket\<close>

text \<open>The team seeded in slot \<open>p\<close> of quarterfinal \<open>i\<close>.\<close>

definition seedTeam :: "nat \<Rightarrow> side \<Rightarrow> Team option" where
  "seedTeam i p = js_nth initialTeams (int (2 * i + offset p))"

lemma seeded_slot:
  assumes "seeded s" "n < 4"
  shows "slot p (qf s ! n) = seedTeam n p"
proof -
  from assms(1) have e: "map teamA (qf s) = map teamA initialQf" "map teamB (qf s) = map teamB initialQf"
    by (simp_all add: seeded_def)
  then have "length (qf s) = 4"
    by (auto dest: map_eq_imp_length_eq simp: initialQf_def)
  with assms(2) e nth_map [of n "qf s" teamA] nth_map [of n "qf s" teamB]
  have "teamA (qf s ! n) = map teamA initialQf ! n" "teamB (qf s ! n) = map teamB initialQf ! n"
    by simp_all
  with assms(2) show ?thesis
    by (cases p) (auto simp: seedTeam_def offset_def initialQf_def seededMatch_def less_Suc_eq numeral_eq_Suc)
qed

lemma feeds_slot:
  assumes "feeds s" "n < 2"
  shows "slot p (sf s ! n) = winner (qf s ! (2 * n + offset p))"
  using assms by (cases p) (auto simp: feeds_def offset_def less_Suc_eq numeral_2_eq_2 numeral_3_eq_3)

section \<open>The closure of the handler\<close>

lemma seeded_pickedTeam:
  assumes "seeded seen" "seeded s" "n < length (qf s)"
  shows "pickedTeam p (qf seen ! n) = pickedTeam p (qf s ! n)"
proof -
  from assms(1,2) have e: "map teamA (qf seen) = map teamA (qf s)" "map teamB (qf seen) = map teamB (qf s)"
    by (simp_all add: seeded_def)
  then have "length (qf seen) = length (qf s)"
    by (auto dest: map_eq_imp_length_eq)
  with assms(3) e nth_map [of n "qf seen" teamA] nth_map [of n "qf s" teamA]
    nth_map [of n "qf seen" teamB] nth_map [of n "qf s" teamB]
  show ?thesis by (cases p) simp_all
qed

lemma seeded_length:
  assumes "seeded seen" "seeded s"
  shows "length (qf seen) = length (qf s)"
proof -
  from assms have "map teamA (qf seen) = map teamA (qf s)" by (simp add: seeded_def)
  then show ?thesis by (rule map_eq_imp_length_eq)
qed

text \<open>
  A quarterfinal pick does not depend on the render whose closure the
  handler carries: the updater of \<^verbatim>\<open>sf\<close> reads the slots of \<^verbatim>\<open>qf[matchIndex]\<close>
  from the closure, and the slots of the quarterfinals never change.
\<close>

lemma stale_QF_pick_harmless:
  assumes "shape_ok s" "seeded s" "seeded seen"
  shows "handlePick_seen seen QF i p s = handlePick QF i p s"
proof -
  from assms(1) have len: "length (sf s) = 2" by (simp add: shape_ok_lengths)
  show ?thesis
  proof (cases "0 \<le> i \<and> nat i < length (qf s)")
    case True
    with seeded_pickedTeam [OF assms(3,2), of "nat i" p] seeded_length [OF assms(3,2)] len
    show ?thesis
      by (simp add: handlePick_def setWinner_eq propagateToSf_eq)
  next
    case False
    then show ?thesis
      by (auto simp: handlePick_def setWinner_eq)
  qed
qed

text \<open>
  C27. A pick flows forward. A pick in a round changes no match of an earlier
  round and, in a quarterfinal or semifinal, no other match of its own round;
  it does not touch \<^verbatim>\<open>announced\<close>. So the slots, picks and outcomes of the
  rounds before a pick are those the user saw when picking.
\<close>

theorem pick_flows_forward:
  assumes "handlePick r i p s = Inr s'" "shape_ok s"
  shows "(\<forall>r' j. r' < r \<longrightarrow> match_at r' s' j = match_at r' s j) \<and>
         (r \<noteq> F \<longrightarrow> (\<forall>j. j \<noteq> i \<longrightarrow> match_at r s' j = match_at r s j)) \<and>
         announced s' = announced s"
proof -
  from assms(2) have "length (sf s) = 2" by (simp add: shape_ok_lengths)
  with assms(1) show ?thesis
    by (cases rule: handlePick_cases) (auto simp: js_nth_update_other match_at_def split: round.splits)
qed

theorem pick_flows_forward_witness:
  "\<exists>s'. handlePick SF 1 B init_state = Inr s' \<and> shape_ok init_state \<and>
     js_nth (qf s') 3 = js_nth (qf init_state) 3 \<and> js_nth (sf s') 0 = js_nth (sf init_state) 0 \<and>
     announced s' = announced init_state"
proof -
  obtain s' where s': "handlePick SF 1 B init_state = Inr s'"
    by (simp add: handlePick_eqs init_state_def initialSf_def)
  from pick_flows_forward [OF s' shape_ok_init] have
    "match_at QF s' 3 = match_at QF init_state 3" "match_at SF s' 0 = match_at SF init_state 0"
    "announced s' = announced init_state"
    by simp_all
  with s' show ?thesis by simp
qed

text \<open>
  C28. Picks in different matches of a round commute. In the quarterfinals and
  in the semifinals, two picks at different indices give the same result in
  either order, errors included: they write different matches of their round,
  different slots of the next round, and clear the same fields.
\<close>

theorem picks_commute:
  assumes "shape_ok s" "r \<noteq> F" "i \<noteq> j"
  shows "rbind (handlePick r i p s) (handlePick r j q) =
         rbind (handlePick r j q s) (handlePick r i p)"
  using assms by (cases r) (simp_all add: QF_picks_commute SF_picks_commute)

theorem picks_commute_witness:
  "\<exists>s'. shape_ok init_state \<and> QF \<noteq> F \<and> (0::int) \<noteq> 1 \<and>
     rbind (handlePick QF 0 A init_state) (handlePick QF 1 B) = Inr s' \<and>
     rbind (handlePick QF 1 B init_state) (handlePick QF 0 A) = Inr s' \<and>
     map teamA (sf s') = [js_nth initialTeams 0, None] \<and>
     map teamB (sf s') = [js_nth initialTeams 3, None]"
proof -
  obtain s' where s': "rbind (handlePick QF 0 A init_state) (handlePick QF 1 B) = Inr s'"
    and f: "map teamA (sf s') = [js_nth initialTeams 0, None]"
      "map teamB (sf s') = [js_nth initialTeams 3, None]"
    by (simp add: run_simps)
  from picks_commute [OF shape_ok_init, of QF 0 1 A B] s'
  have "rbind (handlePick QF 1 B init_state) (handlePick QF 0 A) = Inr s'" by simp
  with s' f show ?thesis by auto
qed

text \<open>
  Picks of different rounds do not commute: the semifinal pick reads the slot
  that the quarterfinal pick fills. From the initial state, the pick of
  semifinal 1 after that of quarterfinal 1 records the team; before it, the
  semifinal has no pick.
\<close>

lemma rounds_do_not_commute:
  "\<exists>s t. pickAll [(QF, 0, A), (SF, 0, A)] init_state = Inr s \<and>
     pickAll [(SF, 0, A), (QF, 0, A)] init_state = Inr t \<and>
     winner (sf s ! 0) = js_nth initialTeams 0 \<and> winner (sf t ! 0) = None"
  by (simp add: run_simps)

end
