(* ===== verification/Simulation.thy ===== *)
theory Simulation
  imports Propagation
begin

text \<open>
  The simulation of \<^verbatim>\<open>src/app/page.tsx\<close>: \<^verbatim>\<open>pickRandom\<close> (lines 142-147) and
  \<^verbatim>\<open>handleSimulate\<close> (149-154). The handler maps \<^verbatim>\<open>pickRandom\<close> over the
  quarterfinals, the semifinals and the final, in this order; every call that
  finds both slots filled takes one number from \<^verbatim>\<open>Math.random()\<close>. The
  model threads the stream of these numbers through the calls with
  \<open>HOL-Library.State_Monad\<close>, so that the handler is a function of the state and
  the stream, and a property stated for every stream holds for every outcome
  of the draws.
\<close>

section \<open>The handler\<close>

definition pickRandom :: "Team option \<Rightarrow> Team option \<Rightarrow> (rng, Team option) state" where
  "pickRandom a b =
    (if a = None \<and> b = None then State_Monad.return None
     else if a \<noteq> None \<and> b = None then State_Monad.return a
     else if b \<noteq> None \<and> a = None then State_Monad.return b
     else do { r \<leftarrow> Math_random; State_Monad.return (if r < 0.5 then a else b) })"

definition simulateMatch :: "Match \<Rightarrow> (rng, Match) state" where
  "simulateMatch m = do {
     oc \<leftarrow> pickRandom (teamA m) (teamB m);
     State_Monad.return (m\<lparr>outcome := oc\<rparr>)
   }"

definition handleSimulate :: "home_state \<Rightarrow> (rng, home_state) state" where
  "handleSimulate s = do {
     qf' \<leftarrow> traverse_list simulateMatch (qf s);
     sf' \<leftarrow> traverse_list simulateMatch (sf s);
     f' \<leftarrow> simulateMatch (finalMatch s);
     State_Monad.return (s\<lparr>qf := qf', sf := sf', finalMatch := f'\<rparr>)
   }"

section \<open>The handler as a function of the stream\<close>

text \<open>
  A match is contested when both slots are filled: these are the matches that
  take a number from the stream. \<open>decide r m\<close> is the outcome of \<open>m\<close> when
  the number drawn for it, if one is drawn, is \<open>r\<close>.
\<close>

definition contested :: "Match \<Rightarrow> bool" where
  "contested m \<longleftrightarrow> teamA m \<noteq> None \<and> teamB m \<noteq> None"

definition decide :: "real \<Rightarrow> Match \<Rightarrow> Team option" where
  "decide r m =
    (if contested m then (if r < 1 / 2 then teamA m else teamB m)
     else if teamA m \<noteq> None then teamA m else teamB m)"

definition rest :: "Match \<Rightarrow> rng \<Rightarrow> rng" where
  "rest m g = (if contested m then stl g else g)"

fun sim_list :: "Match list \<Rightarrow> rng \<Rightarrow> Match list" where
  "sim_list [] g = []"
| "sim_list (m # ms) g = m\<lparr>outcome := decide (shd g) m\<rparr> # sim_list ms (rest m g)"

definition used :: "Match list \<Rightarrow> nat" where
  "used ms = length (filter contested ms)"

lemma run_pickRandom:
  "run_state (pickRandom (teamA m) (teamB m)) g = (decide (shd g) m, rest m g)"
  by (auto simp: pickRandom_def decide_def rest_def contested_def)

lemma run_simulateMatch:
  "run_state (simulateMatch m) g = (m\<lparr>outcome := decide (shd g) m\<rparr>, rest m g)"
  by (simp add: simulateMatch_def run_pickRandom)

lemma used_simps [simp]:
  "used [] = 0" "used (m # ms) = (if contested m then Suc (used ms) else used ms)"
  "used (xs @ ys) = used xs + used ys"
  by (simp_all add: used_def)

lemma draws_rest: "draws n (rest m g) = draws (if contested m then Suc n else n) g"
  by (simp add: rest_def)

lemma rest_draws: "rest m (draws n g) = draws (if contested m then Suc n else n) g"
  by (simp add: rest_def)

lemma run_traverse_simulate:
  "run_state (traverse_list simulateMatch ms) g = (sim_list ms g, draws (used ms) g)"
  by (induction ms arbitrary: g) (simp_all add: run_simulateMatch draws_rest)

text \<open>The state after a simulation, and the stream it leaves.\<close>

definition simulated :: "home_state \<Rightarrow> rng \<Rightarrow> home_state" where
  "simulated s g = fst (run_state (handleSimulate s) g)"

lemma run_handleSimulate:
  "run_state (handleSimulate s) g =
    (s\<lparr>qf := sim_list (qf s) g,
       sf := sim_list (sf s) (draws (used (qf s)) g),
       finalMatch := (finalMatch s)\<lparr>outcome :=
         decide (shd (draws (used (qf s) + used (sf s)) g)) (finalMatch s)\<rparr>\<rparr>,
     draws (used (matches s)) g)"
  by (simp add: handleSimulate_def run_traverse_simulate run_simulateMatch rest_draws draws_add
      matches_def)

lemma simulated_eq:
  "simulated s g =
    s\<lparr>qf := sim_list (qf s) g,
      sf := sim_list (sf s) (draws (used (qf s)) g),
      finalMatch := (finalMatch s)\<lparr>outcome :=
        decide (shd (draws (used (qf s) + used (sf s)) g)) (finalMatch s)\<rparr>\<rparr>"
  by (simp add: simulated_def run_handleSimulate)

lemma sim_list_matches:
  "matches (simulated s g) = sim_list (matches s) g"
proof -
  have app: "sim_list (xs @ ys) g = sim_list xs g @ sim_list ys (draws (used xs) g)" for xs ys g
    by (induction xs arbitrary: g) (simp_all add: draws_rest rest_def)
  show ?thesis
    by (simp add: simulated_eq matches_def app draws_add)
qed

section \<open>What a simulation keeps and what it writes\<close>

lemma length_sim_list [simp]: "length (sim_list ms g) = length ms"
  by (induction ms arbitrary: g) simp_all

lemma map_sim_list [simp]:
  "map match_id (sim_list ms g) = map match_id ms" "map teamA (sim_list ms g) = map teamA ms"
  "map teamB (sim_list ms g) = map teamB ms" "map winner (sim_list ms g) = map winner ms"
  by (induction ms arbitrary: g; simp)+

lemma decide_in_slots: "in_slots (decide r m) m"
  by (simp add: decide_def in_slots_def)

lemma decide_eq_None_iff: "decide r m = None \<longleftrightarrow> teamA m = None \<and> teamB m = None"
  by (auto simp: decide_def contested_def)

lemma sim_list_all:
  assumes "\<And>m r. P m \<Longrightarrow> Q (m\<lparr>outcome := decide r m\<rparr>)" "list_all P ms"
  shows "list_all Q (sim_list ms g)"
  using assms(2) by (induction ms arbitrary: g) (simp_all add: assms(1))

lemma sim_list_all2:
  assumes "\<And>m r. R m (m\<lparr>outcome := decide r m\<rparr>)"
  shows "list_all2 R ms (sim_list ms g)"
  by (induction ms arbitrary: g) (simp_all add: assms)

lemma simulated_fields [simp, frame]:
  "announced (simulated s g) = announced s"
  "map match_id (qf (simulated s g)) = map match_id (qf s)"
  "map match_id (sf (simulated s g)) = map match_id (sf s)"
  "match_id (finalMatch (simulated s g)) = match_id (finalMatch s)"
  "map teamA (qf (simulated s g)) = map teamA (qf s)"
  "map teamB (qf (simulated s g)) = map teamB (qf s)"
  by (simp_all add: simulated_eq)

lemma simulated_shape_ok [simp]: "shape_ok (simulated s g) = shape_ok s"
  by (simp add: shape_ok_def)

lemma simulated_seeded [simp]: "seeded (simulated s g) = seeded s"
  by (simp add: seeded_def)

lemma simulated_picks_ok: "picks_ok s \<Longrightarrow> picks_ok (simulated s g)"
  unfolding picks_ok_def sim_list_matches
  by (rule sim_list_all [where P = pick_ok]) (simp_all add: pick_ok_def in_slots_def)

lemma known_decide: "known m \<Longrightarrow> known (m\<lparr>outcome := decide r m\<rparr>)"
  by (auto simp: known_def teams_of_def decide_def)

lemma simulated_registered: "registered s \<Longrightarrow> registered (simulated s g)"
  unfolding registered_def sim_list_matches
  by (rule sim_list_all [where P = known]) (simp_all add: known_decide)

lemma contested_outcome [simp]: "contested (m\<lparr>outcome := x\<rparr>) = contested m"
  by (simp add: contested_def)

lemma decide_outcome [simp]: "decide r (m\<lparr>outcome := x\<rparr>) = decide r m"
  by (simp add: decide_def)

lemma rest_outcome [simp]: "rest (m\<lparr>outcome := x\<rparr>) g = rest m g"
  by (simp add: rest_def)

lemma sim_list_sim_list [simp]: "sim_list (sim_list ms g0) g = sim_list ms g"
  by (induction ms arbitrary: g0 g) simp_all

lemma used_sim_list [simp]: "used (sim_list ms g) = used ms"
  by (induction ms arbitrary: g) simp_all

lemma used_le_length: "used ms \<le> length ms"
  by (simp add: used_def)

lemma nth_sim_list:
  assumes "k < length ms"
  shows "teamA (sim_list ms g ! k) = teamA (ms ! k)" "teamB (sim_list ms g ! k) = teamB (ms ! k)"
    "winner (sim_list ms g ! k) = winner (ms ! k)" "match_id (sim_list ms g ! k) = match_id (ms ! k)"
  using assms map_sim_list [of ms g] by (metis length_sim_list nth_map)+

lemma simulated_feeds: "shape_ok s \<Longrightarrow> feeds s \<Longrightarrow> feeds (simulated s g)"
  by (simp add: feeds_def simulated_eq nth_sim_list shape_ok_lengths)

lemma simulated_final_fed: "shape_ok s \<Longrightarrow> final_fed s \<Longrightarrow> final_fed (simulated s g)"
  by (simp add: final_fed_def simulated_eq nth_sim_list shape_ok_lengths)

lemma outcome_ok_decide [simp]: "outcome_ok (m\<lparr>outcome := decide r m\<rparr>)"
  using decide_in_slots [of r m] by (simp add: outcome_ok_def in_slots_def)

lemma simulated_outcomes_ok [simp]: "outcomes_ok (simulated s g)"
proof -
  have "list_all outcome_ok (sim_list ms g)" for ms g
    by (rule sim_list_all [where P = "\<lambda>_. True"]) (simp_all add: list_all_iff)
  then show ?thesis
    by (simp add: outcomes_ok_def simulated_eq)
qed

section \<open>A stream for every vector of outcomes\<close>

text \<open>
  \<open>stream_for cs ms\<close> holds one number for every contested match of \<open>ms\<close>:
  one below a half where \<open>cs\<close> asks for the first slot, one above where it asks
  for the second. \<open>chosen c m\<close> is the match with the outcome \<open>c\<close> asks for;
  a match with one team has that team as its outcome whatever \<open>c\<close> is.
\<close>

fun stream_for :: "side list \<Rightarrow> Match list \<Rightarrow> real list" where
  "stream_for (c # cs) (m # ms) =
     (if contested m then [if c = A then 1 / 4 else 3 / 4] else []) @ stream_for cs ms"
| "stream_for _ _ = []"

definition lone :: "Match \<Rightarrow> Team option" where
  "lone m = (if teamA m \<noteq> None then teamA m else teamB m)"

definition chosen :: "side \<Rightarrow> Match \<Rightarrow> Match" where
  "chosen c m = m\<lparr>outcome := if contested m then slot c m else lone m\<rparr>"

lemma decide_not_contested: "\<not> contested m \<Longrightarrow> decide r m = lone m"
  by (simp add: decide_def lone_def)

lemma sim_list_stream_for:
  "length cs = length ms \<Longrightarrow> sim_list ms (stream_for cs ms @- g) = map2 chosen cs ms"
proof (induction cs ms arbitrary: g rule: list_induct2)
  case Nil
  then show ?case by simp
next
  case (Cons c cs m ms)
  show ?case
  proof (cases "contested m")
    case True
    with Cons.IH show ?thesis
      by (cases c) (simp_all add: chosen_def decide_def rest_def)
  next
    case False
    with Cons.IH show ?thesis
      by (simp add: chosen_def rest_def decide_not_contested)
  qed
qed

lemma contested_initialQf [simp]: "list_all contested initialQf"
  by (simp add: initialQf_def seededMatch_def contested_def js_nth_initialTeams)

lemma not_contested_empty [simp]: "\<not> contested (emptyMatch i)"
  by (simp add: contested_def emptyMatch_def)

lemma matches_init:
  "matches init_state = initialQf @ [emptyMatch ''SF1'', emptyMatch ''SF2'', emptyMatch ''F'']"
  by (simp add: matches_def init_state_def initialSf_def initialFinal_def)

section \<open>Properties of the simulation\<close>

text \<open>
  \<open>outcome_written m m'\<close>: \<open>m'\<close> is \<open>m\<close> with a new outcome, the outcome is
  a slot of \<open>m\<close>, and it is absent exactly when \<open>m\<close> has no team.
\<close>

definition outcome_written :: "Match \<Rightarrow> Match \<Rightarrow> bool" where
  "outcome_written m m' \<longleftrightarrow>
    m' = m\<lparr>outcome := outcome m'\<rparr> \<and> in_slots (outcome m') m \<and>
    (outcome m' = None \<longleftrightarrow> teamA m = None \<and> teamB m = None)"

text \<open>
  \<^verbatim>\<open>pickRandom\<close> on every branch: no team gives no outcome and one team
  gives that team, both without a draw; two teams take one number from the
  stream and give the first team when the number is below a half, the second
  otherwise.
\<close>

lemma pickRandom_result:
  "run_state (pickRandom a b) g =
    (case (a, b) of
       (None, None) \<Rightarrow> (None, g)
     | (Some x, None) \<Rightarrow> (Some x, g)
     | (None, Some y) \<Rightarrow> (Some y, g)
     | (Some x, Some y) \<Rightarrow> (if shd g < 1 / 2 then Some x else Some y, stl g))"
  by (simp add: pickRandom_def split: option.splits)

text \<open>
  C5. Whatever the draws, a simulation changes nothing but the outcomes; the
  outcome it writes for a match is one of the match's slots, and it is absent
  exactly when both slots are empty. A match with a single team therefore gets
  that team as its outcome.
\<close>

theorem simulate_outcomes:
  "list_all2 outcome_written (matches s) (matches (simulated s g)) \<and>
   announced (simulated s g) = announced s"
  unfolding sim_list_matches
  by (rule conjI, rule sim_list_all2)
     (simp_all add: outcome_written_def decide_in_slots decide_eq_None_iff)

text \<open>
  C31. A simulation takes one number from the stream for every match with two
  teams and none for the others: at most seven on a well-shaped bracket.
\<close>

theorem simulate_draws:
  "snd (run_state (handleSimulate s) g) = draws (used (matches s)) g \<and>
   (shape_ok s \<longrightarrow> used (matches s) \<le> 7)"
  using used_le_length [of "matches s"] by (auto simp: run_handleSimulate dest: length_matches)

theorem simulate_draws_witness:
  "snd (run_state (handleSimulate init_state) (sconst 0)) = draws 4 (sconst 0) \<and> shape_ok init_state \<and>
   used (matches init_state) \<le> 7"
proof -
  have "used (matches init_state) = 4"
    using contested_initialQf by (simp add: matches_init initialQf_def)
  with simulate_draws [of init_state "sconst 0"] show ?thesis by simp
qed

text \<open>
  Running the simulation again overwrites every outcome: the result
  depends on the new draws and on nothing the earlier simulation wrote.
\<close>

lemma simulate_overwrites: "simulated (simulated s g0) g = simulated s g"
  by (simp add: simulated_eq)

text \<open>
  C40. Every vector of outcomes can be drawn: for a choice of a slot per match
  there is a stream on which the simulation gives every match with two teams
  the team of the chosen slot.
\<close>

theorem every_outcome_possible:
  assumes "length cs = length (matches s)"
  shows "matches (simulated s (stream_for cs (matches s) @- g)) = map2 chosen cs (matches s)"
  using assms by (simp add: sim_list_matches sim_list_stream_for)

theorem every_outcome_possible_witness:
  "length [A, B, B, A, A, A, A] = length (matches init_state) \<and>
   map outcome (matches (simulated init_state
      (stream_for [A, B, B, A, A, A, A] (matches init_state) @- sconst 0))) =
   [js_nth initialTeams 0, js_nth initialTeams 3, js_nth initialTeams 5, js_nth initialTeams 6,
    None, None, None]"
proof -
  have len: "length [A, B, B, A, A, A, A] = length (matches init_state)"
    by (simp add: length_matches)
  have "map outcome (map2 chosen [A, B, B, A, A, A, A] (matches init_state)) =
    [js_nth initialTeams 0, js_nth initialTeams 3, js_nth initialTeams 5, js_nth initialTeams 6,
     None, None, None]"
    using contested_initialQf
    by (simp add: matches_init initialQf_def chosen_def seededMatch_def emptyMatch_def
        lone_def contested_def)
  with every_outcome_possible [OF len, of "sconst 0"] len show ?thesis by simp
qed

end
