(* ===== verification/Scoring.thy ===== *)
theory Scoring
  imports Bracket
begin

text \<open>
  The score of \<^verbatim>\<open>src/app/page.tsx\<close>: the local function \<^verbatim>\<open>calc\<close> and the
  memoised value \<^verbatim>\<open>points\<close> (lines 121-132). \<open>calc\<close> compares the pick and
  the outcome by their \<^verbatim>\<open>id\<close>; \<open>points\<close> adds \<open>calc\<close> over the quarterfinals and
  the semifinals with \<^verbatim>\<open>reduce\<close> and then the final. The lemmas relate the
  score to the number of correct and of decided matches, bound it, and show
  that comparing identifiers is comparing teams on a registered bracket.
\<close>

section \<open>The score\<close>

definition calc :: "Match option \<Rightarrow> nat" where
  "calc mo =
    (case mo of
       None \<Rightarrow> 0
     | Some m \<Rightarrow>
         (case outcome m of
            None \<Rightarrow> 0
          | Some oc \<Rightarrow>
              (case winner m of
                 Some w \<Rightarrow> if team_id w = team_id oc then 3 else 1
               | None \<Rightarrow> 1)))"

definition points :: "home_state \<Rightarrow> nat" where
  "points s =
    (let qfPoints = foldl (\<lambda>acc m. acc + calc (Some m)) 0 (qf s);
         sfPoints = foldl (\<lambda>acc m. acc + calc (Some m)) 0 (sf s);
         fPoints = calc (Some (finalMatch s))
     in qfPoints + sfPoints + fPoints)"

section \<open>Correct and decided matches\<close>

text \<open>
  A match is decided when it has an outcome, and correct when it has a pick
  and an outcome with the same identifier. \<open>same_team\<close> is the comparison by
  the whole team instead of the identifier.
\<close>

definition decided :: "Match \<Rightarrow> bool" where
  "decided m \<longleftrightarrow> outcome m \<noteq> None"

definition correct :: "Match \<Rightarrow> bool" where
  "correct m \<longleftrightarrow>
    (case (winner m, outcome m) of (Some w, Some oc) \<Rightarrow> team_id w = team_id oc | _ \<Rightarrow> False)"

definition same_team :: "Match \<Rightarrow> bool" where
  "same_team m \<longleftrightarrow> winner m \<noteq> None \<and> winner m = outcome m"

definition score :: "Match \<Rightarrow> nat" where
  "score m = (if correct m then 3 else if decided m then 1 else 0)"

lemma calc_None [simp]: "calc None = 0"
  by (simp add: calc_def)

lemma calc_Some: "calc (Some m) = score m"
  by (simp add: calc_def score_def correct_def decided_def split: option.splits)

lemma correct_decided: "correct m \<Longrightarrow> decided m"
  by (auto simp: correct_def decided_def split: option.splits)

lemma score_le_3: "score m \<le> 3"
  by (simp add: score_def)

lemma score_cases: "score m = 0 \<or> score m = 1 \<or> score m = 3"
  by (simp add: score_def)

lemma score_eq_0_iff: "score m = 0 \<longleftrightarrow> \<not> decided m"
  by (auto simp: score_def dest: correct_decided)

lemma score_eq_3_iff: "score m = 3 \<longleftrightarrow> correct m"
  by (simp add: score_def)

lemma points_eq_sum: "points s = sum_list (map score (matches s))"
  by (simp add: points_def matches_def foldl_add_map calc_Some Let_def)

lemma sum_list_score:
  "sum_list (map score ms) =
    3 * length (filter correct ms) + length (filter (\<lambda>m. decided m \<and> \<not> correct m) ms)"
  by (induction ms) (auto simp: score_def dest: correct_decided)

lemma length_filter_disjoint:
  "length (filter P xs) + length (filter (\<lambda>x. Q x \<and> \<not> P x) xs) \<le> length xs"
  by (induction xs) auto

lemma correct_iff_same_team:
  assumes "known m"
  shows "correct m \<longleftrightarrow> same_team m"
proof (cases "winner m")
  case None
  then show ?thesis by (simp add: correct_def same_team_def)
next
  case w: (Some w)
  show ?thesis
  proof (cases "outcome m")
    case None
    with w show ?thesis by (simp add: correct_def same_team_def)
  next
    case (Some oc)
    with w assms have "w \<in> set initialTeams" "oc \<in> set initialTeams"
      by (auto simp: known_def teams_of_def)
    then have "team_id w = team_id oc \<longleftrightarrow> w = oc"
      by (rule team_id_inj)
    with w Some show ?thesis by (simp add: correct_def same_team_def)
  qed
qed

lemma points_init [simp]: "points init_state = 0"
  by (simp add: points_eq_sum matches_def score_def correct_def decided_def init_state_def
      initialQf_def initialSf_def initialFinal_def seededMatch_def emptyMatch_def)

section \<open>Two scored brackets\<close>

text \<open>
  Fixtures for the theorems below. \<open>twelve\<close>: the four quarterfinals picked
  and decided for the first slot, nothing else. \<open>nineteen\<close>: a full bracket in
  which every pick is the outcome except in the final.
\<close>

definition twelve :: home_state where
  "twelve = init_state\<lparr>qf := map (\<lambda>m. m\<lparr>winner := teamA m, outcome := teamA m\<rparr>) initialQf\<rparr>"

definition nineteen :: home_state where
  "nineteen = twelve
    \<lparr>sf := [\<lparr>match_id = ''SF1'', teamA = js_nth initialTeams 0, teamB = js_nth initialTeams 2,
              winner = js_nth initialTeams 0, outcome = js_nth initialTeams 0\<rparr>,
            \<lparr>match_id = ''SF2'', teamA = js_nth initialTeams 4, teamB = js_nth initialTeams 6,
              winner = js_nth initialTeams 4, outcome = js_nth initialTeams 4\<rparr>],
     finalMatch := \<lparr>match_id = ''F'', teamA = js_nth initialTeams 0,
              teamB = js_nth initialTeams 4, winner = js_nth initialTeams 4,
              outcome = js_nth initialTeams 0\<rparr>\<rparr>"

lemmas fixture_defs =
  twelve_def nineteen_def init_state_def initialQf_def initialSf_def initialFinal_def
  seededMatch_def emptyMatch_def js_nth_initialTeams

lemma shape_ok_fixtures [simp]: "shape_ok twelve" "shape_ok nineteen"
  by (simp_all add: shape_ok_def fixture_defs)

lemma announced_fixtures [simp]: "announced twelve = []" "announced nineteen = []"
  by (simp_all add: fixture_defs)

lemma score_fixtures:
  "map score (matches twelve) = [3, 3, 3, 3, 0, 0, 0]"
  "map score (matches nineteen) = [3, 3, 3, 3, 3, 3, 1]"
  by (simp_all add: matches_def score_def correct_def decided_def fixture_defs initialTeams_def)

lemma points_fixtures [simp]: "points twelve = 12" "points nineteen = 19"
  by (simp_all add: points_eq_sum score_fixtures)

section \<open>Properties of the score\<close>

text \<open>
  C4. The score is three points for every match whose pick has the outcome's
  identifier plus one point for every other match that has an outcome.
\<close>

theorem points_formula:
  "points s = 3 * length (filter correct (matches s)) +
     length (filter (\<lambda>m. decided m \<and> \<not> correct m) (matches s))"
  by (simp add: points_eq_sum sum_list_score)

text \<open>
  The score of a well-shaped bracket is at most 21, and it is at least the
  number of decided matches.
\<close>

lemma points_bounds:
  assumes "shape_ok s"
  shows "length (filter decided (matches s)) \<le> points s \<and> points s \<le> 21"
proof -
  have "sum_list (map score (matches s)) \<le> 3 * length (matches s)"
    using sum_list_le_length [of "matches s" score 3] by (simp add: score_le_3)
  moreover have "length (filter decided ms) \<le> sum_list (map score ms)" for ms
    by (induction ms) (auto simp: score_def)
  ultimately show ?thesis
    using length_matches [OF assms] by (simp add: points_eq_sum)
qed

text \<open>
  The score is 0 exactly when no match has an outcome; in particular it
  is 0 in the initial state.
\<close>

lemma points_zero_iff: "points s = 0 \<longleftrightarrow> (\<forall>m \<in> set (matches s). outcome m = None)"
  by (auto simp: points_eq_sum score_eq_0_iff decided_def)

text \<open>
  On a bracket whose teams all come from the registry, comparing pick and
  outcome by identifier is comparing the teams: the score counts three points
  exactly for the matches whose pick is the outcome.
\<close>

lemma points_by_team:
  assumes "registered s"
  shows "points s = 3 * length (filter same_team (matches s)) +
     length (filter (\<lambda>m. decided m \<and> \<not> same_team m) (matches s))"
proof -
  from assms have "\<forall>m \<in> set (matches s). correct m \<longleftrightarrow> same_team m"
    by (auto simp: registered_def list_all_iff correct_iff_same_team)
  then have "filter correct (matches s) = filter same_team (matches s)"
    and "filter (\<lambda>m. decided m \<and> \<not> correct m) (matches s) =
      filter (\<lambda>m. decided m \<and> \<not> same_team m) (matches s)"
    by (auto intro: filter_cong)
  then show ?thesis
    by (simp add: points_eq_sum sum_list_score)
qed

text \<open>
  C29. The range of the score. On a well-shaped bracket the score is at least
  the number of decided matches and at most 21; a score of 18 or more means
  that at least six picks are correct, and a score of 21 that all seven are.
  The score is never 20.
\<close>

theorem points_18_means_six_correct:
  assumes "shape_ok s"
  shows "length (filter decided (matches s)) \<le> points s \<and> points s \<le> 21 \<and>
         (18 \<le> points s \<longrightarrow> 6 \<le> length (filter correct (matches s))) \<and>
         (points s = 21 \<longleftrightarrow> length (filter correct (matches s)) = 7) \<and>
         points s \<noteq> 20"
proof -
  let ?c = "length (filter correct (matches s))"
  let ?d = "length (filter (\<lambda>m. decided m \<and> \<not> correct m) (matches s))"
  have "?c + ?d \<le> length (matches s)"
    by (rule length_filter_disjoint)
  then have "?c + ?d \<le> 7"
    using length_matches [OF assms] by simp
  moreover have "points s = 3 * ?c + ?d"
    by (simp add: points_eq_sum sum_list_score)
  ultimately have "(18 \<le> points s \<longrightarrow> 6 \<le> ?c) \<and> (points s = 21 \<longleftrightarrow> ?c = 7) \<and> points s \<noteq> 20"
    by arith
  with points_bounds [OF assms] show ?thesis by simp
qed

theorem points_18_means_six_correct_witness:
  "shape_ok nineteen \<and> 18 \<le> points nineteen \<and>
   length (filter correct (matches nineteen)) = 6 \<and> points nineteen \<noteq> 21"
proof -
  have "length (filter correct (matches nineteen)) \<le> 6"
    using score_fixtures(2) length_filter_map [of "\<lambda>x. x = 3" score "matches nineteen"]
    by (simp add: comp_def score_eq_3_iff)
  with points_18_means_six_correct [of nineteen] show ?thesis by simp
qed

end
