(* ===== verification/Checkpoints.thy ===== *)
theory Checkpoints
  imports Scoring
begin

text \<open>
  The checkpoints of \<^verbatim>\<open>src/app/page.tsx\<close>: the constant \<^verbatim>\<open>checkpoints\<close> (lines
  134-138), the state variable \<^verbatim>\<open>announced\<close> (140) and the effect that runs
  after a render (237-264). The effect computes the checkpoints the score has
  reached and that are not in \<^verbatim>\<open>announced\<close>, calls \<^verbatim>\<open>alert\<close> once for each, and
  appends them to \<^verbatim>\<open>announced\<close>. The calls of \<^verbatim>\<open>alert\<close> are the list of
  messages the model returns beside the new state. The effect reads the score
  and \<^verbatim>\<open>announced\<close> of the render it belongs to: \<open>announce_seen\<close> takes them
  as arguments, and \<open>announceEffect\<close> is the effect of a render of the current
  state.
\<close>

section \<open>The checkpoints\<close>

record Checkpoint =
  cp_points :: nat
  cp_name :: string
  cp_image :: string

definition checkpoints :: "Checkpoint list" where
  "checkpoints =
    [\<lparr>cp_points = 6, cp_name = ''Bronze crate'', cp_image = ''/bronze-crate.png''\<rparr>,
     \<lparr>cp_points = 12, cp_name = ''Silver crate'', cp_image = ''/silver-crate.png''\<rparr>,
     \<lparr>cp_points = 18, cp_name = ''Gold crate'', cp_image = ''/gold-crate.png''\<rparr>]"

section \<open>The effect\<close>

definition newlyReached :: "nat \<Rightarrow> nat list \<Rightarrow> nat list" where
  "newlyReached pts ann =
    map cp_points
      (filter (\<lambda>c. pts \<ge> cp_points c \<and> \<not> js_includes ann (cp_points c)) checkpoints)"

definition message :: "Checkpoint \<Rightarrow> string" where
  "message cp =
    (if cp_points cp = 6 then
       ''Top! Je eerste mijlpaal is binnen: '' @ cp_name cp @ '' (6 punten).''
     else if cp_points cp = 12 then
       ''Lekker bezig! Halverwege: '' @ cp_name cp @ '' (12 punten).''
     else if cp_points cp = 18 then
       ''Geweldig! Je hebt alle picks goed: '' @ cp_name cp @ '' (18 punten).''
     else
       ''Gefeliciteerd! Checkpoint gehaald: '' @ cp_name cp @
         '' ('' @ show_nat (cp_points cp) @ '' punten).'')"

definition alertsFor :: "nat list \<Rightarrow> string list" where
  "alertsFor nr =
    concat (map (\<lambda>p. case find (\<lambda>c. cp_points c = p) checkpoints of
                        Some cp \<Rightarrow> [message cp]
                      | None \<Rightarrow> []) nr)"

definition announce_seen :: "nat \<Rightarrow> nat list \<Rightarrow> home_state \<Rightarrow> string list \<times> home_state" where
  "announce_seen pts ann s =
    (let nr = newlyReached pts ann
     in if length nr > 0 then (alertsFor nr, s\<lparr>announced := announced s @ nr\<rparr>)
        else ([], s))"

definition announceEffect :: "home_state \<Rightarrow> string list \<times> home_state" where
  "announceEffect s = announce_seen (points s) (announced s) s"

section \<open>Rendering until the effect has nothing to report\<close>

text \<open>
  When the effect changes \<^verbatim>\<open>announced\<close> the component renders again and the
  effect runs again. \<open>renderLoop n\<close> follows at most \<open>n\<close> renders and
  returns the messages of all of them with the state in which the effect
  reported nothing, or \<open>None\<close> when \<open>n\<close> renders did not get there.
\<close>

fun renderLoop :: "nat \<Rightarrow> home_state \<Rightarrow> (string list \<times> home_state) option" where
  "renderLoop 0 s = None"
| "renderLoop (Suc n) s =
    (case announceEffect s of
       (al, s') \<Rightarrow>
         if announced s' = announced s then Some (al, s')
         else map_option (\<lambda>(al', s''). (al @ al', s'')) (renderLoop n s'))"

section \<open>Thresholds\<close>

definition thresholds :: "nat list" where
  "thresholds = map cp_points checkpoints"

definition announced_ok :: "home_state \<Rightarrow> bool" where
  [inv_defs]: "announced_ok s \<longleftrightarrow> distinct (announced s) \<and> set (announced s) \<subseteq> set thresholds"

definition all_announced :: "home_state \<Rightarrow> bool" where
  [inv_defs]: "all_announced s \<longleftrightarrow> (\<forall>t \<in> set thresholds. t \<le> points s \<longrightarrow> t \<in> set (announced s))"

lemma newlyReached_eq:
  "newlyReached pts ann = filter (\<lambda>t. t \<le> pts \<and> t \<notin> set ann) thresholds"
  by (simp add: newlyReached_def thresholds_def filter_map comp_def)

lemma thresholds_eq: "thresholds = [6, 12, 18]"
  by (simp add: thresholds_def checkpoints_def)

lemma distinct_thresholds [simp]: "distinct thresholds"
  by (simp add: thresholds_eq)

lemma set_newlyReached: "set (newlyReached pts ann) = {t \<in> set thresholds. t \<le> pts \<and> t \<notin> set ann}"
  by (auto simp: newlyReached_eq)

lemma distinct_newlyReached [simp]: "distinct (newlyReached pts ann)"
  by (simp add: newlyReached_eq)

lemma newlyReached_Nil_iff:
  "newlyReached pts ann = [] \<longleftrightarrow> (\<forall>t \<in> set thresholds. t \<le> pts \<longrightarrow> t \<in> set ann)"
  by (auto simp: newlyReached_eq filter_empty_conv)

lemma find_checkpoint:
  "t \<in> set thresholds \<Longrightarrow> \<exists>cp. find (\<lambda>c. cp_points c = t) checkpoints = Some cp \<and> cp_points cp = t"
  by (auto simp: thresholds_def checkpoints_def)

lemma length_alertsFor: "set nr \<subseteq> set thresholds \<Longrightarrow> length (alertsFor nr) = length nr"
proof (induction nr)
  case Nil
  then show ?case by (simp add: alertsFor_def)
next
  case (Cons t nr)
  then obtain cp where "find (\<lambda>c. cp_points c = t) checkpoints = Some cp"
    using find_checkpoint [of t] by auto
  with Cons show ?case by (simp add: alertsFor_def)
qed

lemma announceEffect_eq:
  "announceEffect s =
    (alertsFor (newlyReached (points s) (announced s)),
     s\<lparr>announced := announced s @ newlyReached (points s) (announced s)\<rparr>)"
  by (simp add: announceEffect_def announce_seen_def Let_def alertsFor_def)

lemma points_announced_update [simp]: "points (s\<lparr>announced := a\<rparr>) = points s"
  by (simp add: points_def)

lemma announceEffect_fields [simp, frame]:
  "qf (snd (announceEffect s)) = qf s" "sf (snd (announceEffect s)) = sf s"
  "finalMatch (snd (announceEffect s)) = finalMatch s"
  "points (snd (announceEffect s)) = points s"
  by (simp_all add: announceEffect_eq)

lemma announced_announceEffect:
  "announced (snd (announceEffect s)) = announced s @ newlyReached (points s) (announced s)"
  by (simp add: announceEffect_eq)

lemma all_announced_announceEffect [simp]: "all_announced (snd (announceEffect s))"
  by (auto simp: all_announced_def announced_announceEffect set_newlyReached)

lemma announced_ok_announceEffect: "announced_ok s \<Longrightarrow> announced_ok (snd (announceEffect s))"
  by (auto simp: announced_ok_def announced_announceEffect set_newlyReached)

lemma all_announced_iff: "all_announced s \<longleftrightarrow> newlyReached (points s) (announced s) = []"
  by (simp add: all_announced_def newlyReached_Nil_iff)

lemma announceEffect_quiet: "all_announced s \<Longrightarrow> announceEffect s = ([], s)"
  by (simp add: all_announced_iff announceEffect_eq alertsFor_def)

lemma announced_ok_fixtures [simp]: "announced_ok twelve" "announced_ok nineteen"
  by (simp_all add: announced_ok_def)

lemma all_announced_init [simp]: "all_announced init_state"
  by (simp add: all_announced_def thresholds_eq)

lemma alertsFor_append [simp]: "alertsFor (xs @ ys) = alertsFor xs @ alertsFor ys"
  by (simp add: alertsFor_def)

lemma alertsFor_Nil [simp]: "alertsFor [] = []"
  by (simp add: alertsFor_def)

text \<open>The message of one threshold, and the messages of a list of thresholds.\<close>

definition alertOf :: "nat \<Rightarrow> string" where
  "alertOf t = (case find (\<lambda>c. cp_points c = t) checkpoints of Some cp \<Rightarrow> message cp | None \<Rightarrow> [])"

lemma alertsFor_thresholds: "set nr \<subseteq> set thresholds \<Longrightarrow> alertsFor nr = map alertOf nr"
proof (induction nr)
  case Nil
  show ?case by simp
next
  case (Cons t nr)
  then obtain cp where "find (\<lambda>c. cp_points c = t) checkpoints = Some cp"
    using find_checkpoint [of t] by auto
  with Cons show ?case
    using alertsFor_append [of "[t]" nr] by (simp add: alertsFor_def alertOf_def)
qed

lemma inj_on_alertOf: "inj_on alertOf (set thresholds)"
  by (simp add: thresholds_eq alertOf_def checkpoints_def message_def)

lemma distinct_alertsFor: "announced_ok s \<Longrightarrow> distinct (alertsFor (announced s))"
  by (auto simp: announced_ok_def alertsFor_thresholds distinct_map
      intro: inj_on_subset [OF inj_on_alertOf])

lemma length_announced_le: "announced_ok s \<Longrightarrow> length (announced s) \<le> 3"
proof -
  assume "announced_ok s"
  then have "card (set (announced s)) \<le> card (set thresholds)" "distinct (announced s)"
    by (auto simp: announced_ok_def intro: card_mono)
  then show ?thesis
    by (simp add: distinct_card thresholds_eq)
qed

section \<open>Properties of the effect\<close>

text \<open>
  C30. The cascade of renders that the effect starts ends after the second
  render, from every state: the first effect announces what is due, the second
  finds every reached threshold announced and reports nothing.
\<close>

theorem announce_settles:
  "renderLoop 2 s = Some (announceEffect s) \<and> all_announced (snd (announceEffect s)) \<and>
   announceEffect (snd (announceEffect s)) = ([], snd (announceEffect s))"
proof -
  obtain al s' where e: "announceEffect s = (al, s')" by (cases "announceEffect s")
  then have s': "s' = snd (announceEffect s)" by simp
  have a: "all_announced s'"
    unfolding s' by simp
  then have q: "announceEffect s' = ([], s')"
    by (rule announceEffect_quiet)
  show ?thesis
    using e q a by (auto simp: numeral_2_eq_2 s' [symmetric] split: prod.splits)
qed

theorem announce_settles_witness:
  "renderLoop 2 nineteen = Some (announceEffect nineteen) \<and>
   announced (snd (announceEffect nineteen)) = [6, 12, 18]"
  using announce_settles [of nineteen]
  by (simp add: announced_announceEffect newlyReached_eq thresholds_eq)

text \<open>
  C6. A threshold is announced at most once: what the effect announces is
  disjoint from what was announced before, \<open>announced\<close> stays free of
  duplicates and within the three thresholds, and the effect calls \<^verbatim>\<open>alert\<close>
  once for every threshold it appends.
\<close>

theorem announce_once:
  assumes "announced_ok s" "announceEffect s = (al, s')"
  shows "announced_ok s' \<and> announced s' = announced s @ newlyReached (points s) (announced s) \<and>
         set (newlyReached (points s) (announced s)) \<inter> set (announced s) = {} \<and>
         length al = length (newlyReached (points s) (announced s))"
proof -
  from assms(2) have s': "s' = snd (announceEffect s)" and al: "al = fst (announceEffect s)"
    by simp_all
  have "set (newlyReached (points s) (announced s)) \<subseteq> set thresholds"
    by (auto simp: set_newlyReached)
  then have "length al = length (newlyReached (points s) (announced s))"
    unfolding al by (simp add: announceEffect_eq length_alertsFor)
  with assms(1) show ?thesis
    unfolding s'
    by (auto simp: announced_ok_announceEffect announced_announceEffect set_newlyReached)
qed

theorem announce_once_witness:
  "announced_ok twelve \<and>
   (\<exists>al s'. announceEffect twelve = (al, s') \<and> announced s' = [6, 12] \<and> length al = 2)"
proof -
  obtain al s' where e: "announceEffect twelve = (al, s')" by (cases "announceEffect twelve")
  from announce_once [OF announced_ok_fixtures(1) e] e show ?thesis
    by (simp add: newlyReached_eq thresholds_eq)
qed

text \<open>
  The three messages as the user sees them; the fourth branch of the
  \<^verbatim>\<open>switch\<close> is taken for none of the checkpoints.
\<close>

lemma alert_texts:
  "alertsFor [6, 12, 18] =
    [''Top! Je eerste mijlpaal is binnen: Bronze crate (6 punten).'',
     ''Lekker bezig! Halverwege: Silver crate (12 punten).'',
     ''Geweldig! Je hebt alle picks goed: Gold crate (18 punten).'']"
  by (simp add: alertsFor_def checkpoints_def message_def)

end
