(* ===== verification/Session.thy ===== *)
theory Session
  imports Simulation Checkpoints
begin

text \<open>
  The component \<^verbatim>\<open>Home\<close> of \<^verbatim>\<open>src/app/page.tsx\<close> as a state machine. An
  event is a click on one of the buttons the component renders: a seed button
  (its \<^verbatim>\<open>onClick\<close> calls \<^verbatim>\<open>handlePick\<close> with the round, the index and the
  slot written in the JSX, lines 326-477), \<^verbatim>\<open>Simuleer\<close> (line 282) or
  \<^verbatim>\<open>Reset\<close> (line 274). \<open>react\<close> runs the handler of the event and then the
  effect of the render that follows; \<open>run\<close> is the set of states and alert
  logs the component reaches from its initial state, \<open>session\<close> the function
  that follows a list of events and threads the random stream through them.
  The predicates of the components are collected in \<open>wellformed\<close> and shown
  to hold in every reachable state.
\<close>

section \<open>Events and steps\<close>

datatype event = Pick round int side | Simulate | Reset

definition dispatch :: "event \<Rightarrow> home_state \<Rightarrow> (rng, home_state result) state" where
  "dispatch e s =
    (case e of
       Pick r i p \<Rightarrow> State_Monad.return (handlePick r i p s)
     | Simulate \<Rightarrow> do { s' \<leftarrow> handleSimulate s; State_Monad.return (Inr s') }
     | Reset \<Rightarrow> State_Monad.return (Inr (handleReset s)))"

definition react :: "event \<Rightarrow> home_state \<Rightarrow> rng \<Rightarrow> (string list \<times> home_state) result \<times> rng" where
  "react e s g =
    (case run_state (dispatch e s) g of
       (Inl err, g') \<Rightarrow> (Inl err, g')
     | (Inr s1, g') \<Rightarrow> (Inr (announceEffect s1), g'))"

inductive run :: "home_state \<Rightarrow> string list \<Rightarrow> bool" where
  start: "run init_state []"
| step: "run s out \<Longrightarrow> react e s g = (Inr (al, s'), g') \<Longrightarrow> run s' (out @ al)"

definition wellformed :: "home_state \<Rightarrow> bool" where
  "wellformed s \<longleftrightarrow> shape_ok s \<and> seeded s \<and> picks_ok s \<and> registered s \<and> feeds s \<and> final_fed s \<and>
     outcomes_ok s \<and> announced_ok s"

text \<open>The memoised value \<^verbatim>\<open>champion\<close> (line 235).\<close>

definition champion :: "home_state \<Rightarrow> string" where
  "champion s = (case winner (finalMatch s) of Some w \<Rightarrow> team_name w | None \<Rightarrow> ''TBD'')"

section \<open>Steps keep the bracket well formed\<close>

lemma react_simps:
  "react (Pick r i p) s g =
     (case handlePick r i p s of Inl err \<Rightarrow> (Inl err, g) | Inr s1 \<Rightarrow> (Inr (announceEffect s1), g))"
  "react Simulate s g = (Inr (announceEffect (simulated s g)), draws (used (matches s)) g)"
  "react Reset s g = (Inr (announceEffect (handleReset s)), g)"
  by (simp_all add: react_def dispatch_def run_handleSimulate simulated_eq split: sum.splits)

lemma simulated_announced_ok [simp]: "announced_ok (simulated s g) = announced_ok s"
  by (simp add: announced_ok_def)

lemma wellformed_simulated: "wellformed s \<Longrightarrow> wellformed (simulated s g)"
  by (simp add: wellformed_def simulated_picks_ok simulated_registered simulated_feeds simulated_final_fed)

lemma wellformed_init [simp]: "wellformed init_state"
  by (simp add: wellformed_def announced_ok_def)

lemma wellformed_handleReset: "announced_ok s \<Longrightarrow> wellformed (handleReset s)"
  by (simp add: handleReset_eq_init wellformed_def announced_ok_def)

lemma announceEffect_snd: "snd (announceEffect s) = s\<lparr>announced := announced (snd (announceEffect s))\<rparr>"
  by (simp add: announceEffect_eq)

lemma wellformed_announceEffect: "wellformed s \<Longrightarrow> wellformed (snd (announceEffect s))"
  using announced_ok_announceEffect [of s] by (simp add: wellformed_def announceEffect_eq)

lemma wellformed_handlePick:
  assumes "wellformed s" "handlePick r i p s = Inr s'"
  shows "wellformed s'"
proof -
  from assms(1) have sh: "shape_ok s" by (simp add: wellformed_def)
  then have "announced s' = announced s"
    using assms(2) by (simp add: handlePick_announced shape_ok_lengths)
  with assms sh show ?thesis
    by (simp add: wellformed_def announced_ok_def handlePick_shape_ok [OF assms(2)]
        handlePick_seeded [OF assms(2)] handlePick_picks_ok [OF assms(2)]
        handlePick_registered [OF assms(2)] handlePick_feeds [OF assms(2)]
        handlePick_final_fed [OF assms(2)] handlePick_outcomes_ok [OF assms(2)])
qed

lemma react_cases [consumes 1, case_names Pick Simulate Reset]:
  assumes "react e s g = (Inr (al, s'), g')"
    and "\<And>r i p s1. \<lbrakk>e = Pick r i p; handlePick r i p s = Inr s1; g' = g;
            announceEffect s1 = (al, s')\<rbrakk> \<Longrightarrow> P"
    and "\<lbrakk>e = Simulate; g' = draws (used (matches s)) g;
            announceEffect (simulated s g) = (al, s')\<rbrakk> \<Longrightarrow> P"
    and "\<lbrakk>e = Reset; g' = g; announceEffect (handleReset s) = (al, s')\<rbrakk> \<Longrightarrow> P"
  shows P
  using assms by (cases e) (auto simp: react_simps split: sum.splits)

lemma react_wellformed:
  assumes "react e s g = (Inr (al, s'), g')" "wellformed s"
  shows "wellformed s'"
  using assms
proof (cases rule: react_cases)
  case (Pick r i p s1)
  with assms(2) wellformed_handlePick wellformed_announceEffect [of s1] show ?thesis
    by auto
next
  case Simulate
  with assms(2) wellformed_simulated [of s g] wellformed_announceEffect [of "simulated s g"]
  show ?thesis by auto
next
  case Reset
  with assms(2) wellformed_handleReset [of s] wellformed_announceEffect [of "handleReset s"]
  show ?thesis by (auto simp: wellformed_def)
qed

lemma react_all_announced: "react e s g = (Inr (al, s'), g') \<Longrightarrow> all_announced s'"
  by (cases rule: react_cases) (use all_announced_announceEffect in \<open>auto dest: sym [THEN arg_cong [where f = snd]]\<close>)

definition reachable :: "home_state \<Rightarrow> bool" where
  "reachable s \<longleftrightarrow> (\<exists>out. run s out)"

lemma reachable_init [simp]: "reachable init_state"
  unfolding reachable_def by (blast intro: run.start)

lemma reachable_react: "reachable s \<Longrightarrow> react e s g = (Inr (al, s'), g') \<Longrightarrow> reachable s'"
  unfolding reachable_def by (blast intro: run.step)

lemma reachable_pick:
  "reachable s \<Longrightarrow> handlePick r i p s = Inr s1 \<Longrightarrow> reachable (snd (announceEffect s1))"
  by (rule reachable_react [where e = "Pick r i p" and g = undefined])
     (auto simp: react_simps intro: prod.collapse [symmetric])

lemma reachable_simulate: "reachable s \<Longrightarrow> reachable (snd (announceEffect (simulated s g)))"
  by (rule reachable_react [where e = Simulate and g = g])
     (auto simp: react_simps intro: prod.collapse [symmetric])

lemma reachable_reset: "reachable s \<Longrightarrow> reachable (snd (announceEffect (handleReset s)))"
  by (rule reachable_react [where e = Reset and g = undefined])
     (auto simp: react_simps intro: prod.collapse [symmetric])

lemma run_wellformed: "run s out \<Longrightarrow> wellformed s \<and> all_announced s"
proof (induction rule: run.induct)
  case start
  show ?case by simp
next
  case (step s out e g al s' g')
  then show ?case
    by (blast intro: react_wellformed react_all_announced)
qed

lemma react_log:
  assumes "react e s g = (Inr (al, s'), g')" "shape_ok s"
  shows "announced s' = announced s @ newlyReached (points s') (announced s) \<and>
         al = alertsFor (newlyReached (points s') (announced s))"
  using assms
  by (cases rule: react_cases)
     (auto simp: announceEffect_eq handlePick_announced shape_ok_lengths)

lemma run_log: "run s out \<Longrightarrow> out = alertsFor (announced s)"
proof (induction rule: run.induct)
  case start
  show ?case by simp
next
  case (step s out e g al s' g')
  from step.hyps(1) have "shape_ok s"
    using run_wellformed by (auto simp: wellformed_def)
  from react_log [OF step.hyps(2) this] step.IH show ?case
    by simp
qed

lemma react_total:
  assumes "shape_ok s" "\<forall>r i p. e = Pick r i p \<longrightarrow> valid_index r i"
  shows "\<exists>al s'. fst (react e s g) = Inr (al, s')"
proof (cases e)
  case (Pick r i p)
  with assms show ?thesis
    by (cases r) (auto simp: react_simps handlePick_eqs shape_ok_lengths intro: prod.exhaust)
qed (auto simp: react_simps intro: prod.exhaust)

fun session :: "event list \<Rightarrow> home_state \<Rightarrow> rng \<Rightarrow> (string list \<times> home_state) result \<times> rng" where
  "session [] s g = (Inr ([], s), g)"
| "session (e # es) s g =
    (case react e s g of
       (Inl err, g') \<Rightarrow> (Inl err, g')
     | (Inr (al, s'), g') \<Rightarrow>
         (case session es s' g' of
            (Inl err, g'') \<Rightarrow> (Inl err, g'')
          | (Inr (out, s''), g'') \<Rightarrow> (Inr (al @ out, s''), g'')))"

lemma session_run:
  "run s out \<Longrightarrow> session es s g = (Inr (out', s'), g') \<Longrightarrow> run s' (out @ out')"
proof (induction es arbitrary: s out g out')
  case Nil
  then show ?case by simp
next
  case (Cons e es)
  from Cons.prems(2) obtain al s1 g1 out1 where
    r: "react e s g = (Inr (al, s1), g1)" and
    t: "session es s1 g1 = (Inr (out1, s'), g')" and o: "out' = al @ out1"
    by (auto split: prod.splits sum.splits)
  from Cons.prems(1) r have "run s1 (out @ al)" by (rule run.step)
  from Cons.IH [OF this t] o show ?case by simp
qed

lemma run_distinct: "run s out \<Longrightarrow> distinct out"
  using run_log [of s out] run_wellformed [of s out]
  by (simp add: wellformed_def distinct_alertsFor)

lemma session_log:
  assumes "run s out" "session es s g = (Inr (out', s'), g')"
  shows "\<exists>nr. announced s' = announced s @ nr \<and> out' = alertsFor nr"
  using assms
proof (induction es arbitrary: s out g out')
  case Nil
  then show ?case by simp
next
  case (Cons e es)
  from Cons.prems(2) obtain al s1 g1 out1 where
    r: "react e s g = (Inr (al, s1), g1)" and
    t: "session es s1 g1 = (Inr (out1, s'), g')" and o: "out' = al @ out1"
    by (auto split: prod.splits sum.splits)
  from Cons.prems(1) have "shape_ok s"
    using run_wellformed by (auto simp: wellformed_def)
  from react_log [OF r this] obtain nr1 where
    n1: "announced s1 = announced s @ nr1" "al = alertsFor nr1" by blast
  from Cons.prems(1) r have "run s1 (out @ al)" by (rule run.step)
  from Cons.IH [OF this t] obtain nr2 where "announced s' = announced s1 @ nr2" "out1 = alertsFor nr2"
    by blast
  with n1 o show ?case by (intro exI [of _ "nr1 @ nr2"]) simp
qed

lemma draws_sconst [simp]: "draws n (sconst x) = sconst x"
  by (induction n) (simp_all add: draws_def)

lemma sf_pick_from_qf:
  assumes "feeds s" "pick_ok (sf s ! k)" "k < 2" "winner (sf s ! k) = Some t"
  shows "winner (qf s ! (2 * k)) = Some t \<or> winner (qf s ! (2 * k + 1)) = Some t"
proof -
  from assms(3) have "k = 0 \<or> k = 1" by auto
  with assms(1,2,4) show ?thesis
    by (auto simp: feeds_def pick_ok_def in_slots_def numeral_3_eq_3 numeral_2_eq_2)
qed

lemma target_double: "k < 2 \<Longrightarrow> target (int (2 * k)) = k \<and> target (int (2 * k + 1)) = k"
  by (auto simp: target_def)

lemma champion_path:
  assumes "wellformed s" "winner (finalMatch s) = Some t"
  shows "\<exists>k < 2. \<exists>j < 4. target (int j) = k \<and> winner (sf s ! k) = Some t \<and>
           winner (qf s ! j) = Some t"
proof -
  from assms(1) have sh: "length (qf s) = 4" "length (sf s) = 2"
    and p: "list_all pick_ok (sf s)" "pick_ok (finalMatch s)"
    and f: "feeds s" "final_fed s"
    by (simp_all add: wellformed_def shape_ok_lengths picks_ok_iff)
  from p(2) f(2) assms(2) have "winner (sf s ! 0) = Some t \<or> winner (sf s ! 1) = Some t"
    by (auto simp: pick_ok_def in_slots_def final_fed_def)
  then obtain k where k: "k < 2" "winner (sf s ! k) = Some t"
    by (auto intro: that [of 0] that [of 1])
  with p(1) sh have "pick_ok (sf s ! k)" by (simp add: list_all_nthD)
  from sf_pick_from_qf [OF f(1) this k] obtain j where
    "j = 2 * k \<or> j = 2 * k + 1" "winner (qf s ! j) = Some t"
    by blast
  with k target_double [OF k(1)] have "j < 4 \<and> target (int j) = k \<and> winner (qf s ! j) = Some t"
    by auto
  with k show ?thesis by blast
qed

lemma name_not_TBD: "t \<in> set initialTeams \<Longrightarrow> team_name t \<noteq> ''TBD''"
  by (auto simp: initialTeams_def)

lemma champion_Some:
  assumes "registered s" "winner (finalMatch s) = Some t"
  shows "champion s = team_name t \<and> champion s \<noteq> ''TBD'' \<and> t \<in> set initialTeams"
proof -
  from assms have "t \<in> set initialTeams"
    by (auto simp: registered_iff known_def teams_of_def)
  with assms(2) show ?thesis
    by (simp add: champion_def name_not_TBD)
qed

text \<open>The equations that evaluate a session on the initial state.\<close>

lemmas eval_simps =
  react_simps run_simps simulated_eq decide_def rest_def contested_def
  announceEffect_eq newlyReached_eq thresholds_eq points_def calc_def js_nth_initialTeams

section \<open>Properties of the component\<close>



text \<open>
  C11. The alerts of a whole session are the messages of the thresholds in
  \<open>announced\<close>, in the order they were reached: no message is shown twice,
  and at most three are shown, whatever the user does.
\<close>

theorem alerts_once:
  assumes "run s out"
  shows "out = alertsFor (announced s) \<and> distinct out \<and> length out \<le> 3"
proof -
  from assms have w: "announced_ok s"
    using run_wellformed by (auto simp: wellformed_def)
  then have "set (announced s) \<subseteq> set thresholds" by (simp add: announced_ok_def)
  with w run_log [OF assms] show ?thesis
    using length_announced_le [OF w] by (simp add: distinct_alertsFor length_alertsFor)
qed

theorem alerts_once_witness:
  "\<exists>s out. run s out \<and> announced s = [6] \<and> out = alertsFor [6] \<and> distinct out \<and> length out \<le> 3"
proof -
  obtain s out g where s: "session [Pick QF 0 A, Simulate] init_state (sconst 0) = (Inr (out, s), g)"
    and f: "announced s = [6]"
    by (simp add: eval_simps)
  from session_run [OF run.start s] have r: "run s out" by simp
  from alerts_once [OF r] r f show ?thesis by auto
qed



text \<open>
  C16. The champion the component shows came through the bracket: in every
  reachable state the pick of the final is one of the registry's teams, its
  name is what \<^verbatim>\<open>champion\<close> shows, and the same team is the pick of a
  semifinal and of a quarterfinal that feeds this semifinal.
\<close>

theorem champion_was_picked:
  assumes "run s out" "winner (finalMatch s) = Some t"
  shows "champion s = team_name t \<and> champion s \<noteq> ''TBD'' \<and> t \<in> set initialTeams \<and>
    (\<exists>k < 2. \<exists>j < 4. target (int j) = k \<and> winner (sf s ! k) = Some t \<and>
        winner (qf s ! j) = Some t)"
proof -
  from assms(1) have w: "wellformed s" using run_wellformed by blast
  then have "registered s" by (simp add: wellformed_def)
  from champion_Some [OF this assms(2)] champion_path [OF w assms(2)] show ?thesis
    by blast
qed

theorem champion_was_picked_witness:
  "\<exists>s out. run s out \<and> winner (finalMatch s) = Some (initialTeams ! 1) \<and>
     champion s = ''morrog'' \<and> winner (sf s ! 0) = Some (initialTeams ! 1) \<and>
     winner (qf s ! 0) = Some (initialTeams ! 1)"
proof -
  obtain s out g where
    s: "session [Pick QF 0 B, Pick SF 0 A, Pick F 0 A] init_state (sconst 0) = (Inr (out, s), g)"
    and f: "winner (finalMatch s) = Some (initialTeams ! 1)"
      "winner (sf s ! 0) = Some (initialTeams ! 1)" "winner (qf s ! 0) = Some (initialTeams ! 1)"
    by (simp add: eval_simps)
  from session_run [OF run.start s] have r: "run s out" by simp
  from champion_was_picked [OF r f(1)] r f show ?thesis
    by (auto simp: initialTeams_def)
qed

text \<open>
  C32. \<^verbatim>\<open>Reset\<close> restores the bracket and keeps \<open>announced\<close>, and it alerts
  nothing. So a message that was shown once is never shown again in the rest
  of the session, also when the bracket is reset and the score passes the same
  threshold a second time.
\<close>

theorem reset_keeps_announced:
  assumes "run s out" "session (Reset # es) s g = (Inr (out', s'), g')"
  shows "react Reset s g = (Inr ([], init_state\<lparr>announced := announced s\<rparr>), g) \<and>
         set out \<inter> set out' = {} \<and> set (announced s) \<subseteq> set (announced s')"
proof -
  have "react Reset s g = (Inr ([], init_state\<lparr>announced := announced s\<rparr>), g)"
    by (simp add: react_simps handleReset_eq_init announceEffect_eq newlyReached_eq thresholds_eq)
  moreover from session_run [OF assms] have "distinct (out @ out')"
    by (rule run_distinct)
  moreover from session_log [OF assms] have "set (announced s) \<subseteq> set (announced s')"
    by auto
  ultimately show ?thesis by auto
qed

theorem reset_keeps_announced_witness:
  "\<exists>s out s' out' g g'. run s out \<and> out = alertsFor [6] \<and>
     session [Reset, Pick QF 0 A, Simulate] s g = (Inr (out', s'), g') \<and>
     points s = 7 \<and> points s' = 7 \<and> out' = [] \<and> announced s' = [6]"
proof -
  obtain s out g where s: "session [Pick QF 0 A, Simulate] init_state (sconst 0) = (Inr (out, s), g)"
    and f: "announced s = [6]" "points s = 7"
    by (simp add: eval_simps)
  from session_run [OF run.start s] have r: "run s out" by simp
  then have o: "out = alertsFor [6]" using run_log f by metis
  have a: "alertsFor [6] \<noteq> []" by (simp add: alertsFor_def checkpoints_def)
  obtain s' out' g' where
    s': "session [Reset, Pick QF 0 A, Simulate] s (sconst 0) = (Inr (out', s'), g')"
    and f': "points s' = 7" "announced s' = announced s"
    by (simp add: eval_simps handleReset_eq_init f)
  from reset_keeps_announced [OF r s'] session_log [OF r s'] f' a o have "out' = []"
    by auto
  with r s' f f' o show ?thesis by metis
qed

text \<open>
  Played from the initial state, the perfect bracket shows the three messages
  in the order of the thresholds, in the one effect that follows the
  simulation.
\<close>

lemma perfect_bracket_alerts:
  "\<exists>s g. session [Pick QF 0 A, Pick QF 1 A, Pick QF 2 A, Pick QF 3 A, Pick SF 0 A, Pick SF 1 A,
                  Pick F 0 A, Simulate] init_state (sconst 0) = (Inr (alertsFor [6, 12, 18], s), g) \<and>
     points s = 21 \<and> champion s = ''papaneus'' \<and> announced s = [6, 12, 18]"
proof -
  have "team_name (initialTeams ! 0) = ''papaneus''" by (simp add: initialTeams_def)
  then show ?thesis
    by (simp add: eval_simps champion_def)
qed

lemma perfect_from_reset:
  "\<exists>al s' g'. session [Pick QF 0 A, Pick QF 1 A, Pick QF 2 A, Pick QF 3 A, Pick SF 0 A, Pick SF 1 A,
        Pick F 0 A, Simulate] (init_state\<lparr>announced := a\<rparr>) (sconst 0) = (Inr (al, s'), g') \<and>
     points s' = 21 \<and> champion s' = ''papaneus''"
proof -
  have "team_name (initialTeams ! 0) = ''papaneus''" by (simp add: initialTeams_def)
  then show ?thesis
    by (simp add: eval_simps champion_def)
qed

lemma react_Reset: "react Reset s g = (Inr ([], init_state\<lparr>announced := announced s\<rparr>), g)"
  by (simp add: eval_simps handleReset_eq_init)

lemma session_Cons:
  assumes "react e s g = (Inr (al, s1), g1)" "session es s1 g1 = (Inr (out, s2), g2)"
  shows "session (e # es) s g = (Inr (al @ out, s2), g2)"
  using assms by simp

text \<open>
  C24. A perfect bracket can always be played. From every state the component
  reaches, a reset, the pick of the first slot of every match and a simulation
  with draws below 0.5 are handled without an error and lead to 21 points, the
  champion \<^verbatim>\<open>papaneus\<close> and all three checkpoints announced.
\<close>

theorem perfect_bracket:
  assumes "run s out"
  shows "\<exists>out' s' g'. session [Reset, Pick QF 0 A, Pick QF 1 A, Pick QF 2 A, Pick QF 3 A,
        Pick SF 0 A, Pick SF 1 A, Pick F 0 A, Simulate] s (sconst 0) = (Inr (out', s'), g') \<and>
     run s' (out @ out') \<and> points s' = 21 \<and> champion s' = ''papaneus'' \<and>
     {6, 12, 18} \<subseteq> set (announced s')"
proof -
  let ?es = "[Pick QF 0 A, Pick QF 1 A, Pick QF 2 A, Pick QF 3 A, Pick SF 0 A, Pick SF 1 A,
    Pick F 0 A, Simulate]"
  from perfect_from_reset [of "announced s"] obtain al s' g' where
    p: "session ?es (init_state\<lparr>announced := announced s\<rparr>) (sconst 0) = (Inr (al, s'), g')"
    and f: "points s' = 21" "champion s' = ''papaneus''"
    by blast
  have e: "session (Reset # ?es) s (sconst 0) = (Inr (al, s'), g')"
    using session_Cons [OF react_Reset p] by simp
  from session_run [OF assms e] have r: "run s' (out @ al)" .
  then have "all_announced s'" using run_wellformed by blast
  with f(1) have "{6, 12, 18} \<subseteq> set (announced s')"
    by (auto simp: all_announced_def thresholds_eq)
  with e r f show ?thesis by blast
qed

theorem perfect_bracket_witness:
  "\<exists>out' s' g'. session [Reset, Pick QF 0 A, Pick QF 1 A, Pick QF 2 A, Pick QF 3 A,
        Pick SF 0 A, Pick SF 1 A, Pick F 0 A, Simulate] init_state (sconst 0) = (Inr (out', s'), g') \<and>
     run s' out' \<and> points s' = 21 \<and> champion s' = ''papaneus''"
  using perfect_bracket [OF run.start] by auto



end
