(* ===== verification/View.thy ===== *)
theory View
  imports Session
begin

text \<open>
  What the component \<^verbatim>\<open>Home\<close> of \<^verbatim>\<open>src/app/page.tsx\<close> renders, as far as it
  decides what the user can do and see: the helpers \<^verbatim>\<open>getCardStateClass\<close>
  (lines 37-44), \<^verbatim>\<open>getSeedStatus\<close> (46-49) and \<^verbatim>\<open>seedButton\<close> (64-103), the
  seven cards of the bracket (326-477), the progress bar (289-323) and the two
  buttons of the header (271-286). A seed is a placeholder or a button that
  carries the event its \<^verbatim>\<open>onClick\<close> raises; \<open>offered\<close> lists the events of
  all buttons of a rendered view. The lemmas show that rendering a well-shaped
  bracket never throws, that no offered event makes the component throw, and
  that the colours agree with the score.
\<close>

section \<open>Cards and seeds\<close>

definition buttonBase :: string where
  "buttonBase = ''w-full rounded-md border border-white/10 bg-white/5 px-2 py-1.5 text-left text-xs text-white hover:bg-white/10 focus:outline-none focus-visible:ring-2 focus-visible:ring-cyan-400''"

definition bracketCard :: string where
  "bracketCard = ''rounded-md border border-white/10 bg-zinc-900/60 p-2 backdrop-blur-sm''"

definition getCardStateClass :: "Match option \<Rightarrow> string" where
  "getCardStateClass mo =
    (case mo of
       None \<Rightarrow> ''''
     | Some m \<Rightarrow>
         (case outcome m of
            None \<Rightarrow> ''''
          | Some oc \<Rightarrow>
              (case winner m of
                 None \<Rightarrow> ''border-white/10''
               | Some w \<Rightarrow>
                   if team_id w = team_id oc
                   then ''border-emerald-500/70 ring-1 ring-emerald-500/40''
                   else ''border-rose-500/70 ring-1 ring-rose-500/40'')))"

datatype status = Win | Lose | Neutral

definition getSeedStatus :: "Match option \<Rightarrow> Team option \<Rightarrow> status" where
  "getSeedStatus mo team =
    (case (Option.bind mo outcome, team) of
       (Some oc, Some t) \<Rightarrow> if team_id oc = team_id t then Win else Lose
     | _ \<Rightarrow> Neutral)"

text \<open>
  The element \<^verbatim>\<open>seedButton\<close> returns: the placeholder \<^verbatim>\<open>TBD\<close> for an empty
  slot, otherwise a button with its class, its label, \<^verbatim>\<open>aria-pressed\<close>,
  \<^verbatim>\<open>aria-label\<close> and the event of its \<^verbatim>\<open>onClick\<close>.
\<close>

datatype seed =
  Placeholder
| SeedButton (className: string) (label: string) (pressed: bool) (ariaLabel: string)
    (onClick: event)

definition seedButton :: "Team option \<Rightarrow> bool \<Rightarrow> event \<Rightarrow> status \<Rightarrow> seed" where
  "seedButton team isSelected click st =
    (case team of
       None \<Rightarrow> Placeholder
     | Some t \<Rightarrow>
         (let tone =
                (if st = Win then ''bg-emerald-500/20 border-emerald-400/40 text-emerald-100''
                 else if st = Lose then ''bg-rose-500/20 border-rose-400/40 text-rose-100''
                 else '''')
          in SeedButton
               (buttonBase @ '' '' @ tone @ '' '' @
                  (if isSelected then ''ring-2 ring-cyan-400/70'' else ''''))
               (team_name t) isSelected (''Select '' @ team_name t) click))"

text \<open>
  The user acts on a seed with a click or a key; the \<^verbatim>\<open>onKeyDown\<close> handler
  of the button calls \<^verbatim>\<open>onClick\<close> for \<^verbatim>\<open>Enter\<close> and for the space bar.
\<close>

datatype input = Click | KeyDown string

definition seedInput :: "seed \<Rightarrow> input \<Rightarrow> event option" where
  "seedInput sd inp =
    (case sd of
       Placeholder \<Rightarrow> None
     | SeedButton c l pr al ev \<Rightarrow>
         (case inp of
            Click \<Rightarrow> Some ev
          | KeyDown k \<Rightarrow> if k = ''Enter'' \<or> k = '' '' then Some ev else None))"

text \<open>
  The comparison \<^verbatim>\<open>m.winner?.id === m.teamA?.id\<close>: both sides are
  \<^verbatim>\<open>undefined\<close> when the team is absent.
\<close>

definition sameId :: "Team option \<Rightarrow> Team option \<Rightarrow> bool" where
  "sameId x y \<longleftrightarrow> map_option team_id x = map_option team_id y"

record card =
  cardClass :: string
  cardTitle :: string
  seedA :: seed
  seedB :: seed

definition matchCard :: "string \<Rightarrow> round \<Rightarrow> int \<Rightarrow> Match \<Rightarrow> card" where
  "matchCard title r i m =
    \<lparr>cardClass = bracketCard @ '' '' @ getCardStateClass (Some m),
     cardTitle = title,
     seedA = seedButton (teamA m) (sameId (winner m) (teamA m)) (Pick r i A)
               (getSeedStatus (Some m) (teamA m)),
     seedB = seedButton (teamB m) (sameId (winner m) (teamB m)) (Pick r i B)
               (getSeedStatus (Some m) (teamB m))\<rparr>"

section \<open>The progress bar\<close>

text \<open>
  The width of the bar in percent, \<^verbatim>\<open>Math.min((points / 18) * 100, 100)\<close>, and
  for every checkpoint its position in percent and whether its dot is lit.
\<close>

definition progressWidth :: "nat \<Rightarrow> real" where
  "progressWidth pts = min ((real pts / 18) * 100) 100"

record dot =
  dotLeft :: real
  dotLit :: bool
  dotName :: string

definition checkpointDot :: "nat \<Rightarrow> Checkpoint \<Rightarrow> dot" where
  "checkpointDot pts cp =
    \<lparr>dotLeft = (real (cp_points cp) / 18) * 100, dotLit = (pts \<ge> cp_points cp),
     dotName = cp_name cp\<rparr>"

section \<open>The rendered component\<close>

record view =
  headerButtons :: "event list"
  pointsText :: string
  barWidth :: real
  dots :: "dot list"
  cards :: "card list"
  championText :: string

text \<open>
  The JSX reads \<^verbatim>\<open>qf[0]\<close> to \<^verbatim>\<open>qf[3]\<close>, \<^verbatim>\<open>sf[0]\<close> and \<^verbatim>\<open>sf[1]\<close> and takes their
  properties: rendering throws when one of them is \<^verbatim>\<open>undefined\<close>.
\<close>

definition cardAt :: "string \<Rightarrow> round \<Rightarrow> Match list \<Rightarrow> int \<Rightarrow> card result" where
  "cardAt title r ms i =
    (case js_nth ms i of None \<Rightarrow> Inl TypeError | Some m \<Rightarrow> Inr (matchCard title r i m))"

definition render :: "home_state \<Rightarrow> view result" where
  "render s =
    rbind (cardAt ''Quarterfinal 1'' QF (qf s) 0) (\<lambda>c1.
    rbind (cardAt ''Quarterfinal 2'' QF (qf s) 1) (\<lambda>c2.
    rbind (cardAt ''Quarterfinal 3'' QF (qf s) 2) (\<lambda>c3.
    rbind (cardAt ''Quarterfinal 4'' QF (qf s) 3) (\<lambda>c4.
    rbind (cardAt ''Semifinal 1'' SF (sf s) 0) (\<lambda>c5.
    rbind (cardAt ''Semifinal 2'' SF (sf s) 1) (\<lambda>c6.
    Inr \<lparr>headerButtons = [Reset, Simulate],
         pointsText = ''Punten: '' @ show_nat (points s),
         barWidth = progressWidth (points s),
         dots = map (checkpointDot (points s)) checkpoints,
         cards = [c1, c2, c3, c4, c5, c6, matchCard ''Final'' F 0 (finalMatch s)],
         championText = ''Champion: '' @ champion s\<rparr>))))))"

text \<open>The events a view offers: the header buttons and every seed that is a button.\<close>

definition seedEvents :: "seed \<Rightarrow> event list" where
  "seedEvents sd = (case seedInput sd Click of Some e \<Rightarrow> [e] | None \<Rightarrow> [])"

text \<open>The attribute \<^verbatim>\<open>aria-pressed\<close> of a seed; a placeholder has none.\<close>

definition is_pressed :: "seed \<Rightarrow> bool" where
  "is_pressed sd = (case sd of Placeholder \<Rightarrow> False | SeedButton c l pr al ev \<Rightarrow> pr)"

text \<open>The seed of a slot of a card.\<close>

definition seedOf :: "side \<Rightarrow> card \<Rightarrow> seed" where
  "seedOf p c = (if p = A then seedA c else seedB c)"

definition offered :: "view \<Rightarrow> event list" where
  "offered v = headerButtons v @ concat (map (\<lambda>c. seedEvents (seedA c) @ seedEvents (seedB c)) (cards v))"

section \<open>What a view offers\<close>

definition cardEvents :: "round \<Rightarrow> int \<Rightarrow> Match \<Rightarrow> event list" where
  "cardEvents r i m = map (Pick r i) (filter (\<lambda>p. slot p m \<noteq> None) [A, B])"

lemma seedEvents_seedButton [simp]:
  "seedEvents (seedButton team sel ev st) = (if team = None then [] else [ev])"
  by (simp add: seedEvents_def seedInput_def seedButton_def Let_def split: option.splits)

lemma matchCard_events [simp]:
  "seedEvents (seedA (matchCard t r i m)) @ seedEvents (seedB (matchCard t r i m)) = cardEvents r i m"
  by (simp add: matchCard_def cardEvents_def)

lemma Pick_mem_cardEvents [simp]:
  "Pick r' i' p \<in> set (cardEvents r i m) \<longleftrightarrow> r' = r \<and> i' = i \<and> slot p m \<noteq> None"
  by (cases p) (auto simp: cardEvents_def)

lemma cardEvents_are_picks: "e \<in> set (cardEvents r i m) \<Longrightarrow> \<exists>p. e = Pick r i p"
  by (auto simp: cardEvents_def)

lemma cardAt_eq:
  "cardAt title r ms i =
    (if 0 \<le> i \<and> nat i < length ms then Inr (matchCard title r i (ms ! nat i)) else Inl TypeError)"
  by (simp add: cardAt_def js_nth_def)

lemma render_eq:
  assumes "length (qf s) = 4" "length (sf s) = 2"
  shows "render s =
    Inr \<lparr>headerButtons = [Reset, Simulate],
         pointsText = ''Punten: '' @ show_nat (points s),
         barWidth = progressWidth (points s),
         dots = map (checkpointDot (points s)) checkpoints,
         cards = [matchCard ''Quarterfinal 1'' QF 0 (qf s ! 0),
                  matchCard ''Quarterfinal 2'' QF 1 (qf s ! 1),
                  matchCard ''Quarterfinal 3'' QF 2 (qf s ! 2),
                  matchCard ''Quarterfinal 4'' QF 3 (qf s ! 3),
                  matchCard ''Semifinal 1'' SF 0 (sf s ! 0),
                  matchCard ''Semifinal 2'' SF 1 (sf s ! 1),
                  matchCard ''Final'' F 0 (finalMatch s)],
         championText = ''Champion: '' @ champion s\<rparr>"
  using assms by (simp add: render_def cardAt_eq)

lemma offered_render:
  assumes "shape_ok s" "render s = Inr v"
  shows "offered v = [Reset, Simulate] @
    cardEvents QF 0 (qf s ! 0) @ cardEvents QF 1 (qf s ! 1) @ cardEvents QF 2 (qf s ! 2) @
    cardEvents QF 3 (qf s ! 3) @ cardEvents SF 0 (sf s ! 0) @ cardEvents SF 1 (sf s ! 1) @
    cardEvents F 0 (finalMatch s)"
proof -
  from assms(1) have "length (qf s) = 4" "length (sf s) = 2"
    by (simp_all add: shape_ok_lengths)
  from render_eq [OF this] assms(2) show ?thesis
    by (auto simp: offered_def)
qed

lemma offered_pick_iff:
  assumes "shape_ok s" "render s = Inr v"
  shows "Pick r i p \<in> set (offered v) \<longleftrightarrow>
    valid_index r i \<and> (r = F \<longrightarrow> i = 0) \<and> (\<exists>m. match_at r s i = Some m \<and> slot p m \<noteq> None)"
proof -
  from assms(1) have len: "length (qf s) = 4" "length (sf s) = 2"
    by (simp_all add: shape_ok_lengths)
  have i4: "0 \<le> i \<and> i < 4 \<longleftrightarrow> i = 0 \<or> i = 1 \<or> i = 2 \<or> i = 3"
    and i2: "0 \<le> i \<and> i < 2 \<longleftrightarrow> i = 0 \<or> i = 1"
    by auto
  show ?thesis
    unfolding offered_render [OF assms]
    by (cases r) (auto simp: len i4 i2 js_nth_def)
qed

lemma offered_cases:
  assumes "shape_ok s" "render s = Inr v" "e \<in> set (offered v)"
  shows "e = Reset \<or> e = Simulate \<or> (\<exists>r i p. e = Pick r i p \<and> valid_index r i)"
proof (cases e)
  case (Pick r i p)
  with offered_pick_iff [OF assms(1,2), of r i p] assms(3) show ?thesis by simp
qed simp_all

lemma sameId_known: "known m \<Longrightarrow> sameId (winner m) (slot p m) \<longleftrightarrow> winner m = slot p m"
  by (cases p; cases "winner m"; cases "teamA m"; cases "teamB m")
     (auto simp: sameId_def known_def teams_of_def team_id_inj)

lemma pressed_seedButton [simp]: "pressed (seedButton (Some t) sel ev st) = sel"
  by (simp add: seedButton_def Let_def)

lemma is_pressed_seedButton [simp]:
  "is_pressed (seedButton team sel ev st) \<longleftrightarrow> team \<noteq> None \<and> sel"
  by (simp add: is_pressed_def seedButton_def Let_def split: option.splits)

lemma cards_render:
  assumes "shape_ok s" "render s = Inr v" "c \<in> set (cards v)"
  shows "\<exists>title r i m. m \<in> set (matches s) \<and> c = matchCard title r i m"
proof -
  from assms(1) have len: "length (qf s) = 4" "length (sf s) = 2"
    by (simp_all add: shape_ok_lengths)
  then have "qf s ! 0 \<in> set (matches s)" "qf s ! 1 \<in> set (matches s)" "qf s ! 2 \<in> set (matches s)"
    "qf s ! 3 \<in> set (matches s)" "sf s ! 0 \<in> set (matches s)" "sf s ! 1 \<in> set (matches s)"
    "finalMatch s \<in> set (matches s)"
    by (simp_all add: matches_def)
  with render_eq [OF len] assms(2,3) show ?thesis by auto
qed

section \<open>Properties of the view\<close>

text \<open>
  C12. In every state the component reaches, rendering succeeds and no event
  that the rendered view offers makes the component throw: the seed buttons
  carry only indices of their own round, so the \<open>TypeError\<close> of
  \<^verbatim>\<open>handlePick\<close> cannot be raised through the user interface.
\<close>

theorem offered_safe:
  assumes "run s out"
  shows "\<exists>v. render s = Inr v \<and>
    (\<forall>e \<in> set (offered v). \<exists>al s'. fst (react e s g) = Inr (al, s') \<and> run s' (out @ al))"
proof -
  from assms have sh: "shape_ok s"
    using run_wellformed by (auto simp: wellformed_def)
  then obtain v where v: "render s = Inr v"
    using render_eq [of s] by (auto simp: shape_ok_lengths)
  have "\<exists>al s'. fst (react e s g) = Inr (al, s') \<and> run s' (out @ al)" if "e \<in> set (offered v)" for e
  proof -
    from offered_cases [OF sh v that] have "\<forall>r i p. e = Pick r i p \<longrightarrow> valid_index r i"
      by auto
    from react_total [OF sh this] obtain al s' where r: "fst (react e s g) = Inr (al, s')"
      by blast
    then have "react e s g = (Inr (al, s'), snd (react e s g))"
      by (metis prod.collapse)
    with assms have "run s' (out @ al)" by (rule run.step)
    with r show ?thesis by blast
  qed
  with v show ?thesis by blast
qed

theorem offered_safe_witness:
  "\<exists>v. render init_state = Inr v \<and> set (offered v) =
     {Reset, Simulate, Pick QF 0 A, Pick QF 0 B, Pick QF 1 A, Pick QF 1 B,
      Pick QF 2 A, Pick QF 2 B, Pick QF 3 A, Pick QF 3 B} \<and>
     (\<forall>e \<in> set (offered v). \<exists>al s'. fst (react e init_state (sconst 0)) = Inr (al, s'))"
proof -
  from offered_safe [OF run.start, of "sconst 0"] obtain v where
    v: "render init_state = Inr v" and
    s: "\<forall>e \<in> set (offered v). \<exists>al s'. fst (react e init_state (sconst 0)) = Inr (al, s')"
    by blast
  from offered_render [OF shape_ok_init v] have "set (offered v) =
     {Reset, Simulate, Pick QF 0 A, Pick QF 0 B, Pick QF 1 A, Pick QF 1 B,
      Pick QF 2 A, Pick QF 2 B, Pick QF 3 A, Pick QF 3 B}"
    by (auto simp: cardEvents_def init_state_def initialQf_def initialSf_def initialFinal_def
        seededMatch_def emptyMatch_def js_nth_initialTeams)
  with v s show ?thesis by blast
qed

text \<open>
  C35. The events a view of a well-shaped bracket offers are \<^verbatim>\<open>Reset\<close>,
  \<^verbatim>\<open>Simuleer\<close> and, for every match and every slot of it that holds a team, the
  pick of that slot: an empty slot shows the placeholder and offers nothing,
  and the other slot of the match need not be filled.
\<close>

theorem offered_events:
  assumes "shape_ok s" "render s = Inr v"
  shows "set (offered v) = {Reset, Simulate} \<union>
    {Pick r i p |r i p. valid_index r i \<and> (r = F \<longrightarrow> i = 0) \<and>
        (\<exists>m. match_at r s i = Some m \<and> slot p m \<noteq> None)}"
proof -
  have "e \<in> set (offered v) \<longleftrightarrow> e \<in> {Reset, Simulate} \<union>
    {Pick r i p |r i p. valid_index r i \<and> (r = F \<longrightarrow> i = 0) \<and>
        (\<exists>m. match_at r s i = Some m \<and> slot p m \<noteq> None)}" for e
  proof (cases e)
    case (Pick r i p)
    with offered_pick_iff [OF assms, of r i p] show ?thesis by simp
  qed (simp_all add: offered_render [OF assms] cardEvents_def)
  then show ?thesis by blast
qed

theorem offered_events_witness:
  "\<exists>s v g. fst (react (Pick QF 0 A) init_state g) = Inr ([], s) \<and> shape_ok s \<and> render s = Inr v \<and>
     Pick SF 0 A \<in> set (offered v) \<and> Pick SF 0 B \<notin> set (offered v) \<and>
     Pick F 0 A \<notin> set (offered v) \<and> teamB (sf s ! 0) = None"
proof -
  obtain s where s: "fst (react (Pick QF 0 A) init_state (sconst 0)) = Inr ([], s)"
    and f: "teamA (sf s ! 0) = js_nth initialTeams 0" "teamB (sf s ! 0) = None"
      "teamA (finalMatch s) = None" "length (qf s) = 4" "length (sf s) = 2"
    by (simp add: eval_simps alertsFor_def)
  then have "react (Pick QF 0 A) init_state (sconst 0) = (Inr ([], s), snd (react (Pick QF 0 A) init_state (sconst 0)))"
    by (metis prod.collapse)
  with run.start have "run s ([] @ [])" by (rule run.step)
  then have sh: "shape_ok s" using run_wellformed by (auto simp: wellformed_def)
  obtain v where v: "render s = Inr v" using render_eq [OF f(4,5)] by simp
  from offered_events [OF sh v] f s sh v show ?thesis
    by (auto simp: js_nth_def js_nth_initialTeams intro!: exI [of _ s] exI [of _ v])
qed

text \<open>
  C38. Rendering throws exactly when the bracket has fewer than four
  quarterfinals or fewer than two semifinals, and then it throws a
  \<open>TypeError\<close>: the JSX takes the slots of \<^verbatim>\<open>qf[0]\<close> to \<^verbatim>\<open>qf[3]\<close>, \<^verbatim>\<open>sf[0]\<close>
  and \<^verbatim>\<open>sf[1]\<close> without a test.
\<close>

theorem render_throws_iff:
  "render s = Inl e \<longleftrightarrow> e = TypeError \<and> (length (qf s) < 4 \<or> length (sf s) < 2)"
  by (auto simp: render_def cardAt_eq rbind_eq_Inl_iff split: if_splits)

text \<open>
  C36. The colour of a card agrees with the score of its match: the card is
  green exactly when the match scores three points, it has no state class
  exactly when the match scores nothing, and a match that scores one point
  is red when it has a pick and neutral when it has none.
\<close>

theorem card_colour_score:
  "getCardStateClass (Some m) =
     (if calc (Some m) = 3 then ''border-emerald-500/70 ring-1 ring-emerald-500/40''
      else if calc (Some m) = 0 then []
      else if winner m = None then ''border-white/10''
      else ''border-rose-500/70 ring-1 ring-rose-500/40'')"
  by (simp add: getCardStateClass_def calc_def split: option.splits)

text \<open>
  C37. The button of a filled slot, on a match whose teams come from the
  registry: its label is the team's name, its \<^verbatim>\<open>onClick\<close> picks this slot of
  this match, it is shown as pressed exactly when the team is the pick of the
  match, and its status is \<^verbatim>\<open>win\<close> exactly when the team is the outcome,
  \<^verbatim>\<open>lose\<close> for another outcome and \<^verbatim>\<open>neutral\<close> without one.
\<close>

theorem seed_button_shows_pick:
  assumes "known m" "slot p m = Some t"
  shows "(\<exists>cls. seedOf p (matchCard title r i m) =
            SeedButton cls (team_name t) (winner m = Some t) (''Select '' @ team_name t) (Pick r i p)) \<and>
         getSeedStatus (Some m) (slot p m) =
           (if outcome m = None then Neutral else if outcome m = Some t then Win else Lose)"
proof -
  have "sameId (winner m) (slot p m) \<longleftrightarrow> winner m = Some t"
    using sameId_known [OF assms(1), of p] assms(2) by simp
  with assms(2) have "\<exists>cls. seedOf p (matchCard title r i m) =
      SeedButton cls (team_name t) (winner m = Some t) (''Select '' @ team_name t) (Pick r i p)"
    by (cases p) (simp_all add: seedOf_def matchCard_def seedButton_def Let_def)
  moreover from assms have "getSeedStatus (Some m) (slot p m) =
      (if outcome m = None then Neutral else if outcome m = Some t then Win else Lose)"
    by (cases p; cases "outcome m")
       (auto simp: getSeedStatus_def known_def teams_of_def team_id_inj)
  ultimately show ?thesis by blast
qed

theorem seed_button_shows_pick_witness:
  "known (initialQf ! 0) \<and> slot B (initialQf ! 0) = Some (initialTeams ! 1) \<and>
   (\<exists>cls. seedOf B (matchCard ''Quarterfinal 1'' QF 0 (initialQf ! 0)) =
            SeedButton cls ''morrog'' False ''Select morrog'' (Pick QF 0 B))"
proof -
  have k: "known (initialQf ! 0)" and s: "slot B (initialQf ! 0) = Some (initialTeams ! 1)"
    and w: "winner (initialQf ! 0) = None"
    by (simp_all add: initialQf_def seededMatch_def js_nth_initialTeams known_def teams_of_def)
  have "team_name (initialTeams ! 1) = ''morrog''" by (simp add: initialTeams_def)
  with seed_button_shows_pick [OF k s, of "''Quarterfinal 1''" QF 0] k s w show ?thesis
    by simp
qed

text \<open>
  The progress bar: its width is the score as a share of 18 points in
  percent, capped at 100, so it is full exactly from 18 points on; the three
  dots stand at a third, two thirds and the end of the bar, and a dot is lit
  exactly when the score has reached its checkpoint.
\<close>

lemma progress_bar:
  "progressWidth pts = (if pts < 18 then real pts * 100 / 18 else 100) \<and>
   0 \<le> progressWidth pts \<and> progressWidth pts \<le> 100 \<and>
   map dotLeft (map (checkpointDot pts) checkpoints) = [100 / 3, 200 / 3, 100] \<and>
   map dotLit (map (checkpointDot pts) checkpoints) = [6 \<le> pts, 12 \<le> pts, 18 \<le> pts]"
  by (simp add: progressWidth_def checkpointDot_def checkpoints_def min_def)

end
