(* ===== verification/Typing.thy ===== *)
theory Typing
  imports Session
begin

text \<open>
  A typing of the bracket of \<^verbatim>\<open>src/app/page.tsx\<close>. The TypeScript type
  \<^verbatim>\<open>Match\<close> lets every slot hold any team. The bracket the component builds
  is more regular: a slot can only ever hold the teams of the quarterfinals
  above it. \<open>slot_type\<close> gives every slot of every match its set of teams, a
  segment of the registry; a match is well typed when its slots hold teams of
  their types and its pick and its outcome hold teams of one of the two. The
  lemmas show that every handler and the effect preserve the typing, so every
  state the component reaches is well typed, and that the two slots of a
  match never hold the same team.
\<close>

section \<open>Segments of the registry\<close>

definition seg :: "nat \<Rightarrow> nat \<Rightarrow> Team set" where
  "seg a n = set (take n (drop a initialTeams))"

definition idx :: "nat \<Rightarrow> nat \<Rightarrow> nat set" where
  "idx a n = {k. a \<le> k \<and> k < a + n \<and> k < 8}"

lemma seg_image: "seg a n = (!) initialTeams ` idx a n"
proof (intro set_eqI iffI)
  fix t assume "t \<in> seg a n"
  then obtain j where "j < n" "j < 8 - a" "t = initialTeams ! (a + j)"
    by (auto simp: seg_def in_set_conv_nth)
  then show "t \<in> (!) initialTeams ` idx a n"
    by (intro image_eqI [of _ _ "a + j"]) (auto simp: idx_def)
next
  fix t assume "t \<in> (!) initialTeams ` idx a n"
  then obtain k where k: "a \<le> k" "k < a + n" "k < 8" "t = initialTeams ! k"
    by (auto simp: idx_def)
  then have "k - a < length (take n (drop a initialTeams))" "take n (drop a initialTeams) ! (k - a) = t"
    by auto
  then show "t \<in> seg a n"
    unfolding seg_def by (metis nth_mem)
qed

lemma distinct_initialTeams: "distinct initialTeams"
  using distinct_team_ids by (rule distinct_map [THEN iffD1, THEN conjunct1])

lemma inj_on_registry: "inj_on ((!) initialTeams) (idx a n \<union> idx b m)"
  by (rule inj_on_nth [OF distinct_initialTeams]) (auto simp: idx_def)

lemma seg_disjoint: "a + n \<le> b \<Longrightarrow> seg a n \<inter> seg b m = {}"
  unfolding seg_image using inj_on_registry [of a n b m]
  by (subst inj_on_image_Int [symmetric, of _ "idx a n \<union> idx b m"]) (auto simp: idx_def)

lemma seg_mono: "b \<le> a \<Longrightarrow> a + n \<le> b + m \<Longrightarrow> seg a n \<subseteq> seg b m"
  unfolding seg_image by (rule image_mono) (auto simp: idx_def)

lemma seg_Un: "seg a n \<union> seg (a + n) m = seg a (n + m)"
  unfolding seg_image image_Un [symmetric] by (rule arg_cong [where f = "(`) _"]) (auto simp: idx_def)

lemma seg_registry: "seg a n \<subseteq> set initialTeams"
  by (auto simp: seg_def dest: in_set_takeD in_set_dropD)

lemma js_nth_seg: "js_nth initialTeams (int k) = Some t \<Longrightarrow> t \<in> seg k 1"
  by (auto simp: seg_image idx_def split: if_splits)

section \<open>Types of slots and matches\<close>

definition slot_type :: "round \<Rightarrow> nat \<Rightarrow> side \<Rightarrow> Team set" where
  "slot_type r i p =
    (case r of
       QF \<Rightarrow> seg (2 * i + offset p) 1
     | SF \<Rightarrow> seg (4 * i + 2 * offset p) 2
     | F \<Rightarrow> seg (4 * offset p) 4)"

definition match_type :: "round \<Rightarrow> nat \<Rightarrow> Team set" where
  "match_type r i = slot_type r i A \<union> slot_type r i B"

definition typed_match :: "round \<Rightarrow> nat \<Rightarrow> Match \<Rightarrow> bool" where
  "typed_match r i m \<longleftrightarrow>
     set_option (teamA m) \<subseteq> slot_type r i A \<and> set_option (teamB m) \<subseteq> slot_type r i B \<and>
     set_option (winner m) \<subseteq> match_type r i \<and> set_option (outcome m) \<subseteq> match_type r i"

definition typed :: "home_state \<Rightarrow> bool" where
  "typed s \<longleftrightarrow>
     (\<forall>i < length (qf s). typed_match QF i (qf s ! i)) \<and>
     (\<forall>i < length (sf s). typed_match SF i (sf s ! i)) \<and>
     typed_match F 0 (finalMatch s)"

lemma slot_type_simps:
  "slot_type QF i p = seg (2 * i + offset p) 1" "slot_type SF i p = seg (4 * i + 2 * offset p) 2"
  "slot_type F i p = seg (4 * offset p) 4"
  by (simp_all add: slot_type_def)

lemma slot_type_disjoint: "slot_type r i A \<inter> slot_type r i B = {}"
  by (cases r) (simp_all add: slot_type_simps offset_def seg_disjoint)

lemma slot_type_match: "slot_type r i p \<subseteq> match_type r i"
  by (cases p) (auto simp: match_type_def)

lemma typed_slot: "typed_match r i m \<Longrightarrow> set_option (slot p m) \<subseteq> slot_type r i p"
  by (cases p) (simp_all add: typed_match_def)

text \<open>The type of a slot is the type of the match that feeds it.\<close>

lemma seg_pair: "seg a 1 \<union> seg (Suc a) 1 = seg a 2"
  using seg_Un [of a 1 1] by (simp add: numeral_2_eq_2)

lemma match_type_QF: "match_type QF i = seg (2 * i) 2"
  using seg_pair [of "2 * i"] by (simp add: match_type_def slot_type_simps offset_def)

lemma feed_type_QF: "match_type QF i = slot_type SF (i div 2) (if i mod 2 = 0 then A else B)"
proof -
  have "4 * (i div 2) + 2 * offset (if i mod 2 = 0 then A else B) = 2 * i"
    unfolding offset_def by (cases "i mod 2 = 0") (simp, presburger, simp, presburger)
  then show ?thesis
    by (simp only: match_type_QF slot_type_simps)
qed

lemma feed_type_SF:
  "match_type SF 0 = slot_type F 0 A" "match_type SF (Suc 0) = slot_type F 0 B"
  using seg_Un [of 0 2 2] seg_Un [of 4 2 2]
  by (simp_all add: match_type_def slot_type_simps offset_def)

section \<open>The handlers preserve the typing\<close>

lemma typed_empty [simp]: "typed_match r i (emptyMatch x)"
  by (simp add: typed_match_def emptyMatch_def)

lemma typed_picked: "typed_match r i m \<Longrightarrow> typed_match r i (picked p m)"
  using typed_slot [of r i m p] slot_type_match [of r i p]
  by (auto simp: typed_match_def)

lemma typed_fed:
  assumes "typed_match r k t" "set_option w \<subseteq> slot_type r k (if first then A else B)"
  shows "typed_match r k (fed first w t)"
  using assms by (auto simp: typed_match_def)

lemma typed_relabel [simp]:
  "typed_match r k (m\<lparr>match_id := x, outcome := None\<rparr>) = typed_match r k (m\<lparr>outcome := None\<rparr>)"
  "typed_match r k m \<Longrightarrow> typed_match r k (m\<lparr>outcome := None\<rparr>)"
  by (simp_all add: typed_match_def)

lemma typed_outcome:
  assumes "typed_match r k m" "in_slots oc m"
  shows "typed_match r k (m\<lparr>outcome := oc\<rparr>)"
proof -
  from assms(1) have "set_option (teamA m) \<subseteq> match_type r k" "set_option (teamB m) \<subseteq> match_type r k"
    unfolding typed_match_def match_type_def by blast+
  with assms(2) have "set_option oc \<subseteq> match_type r k"
    unfolding in_slots_def by auto
  with assms(1) show ?thesis by (simp add: typed_match_def)
qed

lemma typed_update:
  assumes "\<forall>j < length ms. typed_match r j (ms ! j)" "typed_match r n m"
  shows "\<forall>j < length (ms[n := m]). typed_match r j (ms[n := m] ! j)"
  using assms by (cases "n < length ms") (auto simp: nth_list_update list_update_beyond)

lemma typed_handlePick:
  assumes "typed s" "shape_ok s" "handlePick r i p s = Inr s'"
  shows "typed s'"
proof -
  from assms(2) have len: "length (sf s) = 2" "length (qf s) = 4"
    by (simp_all add: shape_ok_lengths)
  from assms(1) have q: "\<forall>j < length (qf s). typed_match QF j (qf s ! j)"
    and h: "\<forall>j < length (sf s). typed_match SF j (sf s ! j)"
    and f: "typed_match F 0 (finalMatch s)"
    by (simp_all add: typed_def)
  from assms(3) len(1) show ?thesis
  proof (cases rule: handlePick_cases)
    case QF
    from QF(2,3) len have t: "target i = nat i div 2" "i mod 2 = 0 \<longleftrightarrow> nat i mod 2 = 0"
      using even_nat_iff [of i] by (auto simp: target_def)
    from q QF(3) have m: "typed_match QF (nat i) (qf s ! nat i)" by simp
    then have "set_option (pickedTeam p (qf s ! nat i)) \<subseteq> match_type QF (nat i)"
      using typed_slot [of QF "nat i" _ p] slot_type_match [of QF "nat i" p]
      by (auto simp: pickedTeam_eq_slot)
    then have "set_option (pickedTeam p (qf s ! nat i)) \<subseteq>
        slot_type SF (target i) (if i mod 2 = 0 then A else B)"
      by (simp add: feed_type_QF t)
    moreover from h len have "typed_match SF (target i) (sf s ! target i)" by simp
    ultimately have "typed_match SF (target i)
        (fed (i mod 2 = 0) (pickedTeam p (qf s ! nat i)) (sf s ! target i))"
      by (rule typed_fed [rotated])
    with typed_update [OF h] typed_update [OF q typed_picked [OF m]] QF show ?thesis
      by (simp add: typed_def)
  next
    case SF
    from h SF(3) len have m: "typed_match SF (nat i) (sf s ! nat i)" by simp
    then have "set_option (pickedTeam p (sf s ! nat i)) \<subseteq> match_type SF (nat i)"
      using typed_slot [of SF "nat i" _ p] slot_type_match [of SF "nat i" p]
      by (auto simp: pickedTeam_eq_slot)
    moreover from SF(2,3) have "nat i = 0 \<and> i = 0 \<or> nat i = Suc 0 \<and> i \<noteq> 0" by auto
    ultimately have "set_option (pickedTeam p (sf s ! nat i)) \<subseteq>
        slot_type F 0 (if i = 0 then A else B)"
      by (auto simp: feed_type_SF)
    with f have "typed_match F 0 (fed (i = 0) (pickedTeam p (sf s ! nat i)) (finalMatch s))"
      by (rule typed_fed)
    with typed_update [OF h typed_picked [OF m]] q SF show ?thesis
      by (simp add: typed_def)
  next
    case F
    with q h typed_picked [OF f] show ?thesis
      by (simp add: typed_def)
  qed
qed

lemma typed_sim_list:
  "\<forall>j < length ms. typed_match r (k + j) (ms ! j) \<Longrightarrow>
   \<forall>j < length (sim_list ms g). typed_match r (k + j) (sim_list ms g ! j)"
proof (induction ms arbitrary: g k)
  case Nil
  show ?case by simp
next
  case (Cons m ms)
  from Cons.prems have "typed_match r k m" by force
  then have h: "typed_match r k (m\<lparr>outcome := decide (shd g) m\<rparr>)"
    by (rule typed_outcome) (rule decide_in_slots)
  from Cons.prems have "\<forall>j < length ms. typed_match r (Suc k + j) (ms ! j)" by force
  from Cons.IH [OF this, of "rest m g"] h show ?case
    by (auto simp: nth_Cons split: nat.splits)
qed

lemma typed_simulated: "typed s \<Longrightarrow> typed (simulated s g)"
  using typed_sim_list [of "qf s" QF 0 g]
    typed_sim_list [of "sf s" SF 0 "draws (used (qf s)) g"]
  by (simp add: typed_def simulated_eq typed_outcome decide_in_slots)

lemma seed_typed: "set_option (js_nth initialTeams (int k)) \<subseteq> seg k 1"
  by (auto simp: seg_image idx_def split: if_splits)

lemmas seed_typed_num =
  seed_typed [of 0, simplified] seed_typed [of 1, simplified] seed_typed [of 2, simplified]
  seed_typed [of 3, simplified] seed_typed [of 4, simplified] seed_typed [of 5, simplified]
  seed_typed [of 6, simplified] seed_typed [of 7, simplified]

lemma typed_init [simp]: "typed init_state"
  using seed_typed_num
  by (simp add: typed_def init_state_def initialQf_def initialSf_def initialFinal_def
      All_less_Suc2 typed_match_def seededMatch_def emptyMatch_def slot_type_simps offset_def
      eval_nat_numeral)

lemma typed_announced_update [simp]: "typed (s\<lparr>announced := a\<rparr>) = typed s"
  by (simp add: typed_def)

lemma typed_react:
  assumes "react e s g = (Inr (al, s'), g')" "shape_ok s" "typed s"
  shows "typed s'"
  using assms(1)
proof (cases rule: react_cases)
  case (Pick r i p s1)
  from typed_handlePick [OF assms(3,2) Pick(2)] Pick(4) show ?thesis
    by (auto simp: announceEffect_eq)
next
  case Simulate
  with typed_simulated [OF assms(3), of g] show ?thesis
    by (auto simp: announceEffect_eq)
next
  case Reset
  then show ?thesis
    by (auto simp: announceEffect_eq handleReset_eq_init)
qed

lemma run_typed: "run s out \<Longrightarrow> typed s"
proof (induction rule: run.induct)
  case start
  show ?case by simp
next
  case (step s out e g al s' g')
  from step.hyps(1) have "shape_ok s"
    using run_wellformed by (auto simp: wellformed_def)
  with step show ?case by (blast intro: typed_react)
qed

lemma typed_matches:
  assumes "typed s" "shape_ok s" "m \<in> set (matches s)"
  shows "\<exists>r i. valid_index r i \<and> match_at r s i = Some m \<and> typed_match r (nat i) m"
proof -
  from assms(3) consider j where "j < length (qf s)" "m = qf s ! j"
    | j where "j < length (sf s)" "m = sf s ! j" | "m = finalMatch s"
    by (auto simp: matches_def in_set_conv_nth)
  then show ?thesis
  proof cases
    case 1
    with assms(1,2) show ?thesis
      by (intro exI [of _ QF] exI [of _ "int j"]) (simp add: typed_def shape_ok_lengths)
  next
    case 2
    with assms(1,2) show ?thesis
      by (intro exI [of _ SF] exI [of _ "int j"]) (simp add: typed_def shape_ok_lengths)
  next
    case 3
    with assms(1) show ?thesis
      by (intro exI [of _ F] exI [of _ 0]) (simp add: typed_def)
  qed
qed

lemma typed_distinct_slots:
  assumes "typed_match r i m" "teamA m = Some a" "teamB m = Some b"
  shows "team_id a \<noteq> team_id b"
proof -
  from assms have a: "a \<in> slot_type r i A" and b: "b \<in> slot_type r i B"
    by (auto simp: typed_match_def)
  with slot_type_disjoint [of r i] have "a \<noteq> b" by auto
  moreover from a b have "a \<in> set initialTeams" "b \<in> set initialTeams"
    using seg_registry by (auto simp: slot_type_def split: round.splits)
  ultimately show ?thesis by (simp add: team_id_inj)
qed

lemma typed_known: "typed_match r i m \<Longrightarrow> known m"
proof -
  assume t: "typed_match r i m"
  have "slot_type r i p \<subseteq> set initialTeams" for p
    using seg_registry by (auto simp: slot_type_def split: round.splits)
  then have "match_type r i \<subseteq> set initialTeams" by (auto simp: match_type_def)
  with t \<open>\<And>p. slot_type r i p \<subseteq> set initialTeams\<close> show ?thesis
    unfolding typed_match_def known_def teams_of_def by blast
qed

section \<open>Properties of the typing\<close>

text \<open>
  C8. Every state the component reaches is well typed, and a step from a
  well-typed, well-shaped state leads to a well-typed state: every slot holds
  a team of the quarterfinals above it, and every pick and every outcome
  holds a team of one of the two slot types of its match. The outcome of a
  semifinal that a later quarterfinal pick has made stale is still one of
  the four teams of the two quarterfinals that feed the semifinal.
\<close>

theorem typing_preserved:
  "(run s out \<longrightarrow> typed s) \<and>
   (typed s \<and> shape_ok s \<and> react e s g = (Inr (al, s'), g') \<longrightarrow> typed s')"
  using run_typed typed_react by blast

theorem typing_preserved_witness:
  "\<exists>out s g. session [Pick QF 0 A, Simulate, Pick QF 0 B] init_state (sconst 0) = (Inr (out, s), g) \<and>
     run s out \<and> \<not> outcome_ok (sf s ! 0) \<and> typed s \<and>
     set_option (outcome (sf s ! 0)) \<subseteq> set (take 4 initialTeams)"
proof -
  obtain out s g where
    s: "session [Pick QF 0 A, Simulate, Pick QF 0 B] init_state (sconst 0) = (Inr (out, s), g)"
    and o: "\<not> outcome_ok (sf s ! 0)" and l: "length (sf s) = 2"
    by (simp add: eval_simps outcome_ok_def in_slots_def initialTeams_def)
  from session_run [OF run.start s] have r: "run s out" by simp
  with typing_preserved [of s out] have t: "typed s" by simp
  with l have "typed_match SF 0 (sf s ! 0)" by (simp add: typed_def)
  then have "set_option (outcome (sf s ! 0)) \<subseteq> set (take 4 initialTeams)"
    using seg_Un [of 0 2 2] by (simp add: typed_match_def match_type_def slot_type_simps offset_def seg_def)
  with s r o t show ?thesis by blast
qed

text \<open>
  C25. The two slots of a match never hold the same team: in every reachable
  state, a match with both slots filled has two teams with different
  identifiers, so an outcome or a pick names one slot of its match and
  \<^verbatim>\<open>pickRandom\<close> chooses between two different teams.
\<close>

theorem slots_distinct:
  assumes "run s out" "m \<in> set (matches s)" "teamA m = Some a" "teamB m = Some b"
  shows "team_id a \<noteq> team_id b \<and> a \<in> set initialTeams \<and> b \<in> set initialTeams"
proof -
  from assms(1) have "typed s" "shape_ok s"
    using run_typed run_wellformed by (auto simp: wellformed_def)
  from typed_matches [OF this assms(2)] obtain r i where t: "typed_match r (nat i) m" by blast
  from typed_distinct_slots [OF t assms(3,4)] typed_known [OF t] assms(3,4) show ?thesis
    by (auto simp: known_def teams_of_def)
qed

theorem slots_distinct_witness:
  "\<exists>out s g m. session [Pick QF 0 A, Pick QF 1 B] init_state (sconst 0) = (Inr (out, s), g) \<and>
     run s out \<and> m \<in> set (matches s) \<and> match_id m = ''SF1'' \<and>
     teamA m = Some (initialTeams ! 0) \<and> teamB m = Some (initialTeams ! 3) \<and>
     team_id (initialTeams ! 0) \<noteq> team_id (initialTeams ! 3)"
proof -
  obtain out s g where
    s: "session [Pick QF 0 A, Pick QF 1 B] init_state (sconst 0) = (Inr (out, s), g)"
    and f: "match_id (sf s ! 0) = ''SF1''" "teamA (sf s ! 0) = Some (initialTeams ! 0)"
      "teamB (sf s ! 0) = Some (initialTeams ! 3)" "length (sf s) = 2"
    by (simp add: eval_simps)
  from session_run [OF run.start s] have r: "run s out" by simp
  from f(4) have m: "sf s ! 0 \<in> set (matches s)" by (simp add: matches_def)
  from slots_distinct [OF r m f(2,3)] s r m f show ?thesis by blast
qed

end
