(* ===== verification/Markup.thy ===== *)
theory Markup
  imports View Typing
begin

text \<open>
  The element tree that the component \<^verbatim>\<open>Home\<close> of \<^verbatim>\<open>src/app/page.tsx\<close>
  returns (lines 266-479), with the class constants of lines 29-62. An element
  has a tag, its attributes, the event of its \<^verbatim>\<open>onClick\<close> if it has one, and
  its children; a text is a leaf. An attribute is a string, a boolean, a
  number, a percentage of a style, or the handler \<^verbatim>\<open>onKeyDown\<close> as the event it
  starts for a key. \<open>layout\<close> builds the tree from the score,
  the champion and the seven cards of \<open>View\<close>, and \<open>page\<close> is the tree of a
  state, or the error that rendering throws. The lemmas show that the handlers
  in the tree are the events \<open>View.offered\<close> lists, that every element with a
  handler is a labelled button, and that the tree shows \<^verbatim>\<open>TBD\<close> once for every
  empty slot.
\<close>

section \<open>Elements\<close>

datatype attr = Str string | Flag bool | Num int | Percent real | OnKey "string \<Rightarrow> event option"

datatype node =
  Elem string "(string \<times> attr) list" "event option" "node list"
| Txt string

text \<open>An element with a class and no handler.\<close>

definition el :: "string \<Rightarrow> string \<Rightarrow> node list \<Rightarrow> node" where
  "el tg cls cs = Elem tg [(''className'', Str cls)] None cs"

section \<open>The class constants\<close>

definition roundTitle :: string where
  "roundTitle = ''text-[10px] uppercase tracking-wide text-white/60''"

definition line :: string where
  "line = ''self-stretch w-px bg-white/10''"

definition column :: string where
  "column = ''flex w-48 flex-col gap-2''"

definition container :: string where
  "container = ''min-h-screen w-full bg-gradient-to-b from-zinc-950 to-zinc-900 text-white flex flex-col''"

definition header :: string where
  "header = ''mx-auto max-w-6xl px-6 h-16 flex items-center justify-between''"

definition row :: string where
  "row = ''mx-auto max-w-6xl px-4 pb-16 flex-1 flex flex-row items-stretch gap-6 min-h-[calc(100vh-4rem)]''"

section \<open>Seeds, cards and checkpoints\<close>

definition seedNode :: "seed \<Rightarrow> node" where
  "seedNode sd =
    (case sd of
       Placeholder \<Rightarrow>
         el ''div'' ''w-full rounded-md border border-white/10 px-3 py-2 text-left text-sm text-white/40''
           [Txt ''TBD'']
     | SeedButton cls l pr al ev \<Rightarrow>
         Elem ''button''
           [(''type'', Str ''button''), (''className'', Str cls), (''aria-pressed'', Flag pr),
            (''aria-label'', Str al), (''tabIndex'', Num 0),
            (''onKeyDown'', OnKey (\<lambda>k. if k = ''Enter'' \<or> k = '' '' then Some ev else None))]
           (Some ev) [Txt l])"

definition cardNode :: "card \<Rightarrow> node" where
  "cardNode c =
    el ''div'' (cardClass c)
      [el ''div'' roundTitle [Txt (cardTitle c)],
       el ''div'' ''mt-2 flex flex-col gap-2'' [seedNode (seedA c), seedNode (seedB c)]]"

definition checkpointNode :: "nat \<Rightarrow> Checkpoint \<Rightarrow> node" where
  "checkpointNode pts cp =
    Elem ''div''
      [(''key'', Num (int (cp_points cp))),
       (''className'', Str ''group absolute top-1/2 h-3 w-3 -translate-y-1/2 rounded-full border border-white/30 bg-zinc-900''),
       (''style.left'', Percent ((real (cp_points cp) / 18) * 100)),
       (''style.marginLeft'', Num (- 6))]
      None
      [el ''div''
         ((if pts \<ge> cp_points cp then ''bg-emerald-400'' else ''bg-white/30'') @
            '' h-1.5 w-1.5 rounded-full m-0.75 mx-auto mt-0.75'') [],
       el ''div'' ''pointer-events-none absolute left-1/2 top-full z-50 mt-3 hidden -translate-x-1/2 whitespace-normal rounded-lg border border-white/15 bg-zinc-900/95 px-5 py-4 text-sm text-white shadow-2xl backdrop-blur-md group-hover:block min-w-56 max-w-72''
         [el ''div'' ''flex items-center gap-4''
            [Elem ''img''
               [(''src'', Str (cp_image cp)), (''alt'', Str ''prijs''),
                (''className'', Str ((if cp_name cp = ''Gold crate'' then ''h-20 w-20'' else ''h-16 w-16'') @
                    '' rounded-md object-contain''))]
               None [],
             el ''div'' ''flex flex-col''
               [el ''div'' ''text-base font-semibold leading-tight'' [Txt (cp_name cp)],
                el ''div'' ''mt-1 text-xs text-white/80 leading-snug''
                  [Txt ''Unlock bij '', Txt (show_nat (cp_points cp)), Txt '' punten'']]]]]"

section \<open>The page\<close>

definition headerNode :: node where
  "headerNode =
    el ''header'' header
      [el ''h1'' ''text-lg font-semibold'' [Txt (''8-Team Pick'' @ [CHR 0x27] @ ''em Bracket'')],
       el ''div'' ''fixed right-4 top-4 z-50 flex items-center gap-2''
         [Elem ''button''
            [(''type'', Str ''button''),
             (''className'', Str ''rounded-md bg-cyan-500 px-3 py-1.5 text-xs font-medium text-zinc-950 hover:bg-cyan-400 focus:outline-none focus-visible:ring-2 focus-visible:ring-cyan-400''),
             (''aria-label'', Str ''Reset bracket'')]
            (Some Reset) [Txt ''Reset''],
          Elem ''button''
            [(''type'', Str ''button''),
             (''className'', Str ''rounded-md bg-emerald-500 px-3 py-1.5 text-xs font-medium text-zinc-950 hover:bg-emerald-400 focus:outline-none focus-visible:ring-2 focus-visible:ring-emerald-400''),
             (''aria-label'', Str ''Simuleer uitslagen'')]
            (Some Simulate) [Txt ''Simuleer'']]]"

definition progressNode :: "nat \<Rightarrow> node" where
  "progressNode pts =
    el ''div'' ''mx-auto max-w-6xl px-4 pb-3 w-full''
      [el ''div'' ''mb-1 flex items-center justify-between text-[10px] text-white/70''
         [Elem ''span'' [] None [Txt ''Punten: '', Txt (show_nat pts)],
          Elem ''span'' [] None [Txt ''Doelen: 6 / 12 / 18'']],
       el ''div'' ''relative h-1.5 w-full rounded-full bg-white/10''
         (Elem ''div''
            [(''className'', Str ''absolute left-0 top-0 h-1.5 rounded-full bg-cyan-500''),
             (''style.width'', Percent (progressWidth pts)),
             (''aria-label'', Str (''Progress '' @ show_nat pts @ '' van 18 punten''))]
            None []
          # map (checkpointNode pts) checkpoints),
       el ''div'' ''mt-1 text-[10px] text-white/60'' [Txt ''Prijzen bij elk checkpoint gehaald.'']]"

text \<open>
  The section of the bracket: the column of the quarterfinals, the column of
  the semifinals and the column of the final with the champion, separated by
  lines.
\<close>

definition bracketNode :: "string \<Rightarrow> card \<Rightarrow> card \<Rightarrow> card \<Rightarrow> card \<Rightarrow> card \<Rightarrow> card \<Rightarrow> card \<Rightarrow> node" where
  "bracketNode champ q1 q2 q3 q4 s1 s2 f =
    el ''section'' row
      [el ''div'' (column @ '' justify-center'')
         [cardNode q1, el ''div'' ''h-8'' [], cardNode q2, el ''div'' ''h-8'' [],
          cardNode q3, el ''div'' ''h-8'' [], cardNode q4],
       el ''div'' line [],
       el ''div'' (column @ '' justify-center'')
         [cardNode s1, el ''div'' ''h-20 sm:h-24 md:h-28'' [], cardNode s2],
       el ''div'' line [],
       el ''div'' (column @ '' justify-center'')
         [cardNode f,
          el ''div'' ''text-center text-sm text-white/70'' [Txt ''Champion: '', Txt champ]]]"

text \<open>
  The returned element. The cards read \<^verbatim>\<open>qf[0]\<close> to \<^verbatim>\<open>qf[3]\<close>, \<^verbatim>\<open>sf[0]\<close> and
  \<^verbatim>\<open>sf[1]\<close> in this order, as \<open>View.render\<close> does, and throw where it throws.
\<close>

definition page :: "home_state \<Rightarrow> node result" where
  "page s =
    rbind (cardAt ''Quarterfinal 1'' QF (qf s) 0) (\<lambda>q1.
    rbind (cardAt ''Quarterfinal 2'' QF (qf s) 1) (\<lambda>q2.
    rbind (cardAt ''Quarterfinal 3'' QF (qf s) 2) (\<lambda>q3.
    rbind (cardAt ''Quarterfinal 4'' QF (qf s) 3) (\<lambda>q4.
    rbind (cardAt ''Semifinal 1'' SF (sf s) 0) (\<lambda>s1.
    rbind (cardAt ''Semifinal 2'' SF (sf s) 1) (\<lambda>s2.
    Inr (el ''main'' container
      [headerNode, progressNode (points s),
       bracketNode (champion s) q1 q2 q3 q4 s1 s2 (matchCard ''Final'' F 0 (finalMatch s))])))))))"

section \<open>Reading a tree\<close>

fun clickables :: "node \<Rightarrow> event list" where
  "clickables (Elem tg as h cs) =
     (case h of Some e \<Rightarrow> [e] | None \<Rightarrow> []) @ concat (map clickables cs)"
| "clickables (Txt x) = []"

text \<open>The events that pressing the key \<open>k\<close> on the elements of a tree starts.\<close>

definition keyOf :: "(string \<times> attr) list \<Rightarrow> string \<Rightarrow> event list" where
  "keyOf as k =
    (case map_of as ''onKeyDown'' of
       Some (OnKey f) \<Rightarrow> (case f k of Some e \<Rightarrow> [e] | None \<Rightarrow> [])
     | _ \<Rightarrow> [])"

fun keyed :: "string \<Rightarrow> node \<Rightarrow> event list" where
  "keyed k (Elem tg as h cs) = keyOf as k @ concat (map (keyed k) cs)"
| "keyed k (Txt x) = []"

fun texts :: "node \<Rightarrow> string list" where
  "texts (Elem tg as h cs) = concat (map texts cs)"
| "texts (Txt x) = [x]"

text \<open>
  A tree is accessible when every element with a handler is a \<^verbatim>\<open>button\<close> of
  type \<^verbatim>\<open>button\<close> with an \<^verbatim>\<open>aria-label\<close> that is not empty, and every image
  has an \<^verbatim>\<open>alt\<close> text.
\<close>

definition labelled :: "(string \<times> attr) list \<Rightarrow> bool" where
  "labelled as \<longleftrightarrow>
     map_of as ''type'' = Some (Str ''button'') \<and>
     (case map_of as ''aria-label'' of Some (Str l) \<Rightarrow> l \<noteq> [] | _ \<Rightarrow> False)"

fun accessible :: "node \<Rightarrow> bool" where
  "accessible (Elem tg as h cs) \<longleftrightarrow>
     (h = None \<or> tg = ''button'' \<and> labelled as) \<and>
     (tg = ''img'' \<longrightarrow> map_of as ''alt'' \<noteq> None) \<and> list_all accessible cs"
| "accessible (Txt x) \<longleftrightarrow> True"

section \<open>The handlers of the tree\<close>

lemma clickables_el [simp]: "clickables (el tg cls cs) = concat (map clickables cs)"
  by (simp add: el_def)

lemma texts_el [simp]: "texts (el tg cls cs) = concat (map texts cs)"
  by (simp add: el_def)

lemma accessible_el [simp]: "accessible (el tg cls cs) \<longleftrightarrow> tg \<noteq> ''img'' \<and> list_all accessible cs"
  by (auto simp: el_def)

lemma keyed_el [simp]: "keyed k (el tg cls cs) = concat (map (keyed k) cs)"
  by (simp add: el_def keyOf_def)

lemma keyed_seedNode [simp]:
  "keyed k (seedNode sd) = (if k = ''Enter'' \<or> k = '' '' then seedEvents sd else [])"
  by (simp add: seedNode_def seedEvents_def seedInput_def keyOf_def split: seed.splits)

lemma keyed_seedInput:
  "keyed k (seedNode sd) = (case seedInput sd (KeyDown k) of Some e \<Rightarrow> [e] | None \<Rightarrow> [])"
  by (simp add: seedNode_def seedInput_def keyOf_def split: seed.splits)

lemma keyed_cardNode [simp]:
  "keyed k (cardNode c) =
     (if k = ''Enter'' \<or> k = '' '' then seedEvents (seedA c) @ seedEvents (seedB c) else [])"
  by (simp add: cardNode_def)

lemma keyed_progressNode [simp]: "keyed k (progressNode pts) = []"
  by (simp add: progressNode_def checkpointNode_def checkpoints_def keyOf_def)

lemma keyed_headerNode [simp]: "keyed k headerNode = []"
  by (simp add: headerNode_def keyOf_def)

lemma keyed_bracketNode [simp]:
  "keyed k (bracketNode ch q1 q2 q3 q4 s1 s2 f) =
     (if k = ''Enter'' \<or> k = '' '' then
        concat (map (\<lambda>c. seedEvents (seedA c) @ seedEvents (seedB c)) [q1, q2, q3, q4, s1, s2, f])
      else [])"
  by (simp add: bracketNode_def)

lemma clickables_seedNode [simp]: "clickables (seedNode sd) = seedEvents sd"
  by (simp add: seedNode_def seedEvents_def seedInput_def split: seed.splits)

lemma clickables_cardNode [simp]:
  "clickables (cardNode c) = seedEvents (seedA c) @ seedEvents (seedB c)"
  by (simp add: cardNode_def)

lemma clickables_checkpointNode [simp]: "clickables (checkpointNode pts cp) = []"
  by (simp add: checkpointNode_def)

lemma clickables_progressNode [simp]: "clickables (progressNode pts) = []"
  by (simp add: progressNode_def checkpoints_def)

lemma clickables_headerNode [simp]: "clickables headerNode = [Reset, Simulate]"
  by (simp add: headerNode_def)

lemma clickables_bracketNode [simp]:
  "clickables (bracketNode ch q1 q2 q3 q4 s1 s2 f) =
     concat (map (\<lambda>c. seedEvents (seedA c) @ seedEvents (seedB c)) [q1, q2, q3, q4, s1, s2, f])"
  by (simp add: bracketNode_def)

lemma accessible_seedNode [simp]: "accessible (seedNode (seedButton team sel ev st))"
  by (simp add: seedNode_def seedButton_def labelled_def Let_def split: option.splits)

lemma accessible_cardNode [simp]: "accessible (cardNode (matchCard t r i m))"
  by (simp add: cardNode_def matchCard_def)

lemma accessible_progressNode [simp]: "accessible (progressNode pts)"
  by (simp add: progressNode_def checkpointNode_def checkpoints_def)

lemma accessible_headerNode [simp]: "accessible headerNode"
  by (simp add: headerNode_def labelled_def)

lemma accessible_bracketNode [simp]:
  "accessible (bracketNode ch (matchCard t1 r1 i1 m1) (matchCard t2 r2 i2 m2) (matchCard t3 r3 i3 m3)
     (matchCard t4 r4 i4 m4) (matchCard t5 r5 i5 m5) (matchCard t6 r6 i6 m6) (matchCard t7 r7 i7 m7))"
  by (simp add: bracketNode_def)

text \<open>The tree of a bracket with four quarterfinals and two semifinals.\<close>

lemma page_eq:
  assumes "4 \<le> length (qf s)" "2 \<le> length (sf s)"
  shows "page s = Inr (el ''main'' container
    [headerNode, progressNode (points s),
     bracketNode (champion s)
       (matchCard ''Quarterfinal 1'' QF 0 (qf s ! 0)) (matchCard ''Quarterfinal 2'' QF 1 (qf s ! 1))
       (matchCard ''Quarterfinal 3'' QF 2 (qf s ! 2)) (matchCard ''Quarterfinal 4'' QF 3 (qf s ! 3))
       (matchCard ''Semifinal 1'' SF 0 (sf s ! 0)) (matchCard ''Semifinal 2'' SF 1 (sf s ! 1))
       (matchCard ''Final'' F 0 (finalMatch s))])"
  using assms by (auto simp: page_def cardAt_eq)

lemma render_lengths:
  assumes "render s = Inr v"
  shows "4 \<le> length (qf s) \<and> 2 \<le> length (sf s)"
  using assms by (auto simp: render_def cardAt_eq rbind_eq_Inr_iff split: if_splits)

lemma render_cards:
  assumes "render s = Inr v"
  shows "headerButtons v = [Reset, Simulate] \<and>
    cards v = [matchCard ''Quarterfinal 1'' QF 0 (qf s ! 0), matchCard ''Quarterfinal 2'' QF 1 (qf s ! 1),
      matchCard ''Quarterfinal 3'' QF 2 (qf s ! 2), matchCard ''Quarterfinal 4'' QF 3 (qf s ! 3),
      matchCard ''Semifinal 1'' SF 0 (sf s ! 0), matchCard ''Semifinal 2'' SF 1 (sf s ! 1),
      matchCard ''Final'' F 0 (finalMatch s)]"
  using assms by (auto simp: render_def cardAt_eq rbind_eq_Inr_iff split: if_splits)

lemma page_throws: "page s = Inl e \<longleftrightarrow> render s = Inl e"
  by (auto simp: page_def render_def cardAt_eq rbind_def split: if_splits)

section \<open>The texts of the tree\<close>

lemma show_nat_last: "last (show_nat n) = digit (n mod 10)"
  by (subst show_nat.simps) simp

lemma show_nat_not_TBD [simp]: "show_nat n \<noteq> ''TBD''"
proof
  assume "show_nat n = ''TBD''"
  then have "last (show_nat n) = CHR ''D''" by simp
  then have "of_char (digit (n mod 10)) = (68 :: nat)"
    by (simp add: show_nat_last)
  then show False by (simp add: digit_def)
qed

lemma registered_not_TBD: "t \<in> set initialTeams \<Longrightarrow> team_name t \<noteq> ''TBD''"
  by (auto simp: initialTeams_def)

text \<open>What a slot shows: the name of its team, or the placeholder.\<close>

lemma texts_seedNode [simp]:
  "texts (seedNode (seedButton team sel ev st)) =
     [case team of None \<Rightarrow> ''TBD'' | Some t \<Rightarrow> team_name t]"
  by (simp add: seedNode_def seedButton_def Let_def split: option.splits)

lemma texts_cardNode [simp]:
  "texts (cardNode (matchCard title r i m)) =
     [title, case teamA m of None \<Rightarrow> ''TBD'' | Some t \<Rightarrow> team_name t,
      case teamB m of None \<Rightarrow> ''TBD'' | Some t \<Rightarrow> team_name t]"
  by (simp add: cardNode_def matchCard_def)

lemma count_TBD_progressNode [simp]: "count_list (texts (progressNode pts)) ''TBD'' = 0"
  by (simp add: progressNode_def checkpointNode_def checkpoints_def)

lemma count_TBD_headerNode [simp]: "count_list (texts headerNode) ''TBD'' = 0"
  by (simp add: headerNode_def)

definition empties :: "Match \<Rightarrow> nat" where
  "empties m = (if teamA m = None then 1 else 0) + (if teamB m = None then 1 else 0)"

lemma count_TBD_cardNode:
  assumes "known m" "title \<noteq> ''TBD''"
  shows "count_list (texts (cardNode (matchCard title r i m))) ''TBD'' = empties m"
  using assms
  by (auto simp: empties_def known_def teams_of_def registered_not_TBD split: option.splits)

section \<open>Properties of the tree\<close>

text \<open>
  C14. The element tree of a state that renders carries exactly the handlers
  the view offers, in the order of the document: \<^verbatim>\<open>Reset\<close>, \<^verbatim>\<open>Simuleer\<close>, then the
  seeds of the seven cards that hold a team. The keys Enter and space start
  the events of the seeds and no other key starts an event, so the keyboard
  starts no event that a click does not start. Every element with a handler
  is a \<^verbatim>\<open>button\<close> of type \<^verbatim>\<open>button\<close> with an \<^verbatim>\<open>aria-label\<close> that is not empty, and
  every image has an \<^verbatim>\<open>alt\<close> text.
\<close>

theorem page_handlers:
  assumes "render s = Inr v"
  shows "\<exists>n. page s = Inr n \<and> clickables n = offered v \<and> accessible n \<and>
    (\<forall>k. keyed k n = (if k = ''Enter'' \<or> k = '' '' then drop 2 (offered v) else []))"
proof -
  note len = render_lengths [OF assms]
  from render_cards [OF assms] show ?thesis
    unfolding page_eq [OF len [THEN conjunct1] len [THEN conjunct2]]
    by (simp add: offered_def)
qed

theorem page_handlers_witness:
  "\<exists>n. page init_state = Inr n \<and> accessible n \<and> clickables n =
     [Reset, Simulate, Pick QF 0 A, Pick QF 0 B, Pick QF 1 A, Pick QF 1 B,
      Pick QF 2 A, Pick QF 2 B, Pick QF 3 A, Pick QF 3 B]"
proof -
  have len: "length (qf init_state) = 4" "length (sf init_state) = 2"
    using shape_ok_lengths [OF shape_ok_init] by simp_all
  from page_handlers [OF render_eq [OF len]] obtain n where
    "page init_state = Inr n" "accessible n"
    "clickables n = [Reset, Simulate] @
       cardEvents QF 0 (qf init_state ! 0) @ cardEvents QF 1 (qf init_state ! 1) @
       cardEvents QF 2 (qf init_state ! 2) @ cardEvents QF 3 (qf init_state ! 3) @
       cardEvents SF 0 (sf init_state ! 0) @ cardEvents SF 1 (sf init_state ! 1) @
       cardEvents F 0 (finalMatch init_state)"
    by (auto simp: offered_def)
  then show ?thesis
    by (auto simp: cardEvents_def init_state_def initialQf_def initialSf_def initialFinal_def
        seededMatch_def emptyMatch_def js_nth_initialTeams)
qed

text \<open>
  C39. In every reachable state the page renders, and the text \<^verbatim>\<open>TBD\<close> stands in
  its tree once for every empty slot of the seven matches and once more, after
  \<^verbatim>\<open>Champion:\<close>, while the final has no pick: no name of a team, title, label
  or number of the page reads \<^verbatim>\<open>TBD\<close>.
\<close>

theorem page_placeholders:
  assumes "run s out"
  shows "\<exists>n. page s = Inr n \<and>
    count_list (texts n) ''TBD'' =
      sum_list (map empties (matches s)) + (if winner (finalMatch s) = None then 1 else 0)"
proof -
  from assms have w: "wellformed s" using run_wellformed by blast
  then have len: "length (qf s) = 4" "length (sf s) = 2"
    by (simp_all add: wellformed_def shape_ok_lengths)
  from w have k: "list_all known (qf s)" "list_all known (sf s)" "known (finalMatch s)"
    by (simp_all add: wellformed_def registered_def list_all_matches)
  with len have kq: "known (qf s ! 0)" "known (qf s ! 1)" "known (qf s ! 2)" "known (qf s ! 3)"
    and ks: "known (sf s ! 0)" "known (sf s ! 1)"
    by (simp_all add: list_all_length)
  have ch: "champion s = ''TBD'' \<longleftrightarrow> winner (finalMatch s) = None"
    using k(3) by (auto simp: champion_def known_def teams_of_def registered_not_TBD split: option.splits)
  have m: "matches s = [qf s ! 0, qf s ! 1, qf s ! 2, qf s ! 3, sf s ! 0, sf s ! 1, finalMatch s]"
    unfolding matches_def using list4 [OF len(1)] list2 [OF len(2)] by (metis append_Cons append_Nil)
  have "count_list (texts (bracketNode (champion s)
       (matchCard ''Quarterfinal 1'' QF 0 (qf s ! 0)) (matchCard ''Quarterfinal 2'' QF 1 (qf s ! 1))
       (matchCard ''Quarterfinal 3'' QF 2 (qf s ! 2)) (matchCard ''Quarterfinal 4'' QF 3 (qf s ! 3))
       (matchCard ''Semifinal 1'' SF 0 (sf s ! 0)) (matchCard ''Semifinal 2'' SF 1 (sf s ! 1))
       (matchCard ''Final'' F 0 (finalMatch s)))) ''TBD'' =
     sum_list (map empties (matches s)) + (if winner (finalMatch s) = None then 1 else 0)"
    unfolding m bracketNode_def using ch kq ks k(3)
    by (simp add: count_TBD_cardNode del: texts_cardNode)
  then show ?thesis
    using len by (simp add: page_eq)
qed

theorem page_placeholders_witness:
  "\<exists>n. page init_state = Inr n \<and> count_list (texts n) ''TBD'' = 7"
proof -
  have "sum_list (map empties (matches init_state)) +
      (if winner (finalMatch init_state) = None then 1 else 0) = 7"
    by (simp add: matches_def empties_def init_state_def initialQf_def initialSf_def initialFinal_def
        seededMatch_def emptyMatch_def js_nth_initialTeams)
  with page_placeholders [OF run.start] show ?thesis by simp
qed

end
