(* ===== verification/Refinement.thy ===== *)
theory Refinement
  imports Session
begin

text \<open>
  An abstract bracket and the proof that the component implements it. The
  abstract state keeps what the user decided: the pick of every quarterfinal
  and semifinal, the two finalists and the champion. It has no slots for the
  semifinals, because in the component these always equal the quarterfinal
  picks, and no outcomes. The abstract operations are the propagation rules of
  the bracket; \<open>tree_of\<close> maps a state of the component to the abstract state,
  and every step of the component is the abstract step of its event.
\<close>

section \<open>The abstract bracket\<close>

record tree =
  t_qf :: "Team option list"
  t_sf :: "Team option list"
  t_finalists :: "Team option \<times> Team option"
  t_champion :: "Team option"

definition a_init :: tree where
  "a_init = \<lparr>t_qf = [None, None, None, None], t_sf = [None, None], t_finalists = (None, None),
     t_champion = None\<rparr>"

fun a_pick :: "round \<Rightarrow> nat \<Rightarrow> side \<Rightarrow> tree \<Rightarrow> tree" where
  "a_pick QF i p t =
     t\<lparr>t_qf := (t_qf t)[i := seedTeam i p], t_sf := (t_sf t)[i div 2 := None],
       t_finalists := (None, None), t_champion := None\<rparr>"
| "a_pick SF i p t =
     (let w = t_qf t ! (2 * i + offset p)
      in t\<lparr>t_sf := (t_sf t)[i := w],
           t_finalists := (if i = 0 then (w, snd (t_finalists t)) else (fst (t_finalists t), w)),
           t_champion := None\<rparr>)"
| "a_pick F i p t =
     t\<lparr>t_champion := (if p = A then fst (t_finalists t) else snd (t_finalists t))\<rparr>"

definition a_step :: "event \<Rightarrow> tree \<Rightarrow> tree" where
  "a_step e t = (case e of Pick r i p \<Rightarrow> a_pick r (nat i) p t | Simulate \<Rightarrow> t | Reset \<Rightarrow> a_init)"

section \<open>The abstraction\<close>

definition tree_of :: "home_state \<Rightarrow> tree" where
  "tree_of s = \<lparr>t_qf = map winner (qf s), t_sf = map winner (sf s),
     t_finalists = (teamA (finalMatch s), teamB (finalMatch s)),
     t_champion = winner (finalMatch s)\<rparr>"

lemma tree_of_init [simp]: "tree_of init_state = a_init"
  by (simp add: tree_of_def a_init_def init_state_def initialQf_def initialSf_def initialFinal_def
      seededMatch_def emptyMatch_def)

lemma tree_of_announced_update [simp]: "tree_of (s\<lparr>announced := a\<rparr>) = tree_of s"
  by (simp add: tree_of_def)

lemma tree_of_announceEffect [simp]: "tree_of (snd (announceEffect s)) = tree_of s"
  by (simp add: announceEffect_eq)

lemma tree_of_simulated [simp]: "tree_of (simulated s g) = tree_of s"
  by (simp add: tree_of_def simulated_eq)

lemma tree_of_handleReset [simp]: "tree_of (handleReset s) = a_init"
  by (simp add: handleReset_eq_init)

lemma target_div: "0 \<le> i \<Longrightarrow> target i = (if nat i < 2 then 0 else 1)"
  by (auto simp: target_def)

lemma tree_of_handlePick_QF:
  assumes "length (qf s) = 4" "length (sf s) = 2" "seeded s" "0 \<le> i" "nat i < 4"
  shows "tree_of (s\<lparr>qf := (qf s)[nat i := picked p (qf s ! nat i)],
               sf := (sf s)[target i :=
                       fed (i mod 2 = 0) (pickedTeam p (qf s ! nat i)) (sf s ! target i)],
               finalMatch := emptyMatch (match_id (finalMatch s))\<rparr>) = a_pick QF (nat i) p (tree_of s)"
proof -
  from assms(4,5) have "nat i div 2 = target i"
    by (auto simp: target_div)
  with seeded_slot [OF assms(3,5), of p] show ?thesis
    by (simp add: tree_of_def map_update emptyMatch_def)
qed

lemma tree_of_handlePick_SF:
  assumes "feeds s" "0 \<le> i" "nat i < 2" "length (qf s) = 4"
  shows "tree_of (s\<lparr>sf := (sf s)[nat i := picked p (sf s ! nat i)],
               finalMatch := (fed (i = 0) (pickedTeam p (sf s ! nat i)) (finalMatch s))
                               \<lparr>match_id := ''F'', outcome := None\<rparr>\<rparr>) = a_pick SF (nat i) p (tree_of s)"
proof -
  from assms(2) have "nat i = 0 \<longleftrightarrow> i = 0" by auto
  moreover from assms(3) offset_less [of p] have "2 * nat i + offset p < 4" by arith
  then have "map winner (qf s) ! (2 * nat i + offset p) = winner (qf s ! (2 * nat i + offset p))"
    using assms(4) by simp
  ultimately show ?thesis
    using feeds_slot [OF assms(1,3), of p]
    by (simp add: tree_of_def map_update pickedTeam_eq_slot Let_def)
qed

lemma tree_of_handlePick_F: "tree_of (s\<lparr>finalMatch := picked p (finalMatch s)\<rparr>) = a_pick F n p (tree_of s)"
  by (cases p) (simp_all add: tree_of_def)

lemma tree_of_handlePick:
  assumes "shape_ok s" "seeded s" "feeds s" "handlePick r i p s = Inr s'"
  shows "tree_of s' = a_pick r (nat i) p (tree_of s)"
proof -
  from assms(1) have len: "length (sf s) = 2" "length (qf s) = 4"
    by (simp_all add: shape_ok_lengths)
  from assms(4) len(1) show ?thesis
  proof (cases rule: handlePick_cases)
    case QF
    with len show ?thesis
      using tree_of_handlePick_QF [OF len(2,1) assms(2), of i p] by simp
  next
    case SF
    then show ?thesis
      using tree_of_handlePick_SF [OF assms(3) _ _ len(2), of i p] by simp
  next
    case F
    then show ?thesis
      using tree_of_handlePick_F [of p s "nat i"] by simp
  qed
qed

lemma react_refines:
  assumes "wellformed s" "react e s g = (Inr (al, s'), g')"
  shows "tree_of s' = a_step e (tree_of s)"
  using assms(2)
proof (cases rule: react_cases)
  case (Pick r i p s1)
  from assms(1) have "shape_ok s" "seeded s" "feeds s" by (simp_all add: wellformed_def)
  from tree_of_handlePick [OF this Pick(2)] Pick(1,4) tree_of_announceEffect [of s1] show ?thesis
    by (simp add: a_step_def)
next
  case Simulate
  with tree_of_announceEffect [of "simulated s g"] show ?thesis
    by (simp add: a_step_def)
next
  case Reset
  with tree_of_announceEffect [of "handleReset s"] show ?thesis
    by (simp add: a_step_def)
qed

text \<open>The part of a match that the abstract bracket accounts for.\<close>

definition strip :: "Match \<Rightarrow> Match" where
  "strip m = m\<lparr>outcome := None\<rparr>"



section \<open>The component implements the abstract bracket\<close>

text \<open>
  C15. Every session of the component is a run of the abstract bracket: from a
  reachable state, the abstract state after a list of events is the abstract
  state before it with the abstract step of every event applied in order. A
  pick is the propagation rule of its round, a simulation changes nothing of
  the abstract state, and a reset gives the empty bracket.
\<close>

theorem session_refines:
  assumes "run s out" "session es s g = (Inr (out', s'), g')"
  shows "tree_of s' = foldl (\<lambda>t e. a_step e t) (tree_of s) es"
  using assms
proof (induction es arbitrary: s out g out')
  case Nil
  then show ?case by simp
next
  case (Cons e es)
  from Cons.prems(2) obtain al s1 g1 out1 where
    r: "react e s g = (Inr (al, s1), g1)" and
    t: "session es s1 g1 = (Inr (out1, s'), g')"
    by (auto split: prod.splits sum.splits)
  from Cons.prems(1) have "wellformed s" using run_wellformed by blast
  from react_refines [OF this r] have "tree_of s1 = a_step e (tree_of s)" .
  moreover from Cons.prems(1) r have "run s1 (out @ al)" by (rule run.step)
  from Cons.IH [OF this t] have "tree_of s' = foldl (\<lambda>t e. a_step e t) (tree_of s1) es" .
  ultimately show ?case by simp
qed

theorem session_refines_witness:
  "\<exists>s out g. session [Pick QF 0 B, Pick QF 1 A, Pick SF 0 B, Simulate, Pick F 0 A] init_state
       (sconst 0) = (Inr (out, s), g) \<and>
     tree_of s = \<lparr>t_qf = [js_nth initialTeams 1, js_nth initialTeams 2, None, None],
                  t_sf = [js_nth initialTeams 2, None],
                  t_finalists = (js_nth initialTeams 2, None),
                  t_champion = js_nth initialTeams 2\<rparr>"
proof -
  obtain s out g where s: "session [Pick QF 0 B, Pick QF 1 A, Pick SF 0 B, Simulate, Pick F 0 A]
      init_state (sconst 0) = (Inr (out, s), g)"
    by (simp add: eval_simps)
  from session_refines [OF run.start s] have "tree_of s =
      \<lparr>t_qf = [js_nth initialTeams 1, js_nth initialTeams 2, None, None],
       t_sf = [js_nth initialTeams 2, None],
       t_finalists = (js_nth initialTeams 2, None),
       t_champion = js_nth initialTeams 2\<rparr>"
    by (simp add: a_step_def a_init_def seedTeam_def offset_def Let_def js_nth_initialTeams)
  with s show ?thesis by blast
qed

section \<open>From the abstract bracket back to the matches\<close>

text \<open>
  \<open>rebuild\<close> writes out the state of the component that an abstract bracket
  stands for: the quarterfinals with their seeds, the semifinals with the
  quarterfinal picks in their slots, no outcome, and nothing announced.
\<close>

definition mk :: "string \<Rightarrow> Team option \<Rightarrow> Team option \<Rightarrow> Team option \<Rightarrow> Match" where
  "mk i a b w = \<lparr>match_id = i, teamA = a, teamB = b, winner = w, outcome = None\<rparr>"



lemma strip_mk [simp]: "strip (mk i a b w) = mk i a b w"
  by (simp add: strip_def mk_def)

lemma mk_fields [simp]:
  "match_id (mk i a b w) = i" "teamA (mk i a b w) = a" "teamB (mk i a b w) = b"
  "winner (mk i a b w) = w" "outcome (mk i a b w) = None"
  by (simp_all add: mk_def)






end
