(* ===== verification/Contract.thy ===== *)
theory Contract
  imports Session
begin

text \<open>
  The contract of the bracket engine, written from the description of the
  program (\<^verbatim>\<open>spec.md\<close>, sections 3, 4 and 7), and the exact conditions under
  which the handlers of \<^verbatim>\<open>src/app/page.tsx\<close> meet it. The contract works on the
  same state as the component. Its commands validate their arguments and fail
  without changing the state (\<open>InvalidMatchReference\<close>, \<open>IncompleteMatch\<close>); a
  pick clears the pick of every match downstream and nothing else there; a
  simulation gives an outcome to the matches with two teams only; a reset
  restores the initial state with no checkpoint announced. \<open>agrees e s\<close> says
  when the handler of the event \<open>e\<close> in the state \<open>s\<close> does what the contract
  asks, and the lemmas show that this is exactly when it does.
\<close>

section \<open>The commands of the contract\<close>

text \<open>
  The failures of section 7. \<^verbatim>\<open>InvalidSide\<close> has no value here: a side is
  \<open>A\<close> or \<open>B\<close> by its type.
\<close>

datatype failure = InvalidMatchReference | IncompleteMatch

type_synonym 'a outcome = "failure + 'a"

text \<open>
  \<^verbatim>\<open>applyPick\<close> (section 4.1): the match must exist and hold two teams. The
  pick is recorded; the picked team goes to the slot of the target, \<open>A\<close> for
  the first feeder of the pair; the pick of the target is cleared, and the
  clearing cascades to the match after it. Slots and outcomes downstream of
  the target stay.
\<close>

definition unpick :: "Match \<Rightarrow> Match" where
  "unpick m = m\<lparr>winner := None\<rparr>"

definition applyPick :: "round \<Rightarrow> int \<Rightarrow> side \<Rightarrow> home_state \<Rightarrow> home_state outcome" where
  "applyPick r i p s =
    (if \<not> valid_index r i then Inl InvalidMatchReference
     else case match_at r s i of
       None \<Rightarrow> Inl InvalidMatchReference
     | Some m \<Rightarrow>
         if \<not> contested m then Inl IncompleteMatch
         else Inr (case r of
           QF \<Rightarrow> s\<lparr>qf := (qf s)[nat i := picked p m],
                   sf := (sf s)[target i := fed (i mod 2 = 0) (slot p m) (sf s ! target i)],
                   finalMatch := unpick (finalMatch s)\<rparr>
         | SF \<Rightarrow> s\<lparr>sf := (sf s)[nat i := picked p m],
                   finalMatch := fed (i = 0) (slot p m) (finalMatch s)\<rparr>
         | F \<Rightarrow> s\<lparr>finalMatch := picked p m\<rparr>))"

text \<open>
  \<^verbatim>\<open>simulateAll\<close> (section 4.2): a match with two teams gets one of them with
  probability one half each; any other match has no outcome afterwards.
\<close>

definition drawOutcome :: "Match \<Rightarrow> (rng, Match) state" where
  "drawOutcome m =
    (if contested m
     then do { r \<leftarrow> Math_random;
               State_Monad.return (m\<lparr>outcome := (if r < 1 / 2 then teamA m else teamB m)\<rparr>) }
     else State_Monad.return (m\<lparr>outcome := None\<rparr>))"

definition simulateAll :: "home_state \<Rightarrow> (rng, home_state) state" where
  "simulateAll s = do {
     qf' \<leftarrow> traverse_list drawOutcome (qf s);
     sf' \<leftarrow> traverse_list drawOutcome (sf s);
     f' \<leftarrow> drawOutcome (finalMatch s);
     State_Monad.return (s\<lparr>qf := qf', sf := sf', finalMatch := f'\<rparr>)
   }"

text \<open>\<^verbatim>\<open>reset\<close> (section 4.4): the initial tree and no checkpoint announced.\<close>

definition reset :: "home_state \<Rightarrow> home_state" where
  "reset s = init_state"

definition command :: "event \<Rightarrow> home_state \<Rightarrow> (rng, home_state outcome) state" where
  "command e s =
    (case e of
       Pick r i p \<Rightarrow> State_Monad.return (applyPick r i p s)
     | Simulate \<Rightarrow> do { s' \<leftarrow> simulateAll s; State_Monad.return (Inr s') }
     | Reset \<Rightarrow> State_Monad.return (Inr (reset s)))"

section \<open>Meeting the contract\<close>

text \<open>
  A result of a handler meets a result of the contract when both are the same
  state, or when the handler throws where the contract rejects the match
  reference.
\<close>

fun meets :: "home_state result \<Rightarrow> home_state outcome \<Rightarrow> bool" where
  "meets (Inr s) (Inr t) \<longleftrightarrow> s = t"
| "meets (Inl e) (Inl f) \<longleftrightarrow> f = InvalidMatchReference"
| "meets _ _ \<longleftrightarrow> False"

text \<open>A match with exactly one team.\<close>

definition lone_team :: "Match \<Rightarrow> bool" where
  "lone_team m \<longleftrightarrow> (teamA m = None) \<noteq> (teamB m = None)"

text \<open>
  When the handler of an event does what the contract asks: a quarterfinal
  pick when the final holds no team and no outcome, a semifinal pick when the
  semifinal holds two teams and the final no outcome, a pick of the final when
  it holds two teams, a simulation when no match holds exactly one team, a
  reset when no checkpoint has been announced.
\<close>

definition agrees :: "event \<Rightarrow> home_state \<Rightarrow> bool" where
  "agrees e s =
    (case e of
       Pick QF i p \<Rightarrow> valid_index QF i \<longrightarrow>
         teamA (finalMatch s) = None \<and> teamB (finalMatch s) = None \<and> outcome (finalMatch s) = None
     | Pick SF i p \<Rightarrow> valid_index SF i \<longrightarrow>
         contested (sf s ! nat i) \<and> outcome (finalMatch s) = None
     | Pick F i p \<Rightarrow> contested (finalMatch s)
     | Simulate \<Rightarrow> list_all (\<lambda>m. \<not> lone_team m) (matches s)
     | Reset \<Rightarrow> announced s = [])"

section \<open>Picks\<close>

lemma state_eq_iff:
  "s = t \<longleftrightarrow> qf s = qf t \<and> sf s = sf t \<and> finalMatch s = finalMatch t \<and> announced s = announced t"
  for s t :: home_state
  by (cases s; cases t) auto

lemma seeded_contested:
  assumes "seeded s" "shape_ok s" "0 \<le> i" "i < 4"
  shows "contested (qf s ! nat i)"
  using assms seeded_slot [of s "nat i" A] seeded_slot [of s "nat i" B]
  by (auto simp: contested_def seedTeam_def js_nth_initialTeams js_nth_def initialTeams_def
      offset_def nat_less_iff)

lemma meets_QF:
  assumes "shape_ok s" "seeded s"
  shows "meets (handlePick QF i p s) (applyPick QF i p s) \<longleftrightarrow> agrees (Pick QF i p) s"
proof (cases "valid_index QF i")
  case True
  with assms have c: "contested (qf s ! nat i)" by (simp add: seeded_contested)
  from assms(1) have len: "length (qf s) = 4" "length (sf s) = 2" "match_id (finalMatch s) = ''F''"
    by (simp_all add: shape_ok_lengths shape_ok_def)
  have "emptyMatch ''F'' = unpick (finalMatch s) \<longleftrightarrow>
      teamA (finalMatch s) = None \<and> teamB (finalMatch s) = None \<and> outcome (finalMatch s) = None"
    using len(3) by (cases "finalMatch s") (auto simp: emptyMatch_def unpick_def)
  with True c len show ?thesis
    by (simp add: handlePick_eqs applyPick_def agrees_def js_nth_def pickedTeam_eq_slot
        nat_less_iff state_eq_iff)
next
  case False
  with assms show ?thesis
    by (auto simp: handlePick_eqs applyPick_def agrees_def shape_ok_lengths)
qed

lemma meets_SF:
  assumes "shape_ok s"
  shows "meets (handlePick SF i p s) (applyPick SF i p s) \<longleftrightarrow> agrees (Pick SF i p) s"
proof (cases "valid_index SF i")
  case True
  from assms have len: "length (sf s) = 2" "match_id (finalMatch s) = ''F''"
    by (simp_all add: shape_ok_lengths shape_ok_def)
  have "(fed b w (finalMatch s))\<lparr>match_id := ''F'', outcome := None\<rparr> = fed b w (finalMatch s)
      \<longleftrightarrow> outcome (finalMatch s) = None" for b w
    using len(2) by (cases "finalMatch s") (auto simp: fed_def)
  with True len show ?thesis
    by (simp add: handlePick_eqs applyPick_def agrees_def js_nth_def pickedTeam_eq_slot
        nat_less_iff state_eq_iff)
next
  case False
  with assms show ?thesis
    by (auto simp: handlePick_eqs applyPick_def agrees_def shape_ok_lengths)
qed

lemma meets_F: "meets (handlePick F i p s) (applyPick F i p s) \<longleftrightarrow> agrees (Pick F i p) s"
  by (simp add: handlePick_eqs applyPick_def agrees_def)

section \<open>Simulation\<close>

text \<open>The match as the contract leaves it, given the match as the handler leaves it.\<close>

definition blank :: "Match \<Rightarrow> Match" where
  "blank m = (if contested m then m else m\<lparr>outcome := None\<rparr>)"

lemma run_drawOutcome:
  "run_state (drawOutcome m) g = (blank (m\<lparr>outcome := decide (shd g) m\<rparr>), rest m g)"
  by (simp add: drawOutcome_def blank_def decide_def rest_def Math_random_def)

lemma run_traverse_drawOutcome:
  "run_state (traverse_list drawOutcome ms) g = (map blank (sim_list ms g), draws (used ms) g)"
  by (induction ms arbitrary: g) (simp_all add: run_drawOutcome draws_rest)

lemma run_simulateAll:
  "run_state (simulateAll s) g =
    (s\<lparr>qf := map blank (sim_list (qf s) g),
       sf := map blank (sim_list (sf s) (draws (used (qf s)) g)),
       finalMatch := blank ((finalMatch s)\<lparr>outcome :=
         decide (shd (draws (used (qf s) + used (sf s)) g)) (finalMatch s)\<rparr>)\<rparr>,
     draws (used (matches s)) g)"
  by (simp add: simulateAll_def run_traverse_drawOutcome run_drawOutcome rest_draws draws_add
      matches_def)

lemma blank_decide:
  "blank (m\<lparr>outcome := decide r m\<rparr>) = m\<lparr>outcome := decide r m\<rparr> \<longleftrightarrow> \<not> lone_team m"
proof (cases "contested m")
  case True
  then show ?thesis by (auto simp: blank_def lone_team_def contested_def)
next
  case False
  have "m\<lparr>outcome := None\<rparr> = m\<lparr>outcome := decide r m\<rparr> \<longleftrightarrow> decide r m = None"
    by (cases m) auto
  with False show ?thesis
    by (auto simp: blank_def lone_team_def contested_def decide_eq_None_iff)
qed

lemma blank_sim_list:
  "map blank (sim_list ms g) = sim_list ms g \<longleftrightarrow> list_all (\<lambda>m. \<not> lone_team m) ms"
  by (induction ms arbitrary: g) (auto simp: blank_decide)

lemma meets_Simulate:
  "fst (run_state (handleSimulate s) g) = fst (run_state (simulateAll s) g) \<longleftrightarrow> agrees Simulate s"
  by (auto simp: run_handleSimulate run_simulateAll agrees_def state_eq_iff blank_sim_list
      blank_decide list_all_matches eq_commute [of "sim_list ms g" for ms g]
      eq_commute [of "m\<lparr>outcome := x\<rparr>" for m x])

section \<open>Every event\<close>

lemma run_dispatch:
  "run_state (dispatch e s) g =
    (case e of
       Pick r i p \<Rightarrow> (handlePick r i p s, g)
     | Simulate \<Rightarrow> (Inr (fst (run_state (handleSimulate s) g)), draws (used (matches s)) g)
     | Reset \<Rightarrow> (Inr (handleReset s), g))"
  by (simp add: dispatch_def run_handleSimulate split: event.splits)

lemma run_command:
  "run_state (command e s) g =
    (case e of
       Pick r i p \<Rightarrow> (applyPick r i p s, g)
     | Simulate \<Rightarrow> (Inr (fst (run_state (simulateAll s) g)), draws (used (matches s)) g)
     | Reset \<Rightarrow> (Inr (reset s), g))"
  by (simp add: command_def run_simulateAll split: event.splits)

lemma meets_Reset: "handleReset s = reset s \<longleftrightarrow> agrees Reset s"
  by (auto simp: handleReset_eq_init reset_def agrees_def state_eq_iff init_state_def)

section \<open>The handlers and the contract\<close>

text \<open>
  C13. The handlers meet the contract exactly where \<open>agrees\<close> says. On a
  well-shaped, seeded bracket the handler of an event returns the state the
  command of the contract returns (or throws where the contract rejects the
  match reference) if and only if: for a quarterfinal pick the final holds no
  team and no outcome; for a semifinal pick the semifinal holds two teams and
  the final has no outcome; for a pick in the final it holds two teams; for a
  simulation no match holds exactly one team; for a reset no checkpoint has
  been announced. Handler and command take the same numbers from the stream.
\<close>

theorem contract_met_iff:
  assumes "shape_ok s" "seeded s"
  shows "(meets (fst (run_state (dispatch e s) g)) (fst (run_state (command e s) g)) \<longleftrightarrow> agrees e s) \<and>
         snd (run_state (dispatch e s) g) = snd (run_state (command e s) g)"
proof (cases e)
  case (Pick r i p)
  with assms show ?thesis
    by (cases r) (simp_all add: run_dispatch run_command meets_QF meets_SF meets_F)
next
  case Simulate
  then show ?thesis
    by (simp add: run_dispatch run_command meets_Simulate)
next
  case Reset
  then show ?thesis
    by (simp add: run_dispatch run_command meets_Reset)
qed

theorem contract_met_iff_witness:
  "\<exists>s. handlePick QF 0 A init_state = Inr s \<and> shape_ok s \<and> seeded s \<and>
     meets (fst (run_state (dispatch (Pick QF 1 B) s) (sconst 0)))
           (fst (run_state (command (Pick QF 1 B) s) (sconst 0))) \<and>
     \<not> meets (fst (run_state (dispatch (Pick SF 0 A) s) (sconst 0)))
             (fst (run_state (command (Pick SF 0 A) s) (sconst 0))) \<and>
     \<not> meets (fst (run_state (dispatch Simulate s) (sconst 0)))
             (fst (run_state (command Simulate s) (sconst 0)))"
proof -
  obtain s where s: "handlePick QF 0 A init_state = Inr s"
    and f: "finalMatch s = emptyMatch ''F''" "sf s = [fed True (js_nth initialTeams 0) (emptyMatch ''SF1''), emptyMatch ''SF2'']"
    by (simp add: run_simps)
  from s have sh: "shape_ok s" "seeded s"
    using handlePick_shape_ok handlePick_seeded shape_ok_init seeded_init by blast+
  have a: "agrees (Pick QF 1 B) s" "\<not> agrees (Pick SF 0 A) s" "\<not> agrees Simulate s"
    using f by (simp_all add: agrees_def emptyMatch_def contested_def lone_team_def matches_def
        js_nth_initialTeams)
  from contract_met_iff [OF sh, of "Pick QF 1 B" "sconst 0"]
    contract_met_iff [OF sh, of "Pick SF 0 A" "sconst 0"]
    contract_met_iff [OF sh, of Simulate "sconst 0"] a s sh
  show ?thesis by simp
qed

end
