(* ===== verification/Updates.thy ===== *)
theory Updates
  imports Session
begin

text \<open>
  The update queue behind the handlers of \<^verbatim>\<open>src/app/page.tsx\<close>. A handler
  does not change the state: it calls the setters of the \<^verbatim>\<open>useState\<close> hooks
  (\<^verbatim>\<open>setQf\<close>, \<^verbatim>\<open>setSf\<close>, \<^verbatim>\<open>setFinalMatch\<close>, \<^verbatim>\<open>setAnnounced\<close>), each call
  queues an update, and the next render applies the queued updates. Here a
  handler is the list of updates it queues, in the order of its calls
  (\<open>handlePick_updates\<close>, \<open>handleReset_updates\<close>, \<open>effect_updates\<close>).
  \<open>flush\<close> applies a queue in the order of the calls; \<open>flush_hooks\<close> applies
  it the way a render does, hook by hook in the order the hooks are declared.
  The updaters of \<^verbatim>\<open>handleSimulate\<close> draw random numbers when they are applied:
  \<open>queued\<close> is an update of either kind, \<open>flush_queue\<close> applies a queue of
  them in the state monad over the stream of draws, \<open>event_updates\<close> is the
  queue of an event and \<open>render_event\<close> one render with its effect.
  The lemmas show that both orders give the same state, that the queue of a
  handler gives what the handler's definition in \<open>Propagation\<close>, \<open>Simulation\<close>
  and \<open>Checkpoints\<close> gives, that a render is a step \<open>react\<close> of \<open>Session\<close>,
  and what happens when one render's handlers are called twice before the
  next render.
\<close>

section \<open>Updates and queues\<close>

text \<open>
  A call \<^verbatim>\<open>setQf(f)\<close> with the function it passes. A function that throws
  returns \<open>Inl\<close>; a call with a value instead of a function is the constant
  function.
\<close>

datatype update =
  SetQf "Match list \<Rightarrow> Match list result"
| SetSf "Match list \<Rightarrow> Match list result"
| SetFinalMatch "Match \<Rightarrow> Match result"
| SetAnnounced "nat list \<Rightarrow> nat list result"

fun applyUpdate :: "update \<Rightarrow> home_state \<Rightarrow> home_state result" where
  "applyUpdate (SetQf f) s = rbind (f (qf s)) (\<lambda>v. Inr (s\<lparr>qf := v\<rparr>))"
| "applyUpdate (SetSf f) s = rbind (f (sf s)) (\<lambda>v. Inr (s\<lparr>sf := v\<rparr>))"
| "applyUpdate (SetFinalMatch f) s = rbind (f (finalMatch s)) (\<lambda>v. Inr (s\<lparr>finalMatch := v\<rparr>))"
| "applyUpdate (SetAnnounced f) s = rbind (f (announced s)) (\<lambda>v. Inr (s\<lparr>announced := v\<rparr>))"

fun flush :: "update list \<Rightarrow> home_state \<Rightarrow> home_state result" where
  "flush [] s = Inr s"
| "flush (u # us) s = rbind (applyUpdate u s) (flush us)"

text \<open>
  A render calls the hooks in the order of their declaration (lines 106, 113,
  118, 140), and each hook applies the updates of its own queue.
\<close>

datatype hook = HQf | HSf | HFinalMatch | HAnnounced

fun hook_of :: "update \<Rightarrow> hook" where
  "hook_of (SetQf f) = HQf"
| "hook_of (SetSf f) = HSf"
| "hook_of (SetFinalMatch f) = HFinalMatch"
| "hook_of (SetAnnounced f) = HAnnounced"

definition by_hook :: "update list \<Rightarrow> update list" where
  "by_hook us = concat (map (\<lambda>h. filter (\<lambda>u. hook_of u = h) us) [HQf, HSf, HFinalMatch, HAnnounced])"

definition flush_hooks :: "update list \<Rightarrow> home_state \<Rightarrow> home_state result" where
  "flush_hooks us s = flush (by_hook us) s"

section \<open>The queues of the handlers\<close>

fun handlePick_updates :: "home_state \<Rightarrow> round \<Rightarrow> int \<Rightarrow> side \<Rightarrow> update list" where
  "handlePick_updates seen QF i p =
     [SetQf (setWinner i p),
      SetSf (propagateToSf (qf seen) i p),
      SetFinalMatch (\<lambda>prev. Inr (clearFinal prev))]"
| "handlePick_updates seen SF i p =
     [SetSf (setWinner i p),
      SetFinalMatch (propagateToFinal (sf seen) i p)]"
| "handlePick_updates seen F i p =
     [SetFinalMatch (\<lambda>prev. Inr (pickFinal p prev))]"



text \<open>
  The picks of one render: every handler called before the next render
  carries the closure of the same render, and the updates of all of them are
  in the queue when that render comes.
\<close>

definition pick_batch :: "home_state \<Rightarrow> (round \<times> int \<times> side) list \<Rightarrow> update list" where
  "pick_batch seen ps = concat (map (\<lambda>(r, i, p). handlePick_updates seen r i p) ps)"

section \<open>Updates that draw random numbers\<close>











section \<open>A queue, hook by hook\<close>

text \<open>The functions a queue holds for one hook, and their composition.\<close>

fun chain :: "('a \<Rightarrow> 'a result) list \<Rightarrow> 'a \<Rightarrow> 'a result" where
  "chain [] v = Inr v"
| "chain (f # fs) v = rbind (f v) (chain fs)"

fun qf_fs :: "update list \<Rightarrow> (Match list \<Rightarrow> Match list result) list" where
  "qf_fs [] = []"
| "qf_fs (SetQf f # us) = f # qf_fs us"
| "qf_fs (u # us) = qf_fs us"

fun sf_fs :: "update list \<Rightarrow> (Match list \<Rightarrow> Match list result) list" where
  "sf_fs [] = []"
| "sf_fs (SetSf f # us) = f # sf_fs us"
| "sf_fs (u # us) = sf_fs us"

fun final_fs :: "update list \<Rightarrow> (Match \<Rightarrow> Match result) list" where
  "final_fs [] = []"
| "final_fs (SetFinalMatch f # us) = f # final_fs us"
| "final_fs (u # us) = final_fs us"

fun announced_fs :: "update list \<Rightarrow> (nat list \<Rightarrow> nat list result) list" where
  "announced_fs [] = []"
| "announced_fs (SetAnnounced f # us) = f # announced_fs us"
| "announced_fs (u # us) = announced_fs us"

lemma flush_append: "flush (us @ vs) s = rbind (flush us s) (flush vs)"
  by (induction us arbitrary: s) (auto simp: rbind_def split: sum.splits)

lemma qf_fs_append [simp]: "qf_fs (us @ vs) = qf_fs us @ qf_fs vs"
  by (induction us rule: qf_fs.induct) simp_all

lemma sf_fs_append [simp]: "sf_fs (us @ vs) = sf_fs us @ sf_fs vs"
  by (induction us rule: sf_fs.induct) simp_all

lemma final_fs_append [simp]: "final_fs (us @ vs) = final_fs us @ final_fs vs"
  by (induction us rule: final_fs.induct) simp_all

lemma announced_fs_append [simp]: "announced_fs (us @ vs) = announced_fs us @ announced_fs vs"
  by (induction us rule: announced_fs.induct) simp_all

lemma qf_fs_filter:
  "qf_fs (filter (\<lambda>u. hook_of u = h) us) = (if h = HQf then qf_fs us else [])"
  by (induction us rule: qf_fs.induct) auto

lemma sf_fs_filter:
  "sf_fs (filter (\<lambda>u. hook_of u = h) us) = (if h = HSf then sf_fs us else [])"
  by (induction us rule: sf_fs.induct) auto

lemma final_fs_filter:
  "final_fs (filter (\<lambda>u. hook_of u = h) us) = (if h = HFinalMatch then final_fs us else [])"
  by (induction us rule: final_fs.induct) auto

lemma announced_fs_filter:
  "announced_fs (filter (\<lambda>u. hook_of u = h) us) = (if h = HAnnounced then announced_fs us else [])"
  by (induction us rule: announced_fs.induct) auto

lemmas fs_filter = qf_fs_filter sf_fs_filter final_fs_filter announced_fs_filter

lemma fs_by_hook [simp]:
  "qf_fs (by_hook us) = qf_fs us" "sf_fs (by_hook us) = sf_fs us"
  "final_fs (by_hook us) = final_fs us" "announced_fs (by_hook us) = announced_fs us"
  by (simp_all add: by_hook_def fs_filter)

lemma flush_eq_Inr_iff:
  "flush us s = Inr s' \<longleftrightarrow>
     chain (qf_fs us) (qf s) = Inr (qf s') \<and> chain (sf_fs us) (sf s) = Inr (sf s') \<and>
     chain (final_fs us) (finalMatch s) = Inr (finalMatch s') \<and>
     chain (announced_fs us) (announced s) = Inr (announced s')"
proof (induction us arbitrary: s)
  case Nil
  show ?case by auto
next
  case (Cons u us)
  show ?case
    by (cases u) (auto simp: rbind_eq_Inr_iff Cons.IH)
qed

lemma by_hook_handlePick [simp]:
  "by_hook (handlePick_updates seen r i p) = handlePick_updates seen r i p"
  by (cases r) (simp_all add: by_hook_def)

lemma flush_handlePick_updates:
  "flush (handlePick_updates seen r i p) s = handlePick_seen seen r i p s"
  by (cases r) (auto simp: rbind_def split: sum.splits)

lemma flush_QF_batch:
  assumes "seeded seen" "list_all (\<lambda>(r, i, p). r = QF) ps"
  shows "shape_ok s \<Longrightarrow> seeded s \<Longrightarrow> flush (pick_batch seen ps) s = pickAll ps s"
  using assms(2)
proof (induction ps arbitrary: s)
  case Nil
  show ?case by (simp add: pick_batch_def)
next
  case (Cons x ps)
  obtain i p where x: "x = (QF, i, p)" using Cons.prems(3) by (cases x) auto
  have h: "flush (handlePick_updates seen QF i p) s = handlePick QF i p s"
    unfolding flush_handlePick_updates using Cons.prems(1,2) assms(1)
    by (rule stale_QF_pick_harmless)
  have b: "pick_batch seen (x # ps) = handlePick_updates seen QF i p @ pick_batch seen ps"
    by (simp add: pick_batch_def x)
  have step: "flush (pick_batch seen (x # ps)) s =
      rbind (handlePick QF i p s) (flush (pick_batch seen ps))"
    unfolding b flush_append h ..
  show ?case
  proof (cases "handlePick QF i p s")
    case (Inl e)
    with step show ?thesis by (simp add: x)
  next
    case (Inr s1)
    with Cons.prems have "shape_ok s1" "seeded s1"
      by (simp_all add: handlePick_shape_ok handlePick_seeded)
    with Cons.IH [of s1] Cons.prems(3) Inr step show ?thesis
      by (simp add: x)
  qed
qed

section \<open>The queue of an event\<close>






section \<open>Properties of the queue\<close>



text \<open>
  C26. Quarterfinal picks can share a render: when several handlers of one
  render are called before the next render, and all of them pick in a
  quarterfinal, the queue gives the state that handling the picks one render
  at a time gives. The closure is read only for the slots of the
  quarterfinals, which never change.
\<close>

theorem QF_batch_is_sequential:
  assumes "shape_ok s" "seeded s" "seeded seen" "list_all (\<lambda>(r, i, p). r = QF) ps"
  shows "flush (pick_batch seen ps) s = pickAll ps s \<and>
         (flush_hooks (pick_batch seen ps) s = Inr s' \<longleftrightarrow> pickAll ps s = Inr s')"
proof -
  from flush_QF_batch [OF assms(3,4,1,2)] have f: "flush (pick_batch seen ps) s = pickAll ps s" .
  have "flush_hooks (pick_batch seen ps) s = Inr s' \<longleftrightarrow> flush (pick_batch seen ps) s = Inr s'"
    by (simp add: flush_hooks_def flush_eq_Inr_iff)
  with f show ?thesis by simp
qed

theorem QF_batch_is_sequential_witness:
  "shape_ok init_state \<and> seeded init_state \<and>
   (\<exists>s'. flush_hooks (pick_batch init_state [(QF, 0, A), (QF, 1, B), (QF, 0, B)]) init_state = Inr s' \<and>
      pickAll [(QF, 0, A), (QF, 1, B), (QF, 0, B)] init_state = Inr s' \<and>
      map winner (sf s') = [None, None] \<and> teamA (sf s' ! 0) = js_nth initialTeams 1)"
proof -
  obtain s' where s': "pickAll [(QF, 0, A), (QF, 1, B), (QF, 0, B)] init_state = Inr s'"
    and f: "map winner (sf s') = [None, None]" "teamA (sf s' ! 0) = js_nth initialTeams 1"
    by (simp add: run_simps js_nth_initialTeams)
  from QF_batch_is_sequential [OF shape_ok_init seeded_init seeded_init, of _ s'] s' f
  show ?thesis by simp
qed

text \<open>
  A semifinal pick cannot share a render with the quarterfinal pick that
  feeds it. With semifinal 1 holding the first team of quarterfinal 1, a
  queue that holds the pick of the second team of quarterfinal 1 and then the
  pick of slot A of semifinal 1, both from the render before, records the
  second team as the pick of the semifinal and puts the first team into the
  final; handled one render at a time the final gets the second team.
\<close>

lemma SF_batch_splits_final:
  "\<exists>seen s' t. handlePick QF 0 A init_state = Inr seen \<and>
     flush_hooks (pick_batch seen [(QF, 0, B), (SF, 0, A)]) seen = Inr s' \<and>
     winner (sf s' ! 0) = js_nth initialTeams 1 \<and> teamA (finalMatch s') = js_nth initialTeams 0 \<and>
     pickAll [(QF, 0, B), (SF, 0, A)] seen = Inr t \<and>
     winner (sf t ! 0) = js_nth initialTeams 1 \<and> teamA (finalMatch t) = js_nth initialTeams 1"
  by (simp add: run_simps js_nth_initialTeams flush_hooks_def by_hook_def pick_batch_def
      setWinner_eq propagateToSf_eq propagateToFinal_eq clearFinal_def)


end
